(* ===== verification/Prelude.thy ===== *)
theory Prelude
  imports Main "HOL-Library.Finite_Map" "HOL-Library.Word"
begin

text \<open>
  What the components share: the Go values the program computes with (strings, slices and maps
  that may be nil, errors as values) and the functions of Go's standard library that the source
  calls on them (\<^verbatim>\<open>strings\<close>, \<^verbatim>\<open>strconv\<close>, \<^verbatim>\<open>fmt\<close>), with the lemmas on
  them that the component proofs use through the collections \<open>go_simps\<close> and \<open>str_simps\<close>.

  A Go string is a byte sequence and so is a HOL \<^typ>\<open>string\<close>; \<^verbatim>\<open>len\<close> is
  \<^const>\<open>length\<close>. A Go map is a finite map below an \<^typ>\<open>'a option\<close> whose \<^const>\<open>None\<close>
  is the nil map, since \<^verbatim>\<open>reflect.DeepEqual\<close> tells a nil map from an empty one.
\<close>

named_theorems go_simps \<open>facts on Go maps, slices and results\<close>
named_theorems str_simps \<open>facts on the functions of package strings\<close>

section \<open>Maps and slices that may be nil\<close>

type_synonym 'v gomap = "(string, 'v) fmap option"
type_synonym 'a goslice = "'a list option"

definition items :: "'a goslice \<Rightarrow> 'a list" where
  "items s = (case s of None \<Rightarrow> [] | Some xs \<Rightarrow> xs)"

definition go_nil :: "'v gomap" where
  "go_nil = None"

definition go_make :: "'v gomap" where
  "go_make = Some fmempty"

text \<open>\<^verbatim>\<open>m[k]\<close> as an expression: the element type's zero value where the key is missing.\<close>

definition go_get :: "'v \<Rightarrow> 'v gomap \<Rightarrow> string \<Rightarrow> 'v" where
  "go_get zero m k =
     (case m of None \<Rightarrow> zero
      | Some f \<Rightarrow> (case fmlookup f k of None \<Rightarrow> zero | Some v \<Rightarrow> v))"

text \<open>\<^verbatim>\<open>_, ok := m[k]\<close>\<close>

definition go_has :: "'v gomap \<Rightarrow> string \<Rightarrow> bool" where
  "go_has m k = (case m of None \<Rightarrow> False | Some f \<Rightarrow> fmlookup f k \<noteq> None)"

text \<open>
  \<^verbatim>\<open>m[k] = v\<close>: the store into a nil map panics (\<^const>\<open>None\<close> as the result).
\<close>

definition go_set :: "string \<Rightarrow> 'v \<Rightarrow> 'v gomap \<Rightarrow> 'v gomap option" where
  "go_set k v m = map_option (\<lambda>f. Some (fmupd k v f)) m"

definition go_len :: "'v gomap \<Rightarrow> nat" where
  "go_len m = (case m of None \<Rightarrow> 0 | Some f \<Rightarrow> fcard (fmdom f))"

section \<open>Package strings\<close>

definition HasPrefix :: "string \<Rightarrow> string \<Rightarrow> bool" where
  "HasPrefix s p = (take (length p) s = p)"

fun Contains :: "string \<Rightarrow> string \<Rightarrow> bool" where
  "Contains [] p = (p = [])"
| "Contains (x # s) p = (HasPrefix (x # s) p \<or> Contains s p)"

text \<open>\<^verbatim>\<open>strings.Split(s, sep)\<close> for a separator of one byte.\<close>

fun Split :: "char \<Rightarrow> string \<Rightarrow> string list" where
  "Split c [] = [[]]"
| "Split c (x # s) =
     (if x = c then [] # Split c s
      else (case Split c s of [] \<Rightarrow> [[x]] | y # ys \<Rightarrow> (x # y) # ys))"

definition TrimPrefix :: "string \<Rightarrow> string \<Rightarrow> string" where
  "TrimPrefix s p = (if HasPrefix s p then drop (length p) s else s)"

definition TrimSuffix :: "string \<Rightarrow> string \<Rightarrow> string" where
  "TrimSuffix s p =
     (if length p \<le> length s \<and> drop (length s - length p) s = p
      then take (length s - length p) s else s)"

text \<open>
  \<^verbatim>\<open>strings.Index\<close> and \<^verbatim>\<open>strings.LastIndex\<close> for a pattern of one byte; \<open>-1\<close> is
  \<^const>\<open>None\<close>.
\<close>

fun Index :: "string \<Rightarrow> char \<Rightarrow> nat option" where
  "Index [] c = None"
| "Index (x # s) c = (if x = c then Some 0 else map_option Suc (Index s c))"

fun LastIndex :: "string \<Rightarrow> char \<Rightarrow> nat option" where
  "LastIndex [] c = None"
| "LastIndex (x # s) c =
     (case LastIndex s c of Some i \<Rightarrow> Some (Suc i)
      | None \<Rightarrow> if x = c then Some 0 else None)"

definition is_digit :: "char \<Rightarrow> bool" where
  "is_digit c = (c \<in> set ''0123456789'')"

section \<open>Results of calls\<close>

text \<open>
  A call returns a value, returns an error, panics, or ends the process (\<^verbatim>\<open>klog.Fatalf\<close>).
  \<open>on_ok\<close> goes on with the value, as code does after \<^verbatim>\<open>if err != nil { return err }\<close>.
\<close>

datatype ('e, 'a) result = Ok 'a | Fail 'e | Panic | Exit

fun on_ok :: "('e, 'a) result \<times> 'w \<Rightarrow> ('a \<Rightarrow> 'w \<Rightarrow> ('e, 'b) result \<times> 'w) \<Rightarrow> ('e, 'b) result \<times> 'w" where
  "on_ok (Ok x, w) f = f x w"
| "on_ok (Fail e, w) f = (Fail e, w)"
| "on_ok (Panic, w) f = (Panic, w)"
| "on_ok (Exit, w) f = (Exit, w)"

lemma on_ok_Ok [simp]:
  "on_ok r f = (Ok y, w') \<longleftrightarrow> (\<exists>x w. r = (Ok x, w) \<and> f x w = (Ok y, w'))"
  by (cases "(r, f)" rule: on_ok.cases) auto

lemma on_ok_not_ok:
  "(\<And>x. r = Ok x \<Longrightarrow> \<exists>s. f x w = (s, w) \<and> s \<noteq> Ok y) \<Longrightarrow> \<exists>s. on_ok (r, w) f = (s, w) \<and> s \<noteq> Ok y"
  by (cases r) auto

section \<open>Numbers in decimal\<close>

text \<open>\<^verbatim>\<open>strconv.ParseInt(s, 10, 32)\<close>: \<^const>\<open>None\<close> is any error, of syntax or of range.\<close>

definition digit_val :: "char \<Rightarrow> nat" where
  "digit_val c = (case Index ''0123456789'' c of Some i \<Rightarrow> i | None \<Rightarrow> 0)"

fun digits_val :: "nat \<Rightarrow> string \<Rightarrow> nat option" where
  "digits_val n [] = Some n"
| "digits_val n (c # s) = (if is_digit c then digits_val (10 * n + digit_val c) s else None)"

definition ParseInt32 :: "string \<Rightarrow> int option" where
  "ParseInt32 s =
     (if s = [] then None
      else
        (let neg = (hd s = CHR ''-'');
             ds = (if hd s = CHR ''-'' \<or> hd s = CHR ''+'' then tl s else s)
         in if ds = [] then None
            else (case digits_val 0 ds of
                    None \<Rightarrow> None
                  | Some n \<Rightarrow>
                      if \<not> neg \<and> n \<ge> 2 ^ 31 then None
                      else if neg \<and> n > 2 ^ 31 then None
                      else Some (if neg then - int n else int n))))"

text \<open>The verb \<^verbatim>\<open>%d\<close> of package fmt.\<close>

definition digit_char :: "nat \<Rightarrow> char" where
  "digit_char n = ''0123456789'' ! n"

fun show_nat :: "nat \<Rightarrow> string" where
  "show_nat n = (if n < 10 then [digit_char n] else show_nat (n div 10) @ [digit_char (n mod 10)])"

declare show_nat.simps [simp del]

definition show_int :: "int \<Rightarrow> string" where
  "show_int i = (if i < 0 then CHR ''-'' # show_nat (nat (- i)) else show_nat (nat i))"

section \<open>Splits of a call's result\<close>

text \<open>
  The result of a call is a pair of a value or error and the new state: these rules split every
  case expression over one.
\<close>

lemmas call_splits = prod.splits sum.splits option.splits

section \<open>Lemmas on maps\<close>

lemma go_get_nil [simp, go_simps]: "go_get z None k = z"
  by (simp add: go_get_def)

lemma go_get_nonzero: "go_get z m k \<noteq> z \<Longrightarrow> \<exists>f. m = Some f"
  by (cases m) simp_all

lemma go_get_upd [simp, go_simps]:
  "go_get z (Some (fmupd k v f)) k' = (if k = k' then v else go_get z (Some f) k')"
  by (simp add: go_get_def)

lemma go_get_empty [simp, go_simps]: "go_get z (Some fmempty) k = z"
  by (simp add: go_get_def)

lemma go_get_make [simp, go_simps]: "go_get z go_make k = z"
  by (simp add: go_make_def)

lemma go_has_upd [simp, go_simps]:
  "go_has (Some (fmupd k v f)) k' = (k = k' \<or> go_has (Some f) k')"
  by (simp add: go_has_def)

lemma go_has_nil [simp, go_simps]: "\<not> go_has None k"
  by (simp add: go_has_def)

lemma go_set_nil [simp, go_simps]: "go_set k v None = None"
  by (simp add: go_set_def)

lemma go_set_Some [simp, go_simps]: "go_set k v (Some f) = Some (Some (fmupd k v f))"
  by (simp add: go_set_def)

lemma go_len_nil [simp, go_simps]: "go_len None = 0"
  by (simp add: go_len_def)

lemma go_len_0_iff [go_simps]: "go_len m = 0 \<longleftrightarrow> (\<forall>k. \<not> go_has m k)"
proof (cases m)
  case (Some f)
  have "fcard (fmdom f) = 0 \<longleftrightarrow> fmdom f = {||}"
    by (metis fcard_0_eq)
  also have "\<dots> \<longleftrightarrow> (\<forall>k. fmlookup f k = None)"
    by (metis fmdom_notD fmdom_notI fempty_iff fset_eqI)
  finally show ?thesis
    using Some by (simp add: go_len_def go_has_def)
qed simp

text \<open>A map with at least as many keys, all of them keys of the other one, has the same keys.\<close>

lemma fmdom_sub_card_eq:
  "fmdom m |\<subseteq>| fmdom n \<Longrightarrow> fcard (fmdom n) \<le> fcard (fmdom m) \<Longrightarrow> fmdom m = fmdom n"
  by (metis fcard_seteq)

section \<open>Lemmas on lists\<close>

lemma fold_snoc: "fold (\<lambda>x q. q @ [x]) xs q = q @ xs"
  by (induction xs arbitrary: q) simp_all

section \<open>Lemmas on strings\<close>

lemma HasPrefix_append [simp, str_simps]: "HasPrefix (p @ s) p"
  by (simp add: HasPrefix_def)

lemma HasPrefix_iff [str_simps]: "HasPrefix s p \<longleftrightarrow> (\<exists>t. s = p @ t)"
  unfolding HasPrefix_def by (metis append_eq_conv_conj append_take_drop_id)

lemma HasPrefix_Cons [simp, str_simps]:
  "HasPrefix (x # s) (y # p) \<longleftrightarrow> x = y \<and> HasPrefix s p"
  by (auto simp: HasPrefix_def)

lemma HasPrefix_Nil [simp, str_simps]: "HasPrefix s []" "HasPrefix [] (y # p) \<longleftrightarrow> False"
  by (simp_all add: HasPrefix_def)

lemma Contains_iff [str_simps]: "Contains s p \<longleftrightarrow> (\<exists>u v. s = u @ p @ v)"
proof (induction s)
  case (Cons x s)
  show ?case
  proof
    assume "Contains (x # s) p"
    then consider "HasPrefix (x # s) p" | "Contains s p" by auto
    then show "\<exists>u v. x # s = u @ p @ v"
    proof cases
      case 1
      then show ?thesis by (metis HasPrefix_iff append_Nil)
    next
      case 2
      with Cons.IH obtain u v where "s = u @ p @ v" by blast
      then have "x # s = (x # u) @ p @ v" by simp
      then show ?thesis by blast
    qed
  next
    assume "\<exists>u v. x # s = u @ p @ v"
    then obtain u v where *: "x # s = u @ p @ v" by blast
    show "Contains (x # s) p"
    proof (cases u)
      case Nil
      with * show ?thesis by (metis Contains.simps(2) HasPrefix_append append_Nil)
    next
      case (Cons y u')
      with * have "s = u' @ p @ v" by simp
      with Cons.IH show ?thesis by auto
    qed
  qed
qed simp

lemma Contains_set: "Contains s p \<Longrightarrow> set p \<subseteq> set s"
  by (auto simp: Contains_iff)

lemma Contains_prefix [simp, str_simps]: "Contains (p @ s) p"
  by (metis Contains_iff append_Nil)

lemma Split_not_Nil [simp, str_simps]: "Split c s \<noteq> []"
  by (induction s) (auto split: list.splits)

lemma Split_no_sep [str_simps]: "c \<notin> set s \<Longrightarrow> Split c s = [s]"
  by (induction s) auto

lemma Split_append_sep [str_simps]:
  "c \<notin> set s \<Longrightarrow> Split c (s @ c # t) = s # Split c t"
  by (induction s) (auto split: list.splits)

lemma Split_items: "item \<in> set (Split c s) \<Longrightarrow> c \<notin> set item"
proof (induction s arbitrary: item)
  case (Cons x s)
  then show ?case
    by (cases "Split c s") (auto split: if_splits)
qed simp

lemma Split_item_chars: "item \<in> set (Split c s) \<Longrightarrow> set item \<subseteq> set s"
  by (induction s arbitrary: item) (force split: if_splits list.splits)+

lemma LastIndex_None [str_simps]: "LastIndex s c = None \<longleftrightarrow> c \<notin> set s"
  by (induction s) (auto split: option.splits)

lemma LastIndex_append [str_simps]:
  "c \<notin> set t \<Longrightarrow> LastIndex (s @ c # t) c = Some (length s)"
proof (induction s)
  case Nil
  then show ?case by (simp add: LastIndex_None split: option.splits)
qed simp

lemma LastIndex_Some:
  "LastIndex s c = Some i \<Longrightarrow>
     i < length s \<and> s = take i s @ c # drop (Suc i) s \<and> c \<notin> set (drop (Suc i) s)"
  by (induction s arbitrary: i) (auto simp: LastIndex_None split: option.splits if_splits)

lemma Index_None [str_simps]: "Index s c = None \<longleftrightarrow> c \<notin> set s"
  by (induction s) auto

lemma Index_Some:
  "Index s c = Some i \<Longrightarrow>
     i < length s \<and> s = take i s @ c # drop (Suc i) s \<and> c \<notin> set (take i s)"
  by (induction s arbitrary: i) (auto split: if_splits)

lemma TrimSuffix_append [simp, str_simps]: "TrimSuffix (s @ p) p = s"
  by (simp add: TrimSuffix_def)

lemma TrimPrefix_append [simp, str_simps]: "TrimPrefix (p @ s) p = s"
  by (simp add: TrimPrefix_def)

section \<open>Lemmas on numbers\<close>

lemma is_digit_char [simp]: "n < 10 \<Longrightarrow> is_digit (digit_char n)"
  unfolding is_digit_def digit_char_def by (rule nth_mem) simp

lemma digit_val_char [simp]:
  assumes "n < 10" shows "digit_val (digit_char n) = n"
proof -
  from assms have "n \<in> {0, 1, 2, 3, 4, 5, 6, 7, 8, 9}" by auto
  then show ?thesis by (auto simp: digit_val_def digit_char_def)
qed

lemma digits_val_append:
  "digits_val n (s @ t) = Option.bind (digits_val n s) (\<lambda>m. digits_val m t)"
  by (induction s arbitrary: n) auto

lemma digits_val_show: "digits_val 0 (show_nat n) = Some n"
proof (induction n rule: show_nat.induct)
  case (1 n)
  then show ?case
    by (cases "n < 10") (simp_all add: show_nat.simps [of n] digits_val_append)
qed

lemma show_nat_digits: "\<forall>c \<in> set (show_nat n). is_digit c"
proof (induction n rule: show_nat.induct)
  case (1 n)
  then show ?case by (cases "n < 10") (auto simp: show_nat.simps [of n])
qed

lemma show_nat_not_Nil [simp]: "show_nat n \<noteq> []"
  by (simp add: show_nat.simps [of n])

lemma ParseInt32_show:
  "ParseInt32 (show_int i) = (if - (2 ^ 31) \<le> i \<and> i < 2 ^ 31 then Some i else None)"
proof (cases "i < 0")
  case True
  then show ?thesis
    by (auto simp: ParseInt32_def show_int_def Let_def digits_val_show)
next
  case False
  have "hd (show_nat (nat i)) \<in> set (show_nat (nat i))" by simp
  with show_nat_digits have "is_digit (hd (show_nat (nat i)))" by blast
  then have "hd (show_nat (nat i)) \<noteq> CHR ''-''" "hd (show_nat (nat i)) \<noteq> CHR ''+''"
    by (auto simp: is_digit_def)
  with False show ?thesis
    by (auto simp: ParseInt32_def show_int_def Let_def digits_val_show)
qed

lemma ParseInt32_range: "ParseInt32 s = Some i \<Longrightarrow> - (2 ^ 31) \<le> i \<and> i < 2 ^ 31"
  by (auto simp: ParseInt32_def Let_def split: if_splits option.splits)

end
