(* ===== verification/API_Types.thy ===== *)
theory API_Types
  imports Prelude
begin

text \<open>
  The data model. First the types of this repository's own API group
  (\<^verbatim>\<open>api/apps/v1alpha1/persistentpodstate_types.go\<close>), field by field, with the copy functions
  of \<^verbatim>\<open>zz_generated.deepcopy.go\<close>; then, of the Kubernetes, KubeVirt and Calico types the
  program handles, the fields its code reads or writes. Each of those carries an opaque field
  (suffix \<open>_rest\<close>) for everything the program never looks at, so that a theorem can say that
  it is left alone.
\<close>

type_synonym opaque = string

section \<open>Metadata common to every object\<close>

record owner_reference =
  or_APIVersion :: string
  or_Kind :: string
  or_Name :: string
  or_UID :: string
  or_Controller :: "bool option"

record object_meta =
  om_Name :: string
  om_Namespace :: string
  om_UID :: string
  om_ResourceVersion :: string
  om_Labels :: "string gomap"
  om_Annotations :: "string gomap"
  om_OwnerReferences :: "owner_reference list"
  om_rest :: opaque

definition zero_meta :: object_meta where
  "zero_meta = \<lparr>om_Name = [], om_Namespace = [], om_UID = [], om_ResourceVersion = [],
     om_Labels = None, om_Annotations = None, om_OwnerReferences = [], om_rest = []\<rparr>"

section \<open>The PersistentPodState resource\<close>

definition AnnotationAutoGeneratePersistentPodState :: string where
  "AnnotationAutoGeneratePersistentPodState = ''clay.io/auto-generate-persistent-pod-state''"

definition AnnotationRequiredPersistentTopology :: string where
  "AnnotationRequiredPersistentTopology = ''clay.io/required-persistent-topology''"

record TargetReference =
  tr_APIVersion :: string
  tr_Kind :: string
  tr_Name :: string

record PersistentPodAnnotation =
  ppa_Key :: string

record NodeTopologyTerm =
  NodeTopologyKeys :: "string goslice"

record PersistentPodStateSpec =
  spec_TargetReference :: TargetReference
  PersistentPodAnnotations :: "PersistentPodAnnotation goslice"
  RequiredPersistentTopology :: "NodeTopologyTerm option"

record PodState =
  ps_NodeName :: string
  ps_NodeTopologyLabels :: "string gomap"
  ps_Annotations :: "string gomap"
  ps_PodIP :: string

record PersistentPodStateStatus =
  ObservedGeneration :: "64 word"
  PodStates :: "PodState gomap"

record PersistentPodState =
  pps_Meta :: object_meta
  pps_Spec :: PersistentPodStateSpec
  pps_Status :: PersistentPodStateStatus

definition zero_PodState :: PodState where
  "zero_PodState = \<lparr>ps_NodeName = [], ps_NodeTopologyLabels = None, ps_Annotations = None,
     ps_PodIP = []\<rparr>"

definition zero_Status :: PersistentPodStateStatus where
  "zero_Status = \<lparr>ObservedGeneration = 0, PodStates = None\<rparr>"

section \<open>Deep copies\<close>

text \<open>
  The generated copy functions, as functions of the value: each allocates a fresh slice or map of
  the same length when the source is not nil and copies the elements one by one. A copied map is
  rebuilt from its entries, a copied slice element by element.
\<close>

definition copy_gomap :: "('v \<Rightarrow> 'v) \<Rightarrow> 'v gomap \<Rightarrow> 'v gomap" where
  "copy_gomap cp m = map_option (fmmap cp) m"

definition NodeTopologyTerm_DeepCopy :: "NodeTopologyTerm \<Rightarrow> NodeTopologyTerm" where
  "NodeTopologyTerm_DeepCopy t =
     t\<lparr>NodeTopologyKeys := map_option (map (\<lambda>k. k)) (NodeTopologyKeys t)\<rparr>"

definition PersistentPodStateSpec_DeepCopy :: "PersistentPodStateSpec \<Rightarrow> PersistentPodStateSpec" where
  "PersistentPodStateSpec_DeepCopy s =
     s\<lparr>spec_TargetReference := spec_TargetReference s,
       PersistentPodAnnotations := map_option (map (\<lambda>a. a)) (PersistentPodAnnotations s),
       RequiredPersistentTopology :=
         map_option NodeTopologyTerm_DeepCopy (RequiredPersistentTopology s)\<rparr>"

definition PodState_DeepCopy :: "PodState \<Rightarrow> PodState" where
  "PodState_DeepCopy p =
     p\<lparr>ps_NodeTopologyLabels := copy_gomap (\<lambda>v. v) (ps_NodeTopologyLabels p),
       ps_Annotations := copy_gomap (\<lambda>v. v) (ps_Annotations p)\<rparr>"

definition PersistentPodStateStatus_DeepCopy ::
  "PersistentPodStateStatus \<Rightarrow> PersistentPodStateStatus" where
  "PersistentPodStateStatus_DeepCopy s =
     s\<lparr>PodStates := copy_gomap PodState_DeepCopy (PodStates s)\<rparr>"

section \<open>Objects of other API groups\<close>

record NodeSelectorRequirement =
  nsr_Key :: string
  nsr_Operator :: string
  nsr_Values :: "string list"

record NodeSelectorTerm =
  MatchExpressions :: "NodeSelectorRequirement list"
  nst_rest :: opaque

record NodeSelector =
  NodeSelectorTerms :: "NodeSelectorTerm list"

record NodeAffinity =
  RequiredDuringScheduling :: "NodeSelector option"
  na_rest :: opaque

record Affinity =
  aff_NodeAffinity :: "NodeAffinity option"
  aff_rest :: opaque

definition zero_NodeAffinity :: NodeAffinity where
  "zero_NodeAffinity = \<lparr>RequiredDuringScheduling = None, na_rest = []\<rparr>"

definition zero_Affinity :: Affinity where
  "zero_Affinity = \<lparr>aff_NodeAffinity = None, aff_rest = []\<rparr>"

record Pod =
  pod_Meta :: object_meta
  pod_Affinity :: "Affinity option"
  pod_NodeName :: string
  pod_PodIP :: string
  pod_rest :: opaque

record VirtualMachineInstance =
  vmi_Meta :: object_meta
  vmi_Affinity :: "Affinity option"
  vmi_NodeName :: string
  vmi_Interfaces :: "string list"  \<comment> \<open>the \<^verbatim>\<open>IP\<close> of each of \<^verbatim>\<open>Status.Interfaces\<close>\<close>
  vmi_rest :: opaque

record StatefulSet =
  sts_Meta :: object_meta
  sts_Selector :: "string gomap option"  \<comment> \<open>\<^verbatim>\<open>Spec.Selector\<close>, a pointer, by its \<^verbatim>\<open>MatchLabels\<close>\<close>
  sts_rest :: opaque

record IPReservation =
  ipr_Meta :: object_meta
  ReservedCIDRs :: "string list"

section \<open>Lemmas\<close>

lemma copy_gomap_ident: "(\<And>x. cp x = x) \<Longrightarrow> copy_gomap cp m = m"
  by (cases m) (simp_all add: copy_gomap_def fmap.map_ident_strong)

lemma copy_gomap_id [simp]: "copy_gomap (\<lambda>v. v) m = m"
  by (simp add: copy_gomap_ident)

lemma NodeTopologyTerm_DeepCopy_id [simp]: "NodeTopologyTerm_DeepCopy t = t"
  by (cases "NodeTopologyKeys t") (simp_all add: NodeTopologyTerm_DeepCopy_def)

lemma PersistentPodStateSpec_DeepCopy_id [simp]: "PersistentPodStateSpec_DeepCopy s = s"
proof -
  have "map_option NodeTopologyTerm_DeepCopy t = t" for t
    by (cases t) simp_all
  moreover have "map_option (map (\<lambda>a. a)) x = x" for x :: "PersistentPodAnnotation goslice"
    by (cases x) simp_all
  ultimately show ?thesis
    by (simp add: PersistentPodStateSpec_DeepCopy_def)
qed

lemma PodState_DeepCopy_id [simp]: "PodState_DeepCopy p = p"
  by (simp add: PodState_DeepCopy_def)

lemma PersistentPodStateStatus_DeepCopy_id [simp]: "PersistentPodStateStatus_DeepCopy s = s"
  by (simp add: PersistentPodStateStatus_DeepCopy_def copy_gomap_ident)

end
