(* ===== verification/Cluster_Client.thy ===== *)
theory Cluster_Client
  imports API_Types
begin

text \<open>
  The API server as the program sees it. The controller-runtime client and client-go's
  \<^verbatim>\<open>retry.RetryOnConflict\<close> are not part of this repository: they are a record of operations
  over an arbitrary state \<open>'w\<close> of the cluster, a parameter of every definition that calls them.
  Each operation may change the state in any way and may fail, so other clients' writes between
  two calls are covered. What a theorem relies on beyond that is stated by the predicate
  \<open>healthy\<close>: the documented behaviour of a server that answers every call, in terms of
  a view of the objects it stores.
\<close>

section \<open>Errors and results\<close>

datatype api_error =
    NotFound string
  | AlreadyExists string
  | Conflict string
  | ServerError string

fun IsNotFound :: "api_error \<Rightarrow> bool" where
  "IsNotFound (NotFound _) = True"
| "IsNotFound _ = False"

fun IsAlreadyExists :: "api_error \<Rightarrow> bool" where
  "IsAlreadyExists (AlreadyExists _) = True"
| "IsAlreadyExists _ = False"

fun IsConflict :: "api_error \<Rightarrow> bool" where
  "IsConflict (Conflict _) = True"
| "IsConflict _ = False"

text \<open>A Go \<^verbatim>\<open>error\<close> is an option, nil being \<^const>\<open>None\<close>; a run may also panic.\<close>

type_synonym go_error = "api_error option"

datatype outcome = Returned go_error | Panicked

section \<open>The client\<close>

record 'w client =
  GetVMI :: "string \<Rightarrow> string \<Rightarrow> 'w \<Rightarrow> (api_error + VirtualMachineInstance) \<times> 'w"
  GetSTS :: "string \<Rightarrow> string \<Rightarrow> 'w \<Rightarrow> (api_error + StatefulSet) \<times> 'w"
  GetPPS :: "string \<Rightarrow> string \<Rightarrow> 'w \<Rightarrow> (api_error + PersistentPodState) \<times> 'w"
  GetIPR :: "string \<Rightarrow> 'w \<Rightarrow> (api_error + IPReservation) \<times> 'w"
  ListPods :: "string \<Rightarrow> string gomap \<Rightarrow> 'w \<Rightarrow> (api_error + Pod list) \<times> 'w"
  CreateIPR :: "IPReservation \<Rightarrow> 'w \<Rightarrow> go_error \<times> 'w"
  UpdateIPR :: "IPReservation \<Rightarrow> 'w \<Rightarrow> go_error \<times> 'w"
  CreatePPS :: "PersistentPodState \<Rightarrow> 'w \<Rightarrow> go_error \<times> 'w"
  StatusUpdatePPS :: "PersistentPodState \<Rightarrow> 'w \<Rightarrow> go_error \<times> 'w"
  RetryOnConflict :: "('w \<Rightarrow> go_error \<times> 'w) \<Rightarrow> 'w \<Rightarrow> go_error \<times> 'w"

text \<open>
  \<^verbatim>\<open>RetryOnConflict\<close> calls the function, and again as long as it returns a conflict and
  attempts are left; it returns the last attempt's error.
\<close>

inductive attempts :: "('w \<Rightarrow> go_error \<times> 'w) \<Rightarrow> 'w \<Rightarrow> go_error \<times> 'w \<Rightarrow> bool"
  for f :: "'w \<Rightarrow> go_error \<times> 'w" where
  last_attempt: "attempts f w (f w)"
| after_conflict: "f w = (Some e, w1) \<Longrightarrow> IsConflict e \<Longrightarrow> attempts f w1 r \<Longrightarrow> attempts f w r"

inductive_cases attemptsE: "attempts f w r"

section \<open>A server that answers every call\<close>

record 'w view =
  v_VMI :: "'w \<Rightarrow> string \<times> string \<Rightarrow> VirtualMachineInstance option"
  v_STS :: "'w \<Rightarrow> string \<times> string \<Rightarrow> StatefulSet option"
  v_Pods :: "'w \<Rightarrow> string \<Rightarrow> string gomap \<Rightarrow> Pod list"
  v_PPS :: "'w \<Rightarrow> string \<times> string \<Rightarrow> PersistentPodState option"
  v_IPR :: "'w \<Rightarrow> string \<Rightarrow> IPReservation option"

definition found :: "string \<Rightarrow> 'o option \<Rightarrow> 'w \<Rightarrow> (api_error + 'o) \<times> 'w" where
  "found n x w = (case x of None \<Rightarrow> (Inl (NotFound n), w) | Some a \<Rightarrow> (Inr a, w))"

definition reads_ok :: "'w client \<Rightarrow> 'w view \<Rightarrow> bool" where
  "reads_ok c v \<longleftrightarrow>
     (\<forall>ns n w. GetVMI c ns n w = found n (v_VMI v w (ns, n)) w) \<and>
     (\<forall>ns n w. GetSTS c ns n w = found n (v_STS v w (ns, n)) w) \<and>
     (\<forall>ns n w. GetPPS c ns n w = found n (v_PPS v w (ns, n)) w) \<and>
     (\<forall>n w. GetIPR c n w = found n (v_IPR v w n) w) \<and>
     (\<forall>ns l w. ListPods c ns l w = (Inr (v_Pods v w ns l), w))"

text \<open>What a write leaves alone: the workloads, and one of the two kinds the program writes.\<close>

definition workloads_same :: "'w view \<Rightarrow> 'w \<Rightarrow> 'w \<Rightarrow> bool" where
  "workloads_same v w w' \<longleftrightarrow>
     v_VMI v w' = v_VMI v w \<and> v_STS v w' = v_STS v w \<and> v_Pods v w' = v_Pods v w"

text \<open>A stored object is what was sent, up to the metadata the server fills in.\<close>

definition stored_as :: "object_meta \<Rightarrow> object_meta \<Rightarrow> bool" where
  "stored_as m m' \<longleftrightarrow> om_Name m' = om_Name m \<and> om_Namespace m' = om_Namespace m \<and>
     om_OwnerReferences m' = om_OwnerReferences m \<and> om_Labels m' = om_Labels m \<and>
     om_Annotations m' = om_Annotations m"

definition ipr_writes_ok :: "'w client \<Rightarrow> 'w view \<Rightarrow> bool" where
  "ipr_writes_ok c v \<longleftrightarrow>
     (\<forall>r w. v_IPR v w (om_Name (ipr_Meta r)) = None \<longrightarrow>
        (\<exists>r' w'. CreateIPR c r w = (None, w') \<and> stored_as (ipr_Meta r) (ipr_Meta r') \<and>
           ReservedCIDRs r' = ReservedCIDRs r \<and> workloads_same v w w' \<and> v_PPS v w' = v_PPS v w \<and>
           v_IPR v w' = (v_IPR v w)(om_Name (ipr_Meta r) \<mapsto> r'))) \<and>
     (\<forall>r old w. v_IPR v w (om_Name (ipr_Meta r)) = Some old \<longrightarrow>
        om_ResourceVersion (ipr_Meta r) = om_ResourceVersion (ipr_Meta old) \<longrightarrow>
        (\<exists>r' w'. UpdateIPR c r w = (None, w') \<and> stored_as (ipr_Meta r) (ipr_Meta r') \<and>
           ReservedCIDRs r' = ReservedCIDRs r \<and> workloads_same v w w' \<and> v_PPS v w' = v_PPS v w \<and>
           v_IPR v w' = (v_IPR v w)(om_Name (ipr_Meta r) \<mapsto> r')))"

text \<open>
  The CRD of PersistentPodState declares the status subresource (marker
  \<^verbatim>\<open>+kubebuilder:subresource:status\<close>): a create drops the status that was sent, and an update
  through \<^verbatim>\<open>Status()\<close> changes nothing but the status.
\<close>

definition pps_key :: "PersistentPodState \<Rightarrow> string \<times> string" where
  "pps_key p = (om_Namespace (pps_Meta p), om_Name (pps_Meta p))"

definition pps_writes_ok :: "'w client \<Rightarrow> 'w view \<Rightarrow> bool" where
  "pps_writes_ok c v \<longleftrightarrow>
     (\<forall>p w. v_PPS v w (pps_key p) = None \<longrightarrow>
        (\<exists>p' w'. CreatePPS c p w = (None, w') \<and> stored_as (pps_Meta p) (pps_Meta p') \<and>
           pps_Spec p' = pps_Spec p \<and> pps_Status p' = zero_Status \<and>
           workloads_same v w w' \<and> v_IPR v w' = v_IPR v w \<and>
           v_PPS v w' = (v_PPS v w)(pps_key p \<mapsto> p'))) \<and>
     (\<forall>p old w. v_PPS v w (pps_key p) = Some old \<longrightarrow>
        om_ResourceVersion (pps_Meta p) = om_ResourceVersion (pps_Meta old) \<longrightarrow>
        (\<exists>p' w'. StatusUpdatePPS c p w = (None, w') \<and> stored_as (pps_Meta old) (pps_Meta p') \<and>
           pps_Spec p' = pps_Spec old \<and> pps_Status p' = pps_Status p \<and>
           workloads_same v w w' \<and> v_IPR v w' = v_IPR v w \<and>
           v_PPS v w' = (v_PPS v w)(pps_key p \<mapsto> p')))"

definition keys_ok :: "'w view \<Rightarrow> bool" where
  "keys_ok v \<longleftrightarrow>
     (\<forall>w k p. v_PPS v w k = Some p \<longrightarrow> pps_key p = k) \<and>
     (\<forall>w n r. v_IPR v w n = Some r \<longrightarrow> om_Name (ipr_Meta r) = n)"

text \<open>A list in a namespace returns objects of that namespace, whose names are unique there.\<close>

definition pods_ok :: "'w view \<Rightarrow> bool" where
  "pods_ok v \<longleftrightarrow>
     (\<forall>w ns l. distinct (map (\<lambda>p. om_Name (pod_Meta p)) (v_Pods v w ns l)) \<and>
        (\<forall>p \<in> set (v_Pods v w ns l). om_Namespace (pod_Meta p) = ns))"

definition retry_ok :: "'w client \<Rightarrow> bool" where
  "retry_ok c \<longleftrightarrow> (\<forall>f w. attempts f w (RetryOnConflict c f w))"

definition healthy :: "'w client \<Rightarrow> 'w view \<Rightarrow> bool" where
  "healthy c v \<longleftrightarrow>
     reads_ok c v \<and> ipr_writes_ok c v \<and> pps_writes_ok c v \<and> keys_ok v \<and> pods_ok v \<and> retry_ok c"

section \<open>Lemmas\<close>

lemma attempts_no_conflict:
  assumes "attempts f w r" and "f w = (e, w')" and "\<And>x. e = Some x \<Longrightarrow> \<not> IsConflict x"
  shows "r = (e, w')"
  using assms by (auto elim: attemptsE)

lemma found_simps [simp]:
  "found n None w = (Inl (NotFound n), w)" "found n (Some x) w = (Inr x, w)"
  by (simp_all add: found_def)

lemma healthy_reads [simp]:
  assumes "healthy c v"
  shows "GetVMI c ns n w = found n (v_VMI v w (ns, n)) w"
    and "GetSTS c ns n w = found n (v_STS v w (ns, n)) w"
    and "GetPPS c ns n w = found n (v_PPS v w (ns, n)) w"
    and "GetIPR c n w = found n (v_IPR v w n) w"
    and "ListPods c ns l w = (Inr (v_Pods v w ns l), w)"
  using assms by (simp_all add: healthy_def reads_ok_def)

lemma healthy_createIPR:
  assumes "healthy c v" and "v_IPR v w (om_Name (ipr_Meta r)) = None"
  obtains r' w' where "CreateIPR c r w = (None, w')" "stored_as (ipr_Meta r) (ipr_Meta r')"
    "ReservedCIDRs r' = ReservedCIDRs r" "workloads_same v w w'" "v_PPS v w' = v_PPS v w"
    "v_IPR v w' = (v_IPR v w)(om_Name (ipr_Meta r) \<mapsto> r')"
  using assms unfolding healthy_def ipr_writes_ok_def by blast

lemma healthy_updateIPR:
  assumes "healthy c v" and "v_IPR v w (om_Name (ipr_Meta r)) = Some old"
    and "om_ResourceVersion (ipr_Meta r) = om_ResourceVersion (ipr_Meta old)"
  obtains r' w' where "UpdateIPR c r w = (None, w')" "stored_as (ipr_Meta r) (ipr_Meta r')"
    "ReservedCIDRs r' = ReservedCIDRs r" "workloads_same v w w'" "v_PPS v w' = v_PPS v w"
    "v_IPR v w' = (v_IPR v w)(om_Name (ipr_Meta r) \<mapsto> r')"
  using assms unfolding healthy_def ipr_writes_ok_def by blast

lemma healthy_createPPS:
  assumes "healthy c v" and "v_PPS v w (pps_key p) = None"
  obtains p' w' where "CreatePPS c p w = (None, w')" "stored_as (pps_Meta p) (pps_Meta p')"
    "pps_Spec p' = pps_Spec p" "pps_Status p' = zero_Status" "workloads_same v w w'"
    "v_IPR v w' = v_IPR v w" "v_PPS v w' = (v_PPS v w)(pps_key p \<mapsto> p')"
  using assms unfolding healthy_def pps_writes_ok_def by blast

lemma healthy_statusUpdatePPS:
  assumes "healthy c v" and "v_PPS v w (pps_key p) = Some old"
    and "om_ResourceVersion (pps_Meta p) = om_ResourceVersion (pps_Meta old)"
  obtains p' w' where "StatusUpdatePPS c p w = (None, w')" "stored_as (pps_Meta old) (pps_Meta p')"
    "pps_Spec p' = pps_Spec old" "pps_Status p' = pps_Status p" "workloads_same v w w'"
    "v_IPR v w' = v_IPR v w" "v_PPS v w' = (v_PPS v w)(pps_key p \<mapsto> p')"
  using assms unfolding healthy_def pps_writes_ok_def by blast

lemma healthy_keys:
  assumes "healthy c v"
  shows "v_PPS v w k = Some p \<Longrightarrow> pps_key p = k"
    and "v_IPR v w n = Some r \<Longrightarrow> om_Name (ipr_Meta r) = n"
  using assms unfolding healthy_def keys_ok_def by blast+

lemma healthy_pods:
  assumes "healthy c v"
  shows "distinct (map (\<lambda>p. om_Name (pod_Meta p)) (v_Pods v w ns l))"
    and "p \<in> set (v_Pods v w ns l) \<Longrightarrow> om_Namespace (pod_Meta p) = ns"
  using assms unfolding healthy_def pods_ok_def by blast+

lemma healthy_retry:
  assumes "healthy c v" and "f w = (e, w')" and "\<And>x. e = Some x \<Longrightarrow> \<not> IsConflict x"
  shows "RetryOnConflict c f w = (e, w')"
  using assms attempts_no_conflict unfolding healthy_def retry_ok_def by metis

lemma workloads_same_refl [simp]: "workloads_same v w w"
  by (simp add: workloads_same_def)

lemma workloads_same_trans [trans]:
  "workloads_same v w w1 \<Longrightarrow> workloads_same v w1 w2 \<Longrightarrow> workloads_same v w w2"
  by (simp add: workloads_same_def)

end
