(* ===== verification/Features.thy ===== *)
theory Features
  imports Prelude
begin

text \<open>
  \<^verbatim>\<open>pkg/features/features.go\<close>: the two switches that decide which kinds of workloads are
  persisted (\<^verbatim>\<open>GlobalConfig\<close>, set once from the command line flags) and the feature gates the
  package registers. The registry of \<^verbatim>\<open>k8s.io/component-base/featuregate\<close>, which
  \<^verbatim>\<open>pkg/util/feature/feature_gate.go\<close> makes one of, is a parameter with the laws \<open>gate_ok\<close>.
\<close>

record PersistenceConfig =
  EnableVMIPersistence :: bool
  EnableStatefulSetPersistence :: bool

definition GlobalConfig :: PersistenceConfig where
  "GlobalConfig = \<lparr>EnableVMIPersistence = True, EnableStatefulSetPersistence = True\<rparr>"

definition SetPersistenceConfig :: "bool \<Rightarrow> bool \<Rightarrow> PersistenceConfig \<Rightarrow> PersistenceConfig" where
  "SetPersistenceConfig enableVMI enableStatefulSet g =
     g\<lparr>EnableVMIPersistence := enableVMI, EnableStatefulSetPersistence := enableStatefulSet\<rparr>"

definition PodMutatingWebhook :: string where
  "PodMutatingWebhook = ''PodMutatingWebhook''"

definition DisablePVCReservation :: string where
  "DisablePVCReservation = ''DisablePVCReservation''"

datatype pre_release = Alpha | Beta | GA

record feature_spec =
  spec_Default :: bool
  spec_PreRelease :: pre_release

definition defaultFeatureGates :: "(string \<times> feature_spec) list" where
  "defaultFeatureGates = [(PodMutatingWebhook, \<lparr>spec_Default = True, spec_PreRelease = Beta\<rparr>)]"

definition defaultDeschedulerFeatureGates :: "(string \<times> feature_spec) list" where
  "defaultDeschedulerFeatureGates = [(DisablePVCReservation, \<lparr>spec_Default = False, spec_PreRelease = Beta\<rparr>)]"

text \<open>\<^verbatim>\<open>Enabled\<close> panics on a name that was not added.\<close>

record 'g feature_gate =
  NewFeatureGate :: 'g
  fg_Add :: "(string \<times> feature_spec) list \<Rightarrow> 'g \<Rightarrow> string option \<times> 'g"
  fg_Enabled :: "'g \<Rightarrow> string \<Rightarrow> (string, bool) result"

text \<open>The two variables of \<^verbatim>\<open>pkg/util/feature\<close> are one gate.\<close>

definition DefaultMutableFeatureGate :: "'g feature_gate \<Rightarrow> 'g" where
  "DefaultMutableFeatureGate F = NewFeatureGate F"

definition DefaultFeatureGate :: "'g feature_gate \<Rightarrow> 'g" where
  "DefaultFeatureGate F = DefaultMutableFeatureGate F"

text \<open>\<^verbatim>\<open>runtime.Must\<close> panics on an error.\<close>

definition must_add :: "'g feature_gate \<Rightarrow> (string \<times> feature_spec) list \<Rightarrow> 'g \<Rightarrow> (string, 'g) result" where
  "must_add F specs g = (case fg_Add F specs g of (None, g1) \<Rightarrow> Ok g1 | (Some err, g1) \<Rightarrow> Panic)"

definition features_init :: "'g feature_gate \<Rightarrow> 'g \<Rightarrow> (string, 'g) result" where
  "features_init F g =
     (case must_add F defaultFeatureGates g of
        Ok g1 \<Rightarrow> must_add F defaultDeschedulerFeatureGates g1
      | Fail e \<Rightarrow> Fail e | Panic \<Rightarrow> Panic | Exit \<Rightarrow> Exit)"

definition SetDefaultFeatureGates :: "'g \<Rightarrow> 'g" where
  "SetDefaultFeatureGates g = g"

text \<open>
  Adding names that a gate does not know succeeds, gives each its default and leaves the others. \<open>knows\<close> is what
  the gate has been told.
\<close>

definition gate_ok :: "'g feature_gate \<Rightarrow> ('g \<Rightarrow> string \<Rightarrow> bool option) \<Rightarrow> bool" where
  "gate_ok F knows \<longleftrightarrow>
     knows (NewFeatureGate F) = (\<lambda>n. None) \<and>
     (\<forall>g n. fg_Enabled F g n = (case knows g n of None \<Rightarrow> Panic | Some b \<Rightarrow> Ok b)) \<and>
     (\<forall>g specs. distinct (map fst specs) \<and> (\<forall>n \<in> fst ` set specs. knows g n = None) \<longrightarrow>
        (\<exists>g1. fg_Add F specs g = (None, g1) \<and> knows g1 = knows g ++ (map_option spec_Default \<circ> map_of specs)))"

lemma gate_added:
  assumes "gate_ok F knows" and "distinct (map fst specs)" and "\<forall>n \<in> fst ` set specs. knows g n = None"
  shows "\<exists>g1. must_add F specs g = Ok g1 \<and> knows g1 = knows g ++ (map_option spec_Default \<circ> map_of specs)"
  using assms unfolding gate_ok_def by (fastforce simp: must_add_def)

text \<open>The registration does not panic, the webhook is on and the other gate off, and nothing else is known.\<close>

lemma features_registered:
  assumes ok: "gate_ok F knows"
  shows "\<exists>g. features_init F (DefaultMutableFeatureGate F) = Ok g \<and>
     knows g = [PodMutatingWebhook \<mapsto> True, DisablePVCReservation \<mapsto> False]"
proof -
  let ?g = "DefaultMutableFeatureGate F"
  have new: "knows ?g = (\<lambda>n. None)" using ok by (simp add: gate_ok_def DefaultMutableFeatureGate_def)
  obtain g1 where g1: "must_add F defaultFeatureGates ?g = Ok g1"
    "knows g1 = knows ?g ++ (map_option spec_Default \<circ> map_of defaultFeatureGates)"
    using gate_added [OF ok, of defaultFeatureGates ?g] new by (auto simp: defaultFeatureGates_def)
  then have k1: "knows g1 = [PodMutatingWebhook \<mapsto> True]"
    unfolding g1(2) new by (auto simp: defaultFeatureGates_def fun_eq_iff map_add_def)
  obtain g2 where g2: "must_add F defaultDeschedulerFeatureGates g1 = Ok g2"
    "knows g2 = knows g1 ++ (map_option spec_Default \<circ> map_of defaultDeschedulerFeatureGates)"
    using gate_added [OF ok, of defaultDeschedulerFeatureGates g1] k1
    by (auto simp: defaultDeschedulerFeatureGates_def DisablePVCReservation_def PodMutatingWebhook_def)
  have "knows g2 = [PodMutatingWebhook \<mapsto> True, DisablePVCReservation \<mapsto> False]"
    unfolding g2(2) k1
    by (auto simp: defaultDeschedulerFeatureGates_def fun_eq_iff map_add_def DisablePVCReservation_def PodMutatingWebhook_def)
  with g1(1) g2(1) show ?thesis by (simp add: features_init_def)
qed

lemma SetPersistenceConfig_sel [simp]:
  "EnableVMIPersistence (SetPersistenceConfig a b g) = a"
  "EnableStatefulSetPersistence (SetPersistenceConfig a b g) = b"
  by (simp_all add: SetPersistenceConfig_def)

end
