(* ===== verification/Event_Handlers.thy ===== *)
theory Event_Handlers
  imports API_Types
begin

text \<open>
  \<^verbatim>\<open>internal/controller/apps/persistentpodstate_event_handler.go\<close> and
  \<^verbatim>\<open>persistentpodstate_statefulset_handler.go\<close>: the watch handlers that turn events on
  VirtualMachineInstances and StatefulSets into reconcile requests. The work queue is client-go's:
  its \<^verbatim>\<open>Add\<close> is the parameter \<open>add\<close>, over an arbitrary queue state \<open>'q\<close>. KubeVirt's
  \<^verbatim>\<open>vmi.IsRunning()\<close> is the parameter \<open>isRunning\<close>.

  The Go interface both types implement, \<^verbatim>\<open>handler.TypedEventHandler\<close>, is the locale
  \<open>workload_events\<close>; what it shows about a whole sequence of events is proved once there and
  holds of both handlers by the interpretations at the end.
\<close>

section \<open>Requests\<close>

record request =
  req_Namespace :: string
  req_Name :: string

definition KindVmi :: string where
  "KindVmi = ''VirtualMachineInstance''"

definition KindStatefulSet :: string where
  "KindStatefulSet = ''StatefulSet''"

definition AutoGeneratePersistentPodStatePrefix :: string where
  "AutoGeneratePersistentPodStatePrefix = ''generate''"

section \<open>VirtualMachineInstance events\<close>

definition vmi_qName :: "VirtualMachineInstance \<Rightarrow> string" where
  "vmi_qName vmi =
     AutoGeneratePersistentPodStatePrefix @ ''#'' @ KindVmi @ ''#'' @ om_Name (vmi_Meta vmi)"

definition enqueuePersistentPodStateRequest ::
  "(request \<Rightarrow> 'q \<Rightarrow> 'q) \<Rightarrow> VirtualMachineInstance \<Rightarrow> 'q \<Rightarrow> 'q" where
  "enqueuePersistentPodStateRequest add vmi q =
     add \<lparr>req_Namespace = om_Namespace (vmi_Meta vmi), req_Name = vmi_qName vmi\<rparr> q"

definition VMI_Create ::
  "(VirtualMachineInstance \<Rightarrow> bool) \<Rightarrow> (request \<Rightarrow> 'q \<Rightarrow> 'q) \<Rightarrow> VirtualMachineInstance \<Rightarrow> 'q \<Rightarrow> 'q"
where
  "VMI_Create isRunning add vmi q =
     (let a = om_Annotations (vmi_Meta vmi) in
      if go_get [] a AnnotationAutoGeneratePersistentPodState = ''true'' \<and>
         go_get [] a AnnotationRequiredPersistentTopology \<noteq> [] \<and> isRunning vmi
      then enqueuePersistentPodStateRequest add vmi q else q)"

definition VMI_Delete :: "(request \<Rightarrow> 'q \<Rightarrow> 'q) \<Rightarrow> VirtualMachineInstance \<Rightarrow> 'q \<Rightarrow> 'q" where
  "VMI_Delete add vmi q = q"

definition VMI_Generic :: "(request \<Rightarrow> 'q \<Rightarrow> 'q) \<Rightarrow> VirtualMachineInstance \<Rightarrow> 'q \<Rightarrow> 'q" where
  "VMI_Generic add vmi q = q"

definition VMI_Update ::
  "(VirtualMachineInstance \<Rightarrow> bool) \<Rightarrow> (request \<Rightarrow> 'q \<Rightarrow> 'q) \<Rightarrow> VirtualMachineInstance \<Rightarrow>
   VirtualMachineInstance \<Rightarrow> 'q \<Rightarrow> 'q"
where
  "VMI_Update isRunning add old new q =
     (let a = om_Annotations (vmi_Meta new) in
      if go_get [] a AnnotationAutoGeneratePersistentPodState = ''true'' \<and>
         go_get [] a AnnotationRequiredPersistentTopology \<noteq> [] \<and> isRunning new
      then enqueuePersistentPodStateRequest add new q else q)"

section \<open>StatefulSet events\<close>

definition sts_qName :: "StatefulSet \<Rightarrow> string" where
  "sts_qName sts =
     AutoGeneratePersistentPodStatePrefix @ ''#'' @ KindStatefulSet @ ''#'' @ om_Name (sts_Meta sts)"

definition enqueueStatefulSetPersistentPodStateRequest ::
  "(request \<Rightarrow> 'q \<Rightarrow> 'q) \<Rightarrow> StatefulSet \<Rightarrow> 'q \<Rightarrow> 'q" where
  "enqueueStatefulSetPersistentPodStateRequest add sts q =
     add \<lparr>req_Namespace = om_Namespace (sts_Meta sts), req_Name = sts_qName sts\<rparr> q"

definition STS_Create :: "(request \<Rightarrow> 'q \<Rightarrow> 'q) \<Rightarrow> StatefulSet \<Rightarrow> 'q \<Rightarrow> 'q" where
  "STS_Create add sts q =
     (let a = om_Annotations (sts_Meta sts) in
      if go_get [] a AnnotationAutoGeneratePersistentPodState = ''true'' \<and>
         go_get [] a AnnotationRequiredPersistentTopology \<noteq> []
      then enqueueStatefulSetPersistentPodStateRequest add sts q else q)"

definition STS_Delete :: "(request \<Rightarrow> 'q \<Rightarrow> 'q) \<Rightarrow> StatefulSet \<Rightarrow> 'q \<Rightarrow> 'q" where
  "STS_Delete add sts q = q"

definition STS_Generic :: "(request \<Rightarrow> 'q \<Rightarrow> 'q) \<Rightarrow> StatefulSet \<Rightarrow> 'q \<Rightarrow> 'q" where
  "STS_Generic add sts q = q"

definition STS_Update :: "(request \<Rightarrow> 'q \<Rightarrow> 'q) \<Rightarrow> StatefulSet \<Rightarrow> StatefulSet \<Rightarrow> 'q \<Rightarrow> 'q" where
  "STS_Update add old new q =
     (let a = om_Annotations (sts_Meta new) in
      if go_get [] a AnnotationAutoGeneratePersistentPodState = ''true'' \<and>
         go_get [] a AnnotationRequiredPersistentTopology \<noteq> []
      then enqueueStatefulSetPersistentPodStateRequest add new q else q)"

section \<open>The opt-in annotations\<close>

text \<open>The condition both handlers test, as a reference definition on the object's metadata.\<close>

definition opted_in :: "object_meta \<Rightarrow> bool" where
  "opted_in m \<longleftrightarrow>
     go_get [] (om_Annotations m) AnnotationAutoGeneratePersistentPodState = ''true'' \<and>
     go_get [] (om_Annotations m) AnnotationRequiredPersistentTopology \<noteq> []"

section \<open>Event sequences\<close>

datatype 'o event = Created 'o | Updated 'o 'o | Deleted 'o | Synced 'o

fun dispatch ::
  "('a \<Rightarrow> 'o \<Rightarrow> 'q \<Rightarrow> 'q) \<Rightarrow> ('a \<Rightarrow> 'o \<Rightarrow> 'o \<Rightarrow> 'q \<Rightarrow> 'q) \<Rightarrow> ('a \<Rightarrow> 'o \<Rightarrow> 'q \<Rightarrow> 'q) \<Rightarrow>
   ('a \<Rightarrow> 'o \<Rightarrow> 'q \<Rightarrow> 'q) \<Rightarrow> 'a \<Rightarrow> 'o event \<Rightarrow> 'q \<Rightarrow> 'q"
where
  "dispatch cr up de ge add (Created x) q = cr add x q"
| "dispatch cr up de ge add (Updated x y) q = up add x y q"
| "dispatch cr up de ge add (Deleted x) q = de add x q"
| "dispatch cr up de ge add (Synced x) q = ge add x q"

text \<open>The requests a sequence of events asks for, in order.\<close>

fun wanted :: "('o \<Rightarrow> bool) \<Rightarrow> ('o \<Rightarrow> request) \<Rightarrow> 'o event list \<Rightarrow> request list" where
  "wanted P f [] = []"
| "wanted P f (Created x # es) = (if P x then [f x] else []) @ wanted P f es"
| "wanted P f (Updated x y # es) = (if P y then [f y] else []) @ wanted P f es"
| "wanted P f (_ # es) = wanted P f es"

locale workload_events =
  fixes cr :: "(request \<Rightarrow> 'q \<Rightarrow> 'q) \<Rightarrow> 'o \<Rightarrow> 'q \<Rightarrow> 'q"
    and up :: "(request \<Rightarrow> 'q \<Rightarrow> 'q) \<Rightarrow> 'o \<Rightarrow> 'o \<Rightarrow> 'q \<Rightarrow> 'q"
    and de :: "(request \<Rightarrow> 'q \<Rightarrow> 'q) \<Rightarrow> 'o \<Rightarrow> 'q \<Rightarrow> 'q"
    and ge :: "(request \<Rightarrow> 'q \<Rightarrow> 'q) \<Rightarrow> 'o \<Rightarrow> 'q \<Rightarrow> 'q"
    and eligible :: "'o \<Rightarrow> bool"
    and req :: "'o \<Rightarrow> request"
  assumes cr_law: "cr add x q = (if eligible x then add (req x) q else q)"
    and up_law: "up add x y q = (if eligible y then add (req y) q else q)"
    and de_law: "de add x q = q"
    and ge_law: "ge add x q = q"
begin

lemma dispatch_wanted:
  "fold (dispatch cr up de ge add) es q = fold add (wanted eligible req es) q"
proof (induction es arbitrary: q)
  case (Cons e es)
  then show ?case
    by (cases e) (simp_all add: cr_law up_law de_law ge_law)
qed simp

lemma wanted_sound:
  "r \<in> set (wanted eligible req es) \<longleftrightarrow>
     (\<exists>x. eligible x \<and> r = req x \<and> (Created x \<in> set es \<or> (\<exists>y. Updated y x \<in> set es)))"
proof (induction es)
  case (Cons e es)
  then show ?case
    by (cases e) (auto split: if_splits)
qed simp

end

section \<open>Both handlers implement the interface\<close>

definition vmi_request :: "VirtualMachineInstance \<Rightarrow> request" where
  "vmi_request vmi = \<lparr>req_Namespace = om_Namespace (vmi_Meta vmi), req_Name = vmi_qName vmi\<rparr>"

definition sts_request :: "StatefulSet \<Rightarrow> request" where
  "sts_request sts = \<lparr>req_Namespace = om_Namespace (sts_Meta sts), req_Name = sts_qName sts\<rparr>"

interpretation vmi_watch: workload_events
  "VMI_Create isRunning" "VMI_Update isRunning" VMI_Delete VMI_Generic
  "\<lambda>vmi. opted_in (vmi_Meta vmi) \<and> isRunning vmi" vmi_request
  for isRunning
  by unfold_locales
    (auto simp: VMI_Create_def VMI_Update_def VMI_Delete_def VMI_Generic_def opted_in_def
      enqueuePersistentPodStateRequest_def vmi_request_def Let_def)

interpretation sts_watch: workload_events
  STS_Create STS_Update STS_Delete STS_Generic "\<lambda>sts. opted_in (sts_Meta sts)" sts_request
  by unfold_locales
    (auto simp: STS_Create_def STS_Update_def STS_Delete_def STS_Generic_def opted_in_def
      enqueueStatefulSetPersistentPodStateRequest_def sts_request_def Let_def)

text \<open>
  C40. Each watch enqueues, in the order of the events, one request for each creation and each update whose
  new object carries both opt-in annotations, and nothing for any other event. The VirtualMachineInstance
  watch also asks that the object is running; a StatefulSet whose pods are not yet running is enqueued,
  and the reconcile then finds nothing to record.
\<close>

theorem watches_enqueue:
  "fold (dispatch (VMI_Create isRunning) (VMI_Update isRunning) VMI_Delete VMI_Generic (\<lambda>r q. q @ [r])) es [] =
     wanted (\<lambda>vmi. opted_in (vmi_Meta vmi) \<and> isRunning vmi) vmi_request es \<and>
   fold (dispatch STS_Create STS_Update STS_Delete STS_Generic (\<lambda>r q. q @ [r])) es' [] =
     wanted (\<lambda>sts. opted_in (sts_Meta sts)) sts_request es'"
  by (simp add: vmi_watch.dispatch_wanted sts_watch.dispatch_wanted fold_snoc)

section \<open>Request names\<close>

text \<open>
  A workload name never holds the separator (Kubernetes names are DNS subdomains), so the request
  name splits back into its three parts and the two kinds of request are told apart by the test
  that \<^verbatim>\<open>Reconcile\<close> makes.
\<close>

lemma Split_vmi_qName:
  assumes "CHR ''#'' \<notin> set (om_Name (vmi_Meta vmi))"
  shows "Split (CHR ''#'') (vmi_qName vmi) =
     [AutoGeneratePersistentPodStatePrefix, KindVmi, om_Name (vmi_Meta vmi)]"
  using assms
  by (simp add: vmi_qName_def AutoGeneratePersistentPodStatePrefix_def KindVmi_def Split_no_sep)

lemma Split_sts_qName:
  assumes "CHR ''#'' \<notin> set (om_Name (sts_Meta sts))"
  shows "Split (CHR ''#'') (sts_qName sts) =
     [AutoGeneratePersistentPodStatePrefix, KindStatefulSet, om_Name (sts_Meta sts)]"
  using assms
  by (simp add: sts_qName_def AutoGeneratePersistentPodStatePrefix_def KindStatefulSet_def
      Split_no_sep)

lemma Contains_vmi_qName:
  "Contains (vmi_qName vmi) (AutoGeneratePersistentPodStatePrefix @ ''#'' @ KindVmi)"
  unfolding vmi_qName_def Contains_iff by (rule exI [of _ "[]"]) simp

lemma Contains_sts_qName:
  "Contains (sts_qName sts) (AutoGeneratePersistentPodStatePrefix @ ''#'' @ KindStatefulSet)"
  unfolding sts_qName_def Contains_iff by (rule exI [of _ "[]"]) simp

lemma not_Contains_sts_qName:
  assumes "CHR ''#'' \<notin> set (om_Name (sts_Meta sts))"
  shows "\<not> Contains (sts_qName sts) (AutoGeneratePersistentPodStatePrefix @ ''#'' @ KindVmi)"
proof -
  have "\<not> Contains (om_Name (sts_Meta sts)) (AutoGeneratePersistentPodStatePrefix @ ''#'' @ KindVmi)"
    using assms Contains_set by fastforce
  then show ?thesis
    by (simp add: sts_qName_def AutoGeneratePersistentPodStatePrefix_def KindStatefulSet_def
        KindVmi_def)
qed

end
