(* ===== verification/Reconciler.thy ===== *)
theory Reconciler
  imports Cluster_Client Features Event_Handlers
begin

text \<open>
  \<^verbatim>\<open>internal/controller/apps/persistentpodstate_controller.go\<close> and
  \<^verbatim>\<open>persistentpodstate_statefulset.go\<close>: the reconciler that records where the pods of a
  workload run. Every definition takes the client and threads the state of the cluster; logging is
  left out. \<^verbatim>\<open>ctrl.Result{}\<close> is the same zero value on every return and is left out too.

  The code holds each of two algorithms twice, once for VirtualMachineInstances and once for
  StatefulSets: reserving an address, and publishing the recorded state. The locales
  \<open>ip_reserver\<close> and \<open>state_publisher\<close> state what both copies promise, against the reference
  definitions \<open>ensure_reservation\<close> and \<open>publish_ref\<close>.
\<close>

section \<open>VirtualMachineInstances\<close>

definition vmi_ipReservation :: "VirtualMachineInstance \<Rightarrow> string \<Rightarrow> IPReservation" where
  "vmi_ipReservation vmi ip =
     \<lparr>ipr_Meta = zero_meta\<lparr>om_Name :=
        ''vmi-'' @ om_Namespace (vmi_Meta vmi) @ ''-'' @ om_Name (vmi_Meta vmi)\<rparr>,
      ReservedCIDRs = [ip @ ''/32'']\<rparr>"

definition vmi_reserve ::
  "'w client \<Rightarrow> VirtualMachineInstance \<Rightarrow> string \<Rightarrow> 'w \<Rightarrow> go_error \<times> 'w" where
  "vmi_reserve c vmi ip w =
     (if ip \<noteq> [] then
        (let ipReservation = vmi_ipReservation vmi ip in
         case GetIPR c (om_Name (ipr_Meta ipReservation)) w of
           (Inl err, w1) \<Rightarrow>
             if \<not> IsNotFound err then (Some err, w1)
             else (case CreateIPR c ipReservation w1 of
                     (Some err, w2) \<Rightarrow> (Some err, w2)
                   | (None, w2) \<Rightarrow> (None, w2))
         | (Inr existing, w1) \<Rightarrow>
             if ReservedCIDRs existing \<noteq> ReservedCIDRs ipReservation then
               (case UpdateIPR c (existing\<lparr>ReservedCIDRs := ReservedCIDRs ipReservation\<rparr>) w1 of
                  (Some err, w2) \<Rightarrow> (Some err, w2)
                | (None, w2) \<Rightarrow> (None, w2))
             else (None, w1))
      else (None, w))"

definition hostname_label :: string where
  "hostname_label = ''kubernetes.io/hostname''"

definition vmi_persistentPodState ::
  "VirtualMachineInstance \<Rightarrow> owner_reference \<Rightarrow> string \<Rightarrow> PersistentPodState" where
  "vmi_persistentPodState vmi own ip =
     \<lparr>pps_Meta = zero_meta\<lparr>om_Name := om_Name (vmi_Meta vmi),
         om_Namespace := om_Namespace (vmi_Meta vmi),
         om_OwnerReferences :=
           [\<lparr>or_APIVersion = or_APIVersion own, or_Kind = or_Kind own, or_Name = or_Name own,
             or_UID = or_UID own, or_Controller = Some True\<rparr>]\<rparr>,
      pps_Spec = \<lparr>spec_TargetReference = \<lparr>tr_APIVersion = ''kubevirt.io/v1'',
           tr_Kind = ''VirtualMachineInstance'', tr_Name = om_Name (vmi_Meta vmi)\<rparr>,
         PersistentPodAnnotations = None, RequiredPersistentTopology = None\<rparr>,
      pps_Status = \<lparr>ObservedGeneration = 0,
         PodStates = Some (fmupd (om_Name (vmi_Meta vmi))
           \<lparr>ps_NodeName = vmi_NodeName vmi,
            ps_NodeTopologyLabels = Some (fmupd hostname_label (vmi_NodeName vmi) fmempty),
            ps_Annotations = None, ps_PodIP = ip\<rparr> fmempty)\<rparr>\<rparr>"

text \<open>The closure given to \<^verbatim>\<open>RetryOnConflict\<close>.\<close>

definition vmi_updateStatus :: "'w client \<Rightarrow> PersistentPodState \<Rightarrow> 'w \<Rightarrow> go_error \<times> 'w" where
  "vmi_updateStatus c p w =
     (case GetPPS c (om_Namespace (pps_Meta p)) (om_Name (pps_Meta p)) w of
        (Inl err, w1) \<Rightarrow> (Some err, w1)
      | (Inr objClone, w1) \<Rightarrow>
          StatusUpdatePPS c
            (objClone\<lparr>pps_Spec := PersistentPodStateSpec_DeepCopy (pps_Spec p),
               pps_Status := PersistentPodStateStatus_DeepCopy (pps_Status p)\<rparr>) w1)"

definition vmi_publish :: "'w client \<Rightarrow> PersistentPodState \<Rightarrow> 'w \<Rightarrow> go_error \<times> 'w" where
  "vmi_publish c p w =
     (case GetPPS c (om_Namespace (pps_Meta p)) (om_Name (pps_Meta p)) w of
        (Inl err, w1) \<Rightarrow>
          if \<not> IsNotFound err then (Some err, w1)
          else (case CreatePPS c p w1 of
                  (Some err, w2) \<Rightarrow> if IsAlreadyExists err then (None, w2) else (Some err, w2)
                | (None, w2) \<Rightarrow> (None, w2))
      | (Inr existing, w1) \<Rightarrow>
          if pps_Status existing = pps_Status p then (None, w1)
          else (case RetryOnConflict c (vmi_updateStatus c p) w1 of
                  (Some err, w2) \<Rightarrow> (Some err, w2)
                | (None, w2) \<Rightarrow> (None, w2)))"

text \<open>
  \<^verbatim>\<open>OwnerReferences[0]\<close> is read without a test of the length: on a VirtualMachineInstance
  without an owner the index panics, after the address has been reserved.
\<close>

definition VmiAutoGeneratePersistentPodState ::
  "'w client \<Rightarrow> VirtualMachineInstance \<Rightarrow> 'w \<Rightarrow> outcome \<times> 'w" where
  "VmiAutoGeneratePersistentPodState c vmi w =
     (case vmi_Interfaces vmi of
        [] \<Rightarrow> (Returned None, w)
      | ip # _ \<Rightarrow>
          if ip = [] then (Returned None, w)
          else (case vmi_reserve c vmi ip w of
                  (Some err, w1) \<Rightarrow> (Returned (Some err), w1)
                | (None, w1) \<Rightarrow>
                    (case om_OwnerReferences (vmi_Meta vmi) of
                       [] \<Rightarrow> (Panicked, w1)
                     | own # _ \<Rightarrow>
                         (case vmi_publish c (vmi_persistentPodState vmi own ip) w1 of
                            (err, w2) \<Rightarrow> (Returned err, w2)))))"

section \<open>StatefulSets\<close>

definition pod_ipReservation :: "Pod \<Rightarrow> IPReservation" where
  "pod_ipReservation pod =
     \<lparr>ipr_Meta = zero_meta\<lparr>om_Name :=
        ''pod-'' @ om_Namespace (pod_Meta pod) @ ''-'' @ om_Name (pod_Meta pod)\<rparr>,
      ReservedCIDRs = [pod_PodIP pod @ ''/32'']\<rparr>"

definition createOrUpdateIPReservation :: "'w client \<Rightarrow> Pod \<Rightarrow> 'w \<Rightarrow> go_error \<times> 'w" where
  "createOrUpdateIPReservation c pod w =
     (if pod_PodIP pod = [] then (None, w)
      else
        (let ipReservation = pod_ipReservation pod in
         case GetIPR c (om_Name (ipr_Meta ipReservation)) w of
           (Inl err, w1) \<Rightarrow>
             if \<not> IsNotFound err then (Some err, w1)
             else (case CreateIPR c ipReservation w1 of
                     (Some err, w2) \<Rightarrow> (Some err, w2)
                   | (None, w2) \<Rightarrow> (None, w2))
         | (Inr existing, w1) \<Rightarrow>
             if ReservedCIDRs existing \<noteq> ReservedCIDRs ipReservation then
               (case UpdateIPR c (existing\<lparr>ReservedCIDRs := ReservedCIDRs ipReservation\<rparr>) w1 of
                  (Some err, w2) \<Rightarrow> (Some err, w2)
                | (None, w2) \<Rightarrow> (None, w2))
             else (None, w1)))"

definition pod_podState :: "Pod \<Rightarrow> PodState" where
  "pod_podState pod =
     \<lparr>ps_NodeName = pod_NodeName pod,
      ps_NodeTopologyLabels = Some (fmupd hostname_label (pod_NodeName pod) fmempty),
      ps_Annotations = None, ps_PodIP = pod_PodIP pod\<rparr>"

text \<open>
  The loop over the pods. The accumulator is the map \<^verbatim>\<open>Status.PodStates\<close>, made before the
  loop and so never nil; a pod whose reservation fails is logged and skipped.
\<close>

fun sts_podStates ::
  "'w client \<Rightarrow> Pod list \<Rightarrow> (string, PodState) fmap \<Rightarrow> 'w \<Rightarrow> (string, PodState) fmap \<times> 'w" where
  "sts_podStates c [] m w = (m, w)"
| "sts_podStates c (pod # pods) m w =
     (if pod_PodIP pod = [] \<or> pod_NodeName pod = [] then sts_podStates c pods m w
      else (case createOrUpdateIPReservation c pod w of
              (Some err, w1) \<Rightarrow> sts_podStates c pods m w1
            | (None, w1) \<Rightarrow>
                sts_podStates c pods (fmupd (om_Name (pod_Meta pod)) (pod_podState pod) m) w1))"

definition sts_persistentPodState ::
  "StatefulSet \<Rightarrow> (string, PodState) fmap \<Rightarrow> PersistentPodState" where
  "sts_persistentPodState sts m =
     \<lparr>pps_Meta = zero_meta\<lparr>om_Name := om_Name (sts_Meta sts),
         om_Namespace := om_Namespace (sts_Meta sts),
         om_OwnerReferences :=
           [\<lparr>or_APIVersion = ''apps/v1'', or_Kind = ''StatefulSet'',
             or_Name = om_Name (sts_Meta sts), or_UID = om_UID (sts_Meta sts),
             or_Controller = Some True\<rparr>]\<rparr>,
      pps_Spec = \<lparr>spec_TargetReference = \<lparr>tr_APIVersion = ''apps/v1'',
           tr_Kind = ''StatefulSet'', tr_Name = om_Name (sts_Meta sts)\<rparr>,
         PersistentPodAnnotations = None, RequiredPersistentTopology = None\<rparr>,
      pps_Status = \<lparr>ObservedGeneration = 0, PodStates = Some m\<rparr>\<rparr>"

definition sts_updateStatus :: "'w client \<Rightarrow> PersistentPodState \<Rightarrow> 'w \<Rightarrow> go_error \<times> 'w" where
  "sts_updateStatus c p w =
     (case GetPPS c (om_Namespace (pps_Meta p)) (om_Name (pps_Meta p)) w of
        (Inl err, w1) \<Rightarrow> (Some err, w1)
      | (Inr objClone, w1) \<Rightarrow>
          StatusUpdatePPS c
            (objClone\<lparr>pps_Spec := PersistentPodStateSpec_DeepCopy (pps_Spec p),
               pps_Status := PersistentPodStateStatus_DeepCopy (pps_Status p)\<rparr>) w1)"

definition sts_publish :: "'w client \<Rightarrow> PersistentPodState \<Rightarrow> 'w \<Rightarrow> go_error \<times> 'w" where
  "sts_publish c p w =
     (case GetPPS c (om_Namespace (pps_Meta p)) (om_Name (pps_Meta p)) w of
        (Inl err, w1) \<Rightarrow>
          if \<not> IsNotFound err then (Some err, w1)
          else (case CreatePPS c p w1 of
                  (Some err, w2) \<Rightarrow> if IsAlreadyExists err then (None, w2) else (Some err, w2)
                | (None, w2) \<Rightarrow> (None, w2))
      | (Inr existing, w1) \<Rightarrow>
          if pps_Status existing = pps_Status p then (None, w1)
          else if go_len (PodStates (pps_Status p)) < go_len (PodStates (pps_Status existing))
          then (None, w1)
          else (case RetryOnConflict c (sts_updateStatus c p) w1 of
                  (Some err, w2) \<Rightarrow> (Some err, w2)
                | (None, w2) \<Rightarrow> (None, w2)))"

definition StatefulSetAutoGeneratePersistentPodState ::
  "'w client \<Rightarrow> StatefulSet \<Rightarrow> 'w \<Rightarrow> outcome \<times> 'w" where
  "StatefulSetAutoGeneratePersistentPodState c sts w =
     (case sts_Selector sts of
        None \<Rightarrow> (Panicked, w)
      | Some labels \<Rightarrow>
          (case ListPods c (om_Namespace (sts_Meta sts)) labels w of
             (Inl err, w1) \<Rightarrow> (Returned (Some err), w1)
           | (Inr pods, w1) \<Rightarrow>
               if pods = [] then (Returned None, w1)
               else (case sts_podStates c pods fmempty w1 of
                       (m, w2) \<Rightarrow>
                         if go_len (Some m) = 0 then (Returned None, w2)
                         else (case sts_publish c (sts_persistentPodState sts m) w2 of
                                 (err, w3) \<Rightarrow> (Returned err, w3)))))"

section \<open>Reconcile\<close>

definition reconcile_vmi_request :: "PersistenceConfig \<Rightarrow> 'w client \<Rightarrow> request \<Rightarrow> 'w \<Rightarrow> outcome \<times> 'w"
where
  "reconcile_vmi_request cfg c req w =
     (if \<not> EnableVMIPersistence cfg then (Returned None, w)
      else
        (case Split (CHR ''#'') (req_Name req) of
           [_, _, name] \<Rightarrow>
             (case GetVMI c (req_Namespace req) name w of
                (Inl err, w1) \<Rightarrow> (Returned None, w1)
              | (Inr vmi, w1) \<Rightarrow> VmiAutoGeneratePersistentPodState c vmi w1)
         | _ \<Rightarrow> (Returned None, w)))"

definition reconcile_sts_request :: "PersistenceConfig \<Rightarrow> 'w client \<Rightarrow> request \<Rightarrow> 'w \<Rightarrow> outcome \<times> 'w"
where
  "reconcile_sts_request cfg c req w =
     (if \<not> EnableStatefulSetPersistence cfg then (Returned None, w)
      else
        (case Split (CHR ''#'') (req_Name req) of
           [_, _, name] \<Rightarrow>
             (case GetSTS c (req_Namespace req) name w of
                (Inl err, w1) \<Rightarrow> (Returned None, w1)
              | (Inr sts, w1) \<Rightarrow> StatefulSetAutoGeneratePersistentPodState c sts w1)
         | _ \<Rightarrow> (Returned None, w)))"

definition reconcile_by_name_sts ::
  "PersistenceConfig \<Rightarrow> 'w client \<Rightarrow> request \<Rightarrow> 'w \<Rightarrow> outcome \<times> 'w" where
  "reconcile_by_name_sts cfg c req w =
     (if EnableStatefulSetPersistence cfg then
        (case GetSTS c (req_Namespace req) (req_Name req) w of
           (Inr sts, w1) \<Rightarrow> StatefulSetAutoGeneratePersistentPodState c sts w1
         | (Inl err, w1) \<Rightarrow> (Returned None, w1))
      else (Returned None, w))"

definition Reconcile :: "PersistenceConfig \<Rightarrow> 'w client \<Rightarrow> request \<Rightarrow> 'w \<Rightarrow> outcome \<times> 'w" where
  "Reconcile cfg c req w =
     (if Contains (req_Name req) (AutoGeneratePersistentPodStatePrefix @ ''#'' @ KindVmi)
      then reconcile_vmi_request cfg c req w
      else if Contains (req_Name req) (AutoGeneratePersistentPodStatePrefix @ ''#'' @ KindStatefulSet)
      then reconcile_sts_request cfg c req w
      else if EnableVMIPersistence cfg then
        (case GetVMI c (req_Namespace req) (req_Name req) w of
           (Inr vmi, w1) \<Rightarrow> VmiAutoGeneratePersistentPodState c vmi w1
         | (Inl err, w1) \<Rightarrow> reconcile_by_name_sts cfg c req w1)
      else reconcile_by_name_sts cfg c req w)"

text \<open>The kinds \<^verbatim>\<open>SetupWithManager\<close> asks the manager to watch, its own kind first.\<close>

definition SetupWithManager_watches :: "PersistenceConfig \<Rightarrow> string list" where
  "SetupWithManager_watches cfg =
     ''PersistentPodState'' #
     (if EnableVMIPersistence cfg then [KindVmi] else []) @
     (if EnableStatefulSetPersistence cfg then [KindStatefulSet] else [])"


section \<open>Reserving an address\<close>

text \<open>
  The reference algorithm: create the reservation if there is none, rewrite it if it holds other
  CIDRs, otherwise do nothing.
\<close>

definition ensure_reservation :: "'w client \<Rightarrow> IPReservation \<Rightarrow> 'w \<Rightarrow> go_error \<times> 'w" where
  "ensure_reservation c r w =
     (case GetIPR c (om_Name (ipr_Meta r)) w of
        (Inl err, w1) \<Rightarrow> if IsNotFound err then CreateIPR c r w1 else (Some err, w1)
      | (Inr old, w1) \<Rightarrow>
          if ReservedCIDRs old = ReservedCIDRs r then (None, w1)
          else UpdateIPR c (old\<lparr>ReservedCIDRs := ReservedCIDRs r\<rparr>) w1)"

text \<open>What the view shows once \<open>r\<close> is in force.\<close>

definition reserved :: "'w view \<Rightarrow> IPReservation \<Rightarrow> 'w \<Rightarrow> bool" where
  "reserved v r w \<longleftrightarrow>
     (case v_IPR v w (om_Name (ipr_Meta r)) of None \<Rightarrow> False
      | Some r' \<Rightarrow> ReservedCIDRs r' = ReservedCIDRs r)"

lemma split_go_error [simp]:
  "(case p of (Some err, w) \<Rightarrow> (Some err, w) | (None, w) \<Rightarrow> (None, w)) = p"
  by (simp split: prod.splits option.splits)

text \<open>Only the reservation of the given name changes.\<close>

definition only_ipr :: "'w view \<Rightarrow> string \<Rightarrow> 'w \<Rightarrow> 'w \<Rightarrow> bool" where
  "only_ipr v n w w' \<longleftrightarrow> workloads_same v w w' \<and> v_PPS v w' = v_PPS v w \<and>
     (\<forall>m. m \<noteq> n \<longrightarrow> v_IPR v w' m = v_IPR v w m)"

lemma ensure_reservation_healthy:
  assumes h: "healthy c v"
  shows "\<exists>w'. ensure_reservation c r w = (None, w') \<and> reserved v r w' \<and>
     only_ipr v (om_Name (ipr_Meta r)) w w'"
proof (cases "v_IPR v w (om_Name (ipr_Meta r))")
  case None
  from h None obtain r' w' where "CreateIPR c r w = (None, w')"
    "ReservedCIDRs r' = ReservedCIDRs r" "workloads_same v w w'" "v_PPS v w' = v_PPS v w"
    "v_IPR v w' = (v_IPR v w)(om_Name (ipr_Meta r) \<mapsto> r')"
    by (rule healthy_createIPR)
  with h None show ?thesis
    by (simp add: ensure_reservation_def reserved_def only_ipr_def)
next
  case (Some old)
  let ?r = "old\<lparr>ReservedCIDRs := ReservedCIDRs r\<rparr>"
  from h Some have n: "om_Name (ipr_Meta ?r) = om_Name (ipr_Meta r)"
    by (simp add: healthy_keys)
  show ?thesis
  proof (cases "ReservedCIDRs old = ReservedCIDRs r")
    case True
    with h Some show ?thesis
      by (simp add: ensure_reservation_def reserved_def only_ipr_def)
  next
    case False
    from Some n have "v_IPR v w (om_Name (ipr_Meta ?r)) = Some old" by simp
    with h obtain r' w' where "UpdateIPR c ?r w = (None, w')"
      "ReservedCIDRs r' = ReservedCIDRs ?r" "workloads_same v w w'" "v_PPS v w' = v_PPS v w"
      "v_IPR v w' = (v_IPR v w)(om_Name (ipr_Meta ?r) \<mapsto> r')"
      by (rule healthy_updateIPR) simp
    with h Some n False show ?thesis
      by (simp add: ensure_reservation_def reserved_def only_ipr_def)
  qed
qed

lemma ensure_reservation_fix:
  "healthy c v \<Longrightarrow> reserved v r w \<Longrightarrow> ensure_reservation c r w = (None, w)"
  by (auto simp: ensure_reservation_def reserved_def split: option.splits)

locale ip_reserver =
  fixes reserve :: "'w client \<Rightarrow> 'o \<Rightarrow> 'w \<Rightarrow> go_error \<times> 'w"
    and address :: "'o \<Rightarrow> string"
    and reservation :: "'o \<Rightarrow> IPReservation"
  assumes reserve_law:
    "reserve c x w = (if address x = [] then (None, w) else ensure_reservation c (reservation x) w)"
begin

lemma reserve_ok:
  assumes "healthy c v" and "address x \<noteq> []"
  shows "\<exists>w'. reserve c x w = (None, w') \<and> reserved v (reservation x) w' \<and>
     only_ipr v (om_Name (ipr_Meta (reservation x))) w w'"
  using assms by (simp add: reserve_law ensure_reservation_healthy)

lemma reserve_fix:
  "healthy c v \<Longrightarrow> reserved v (reservation x) w \<Longrightarrow> reserve c x w = (None, w)"
  by (simp add: reserve_law ensure_reservation_fix)

lemma reserve_read_error:
  "address x \<noteq> [] \<Longrightarrow> GetIPR c (om_Name (ipr_Meta (reservation x))) w = (Inl err, w1) \<Longrightarrow>
     \<not> IsNotFound err \<Longrightarrow> reserve c x w = (Some err, w1)"
  by (simp add: reserve_law ensure_reservation_def)

end

interpretation vmi_reserver: ip_reserver
  "\<lambda>c x. vmi_reserve c (fst x) (snd x)" snd "\<lambda>x. vmi_ipReservation (fst x) (snd x)"
  by unfold_locales
    (auto simp: vmi_reserve_def ensure_reservation_def Let_def split: call_splits)

interpretation pod_reserver: ip_reserver
  createOrUpdateIPReservation pod_PodIP pod_ipReservation
  by unfold_locales
    (auto simp: createOrUpdateIPReservation_def ensure_reservation_def Let_def
      split: call_splits)

section \<open>Publishing the recorded state\<close>

definition updateStatus_ref :: "'w client \<Rightarrow> PersistentPodState \<Rightarrow> 'w \<Rightarrow> go_error \<times> 'w" where
  "updateStatus_ref c p w =
     (case GetPPS c (om_Namespace (pps_Meta p)) (om_Name (pps_Meta p)) w of
        (Inl err, w1) \<Rightarrow> (Some err, w1)
      | (Inr old, w1) \<Rightarrow>
          StatusUpdatePPS c (old\<lparr>pps_Spec := pps_Spec p, pps_Status := pps_Status p\<rparr>) w1)"

text \<open>
  The reference algorithm; \<open>keep old p\<close> is the case in which the stored state is left as it is
  although it differs.
\<close>

definition publish_ref ::
  "(PersistentPodState \<Rightarrow> PersistentPodState \<Rightarrow> bool) \<Rightarrow> 'w client \<Rightarrow> PersistentPodState \<Rightarrow> 'w \<Rightarrow>
   go_error \<times> 'w" where
  "publish_ref keep c p w =
     (case GetPPS c (om_Namespace (pps_Meta p)) (om_Name (pps_Meta p)) w of
        (Inl err, w1) \<Rightarrow>
          if IsNotFound err then
            (case CreatePPS c p w1 of
               (Some err, w2) \<Rightarrow> if IsAlreadyExists err then (None, w2) else (Some err, w2)
             | (None, w2) \<Rightarrow> (None, w2))
          else (Some err, w1)
      | (Inr old, w1) \<Rightarrow>
          if pps_Status old = pps_Status p \<or> keep old p then (None, w1)
          else RetryOnConflict c (updateStatus_ref c p) w1)"

text \<open>What one successful publication makes of the stored object.\<close>

definition published ::
  "(PersistentPodState \<Rightarrow> PersistentPodState \<Rightarrow> bool) \<Rightarrow> 'w view \<Rightarrow> PersistentPodState \<Rightarrow> 'w \<Rightarrow> 'w \<Rightarrow> bool"
where
  "published keep v p w w' \<longleftrightarrow>
     workloads_same v w w' \<and>
     (\<exists>p'. v_PPS v w' = (v_PPS v w)(pps_key p \<mapsto> p') \<and>
        (case v_PPS v w (pps_key p) of
           None \<Rightarrow> stored_as (pps_Meta p) (pps_Meta p') \<and> pps_Spec p' = pps_Spec p \<and>
                   pps_Status p' = zero_Status
         | Some old \<Rightarrow> stored_as (pps_Meta old) (pps_Meta p') \<and> pps_Spec p' = pps_Spec old \<and>
                   pps_Status p' = (if keep old p then pps_Status old else pps_Status p)))"

lemma published_cases:
  assumes "published keep v p w w'"
  obtains (created) p' where "v_PPS v w' (pps_key p) = Some p'" "v_PPS v w (pps_key p) = None"
      "pps_Status p' = zero_Status" "pps_Spec p' = pps_Spec p" "stored_as (pps_Meta p) (pps_Meta p')"
  | (kept) p' old where "v_PPS v w' (pps_key p) = Some p'" "v_PPS v w (pps_key p) = Some old"
      "keep old p" "pps_Status p' = pps_Status old" "pps_Spec p' = pps_Spec old"
  | (written) p' old where "v_PPS v w' (pps_key p) = Some p'" "v_PPS v w (pps_key p) = Some old"
      "\<not> keep old p" "pps_Status p' = pps_Status p" "pps_Spec p' = pps_Spec old"
proof (cases "v_PPS v w (pps_key p)")
  case None
  with assms created show ?thesis by (auto simp: published_def)
next
  case (Some old)
  with assms kept written show ?thesis
    by (cases "keep old p") (auto simp: published_def)
qed

lemma published_workloads: "published keep v p w w' \<Longrightarrow> workloads_same v w w'"
  by (simp add: published_def)

lemma stored_as_refl [simp]: "stored_as m m"
  by (simp add: stored_as_def)

lemma publish_ref_healthy:
  assumes h: "healthy c v"
  shows "\<exists>w'. publish_ref keep c p w = (None, w') \<and> published keep v p w w' \<and> v_IPR v w' = v_IPR v w"
proof (cases "v_PPS v w (pps_key p)")
  case None
  with h obtain p' w' where "CreatePPS c p w = (None, w')" "stored_as (pps_Meta p) (pps_Meta p')"
    "pps_Spec p' = pps_Spec p" "pps_Status p' = zero_Status" "workloads_same v w w'"
    "v_IPR v w' = v_IPR v w" "v_PPS v w' = (v_PPS v w)(pps_key p \<mapsto> p')"
    by (rule healthy_createPPS)
  with h None show ?thesis
    by (auto simp: publish_ref_def published_def pps_key_def)
next
  case (Some old)
  show ?thesis
  proof (cases "pps_Status old = pps_Status p \<or> keep old p")
    case True
    have "v_PPS v w = (v_PPS v w)(pps_key p \<mapsto> old)"
      using Some by (simp add: fun_upd_idem)
    with h Some True show ?thesis
      by (auto simp: publish_ref_def published_def pps_key_def)
  next
    case False
    let ?p = "old\<lparr>pps_Spec := pps_Spec p, pps_Status := pps_Status p\<rparr>"
    have k: "pps_key ?p = pps_key p"
      using h Some healthy_keys(1) by (fastforce simp: pps_key_def)
    with Some have "v_PPS v w (pps_key ?p) = Some old" by simp
    with h obtain p' w' where up: "StatusUpdatePPS c ?p w = (None, w')"
      and st: "stored_as (pps_Meta old) (pps_Meta p')" "pps_Spec p' = pps_Spec old"
      "pps_Status p' = pps_Status ?p" "workloads_same v w w'" "v_IPR v w' = v_IPR v w"
      "v_PPS v w' = (v_PPS v w)(pps_key ?p \<mapsto> p')"
      by (rule healthy_statusUpdatePPS) simp
    have "updateStatus_ref c p w = (None, w')"
      using h Some up by (simp add: updateStatus_ref_def pps_key_def)
    with h have "RetryOnConflict c (updateStatus_ref c p) w = (None, w')"
      by (rule healthy_retry) simp
    with h Some False st k show ?thesis
      by (auto simp: publish_ref_def published_def pps_key_def)
  qed
qed

lemma publish_ref_fix:
  assumes "healthy c v" and "v_PPS v w (pps_key p) = Some old"
    and "pps_Status old = pps_Status p \<or> keep old p"
  shows "publish_ref keep c p w = (None, w)"
  using assms by (auto simp: publish_ref_def pps_key_def)

locale state_publisher =
  fixes publish :: "'w client \<Rightarrow> PersistentPodState \<Rightarrow> 'w \<Rightarrow> go_error \<times> 'w"
    and keep :: "PersistentPodState \<Rightarrow> PersistentPodState \<Rightarrow> bool"
  assumes publish_law: "publish c p w = publish_ref keep c p w"
begin

lemma publish_ok:
  "healthy c v \<Longrightarrow> \<exists>w'. publish c p w = (None, w') \<and> published keep v p w w' \<and> v_IPR v w' = v_IPR v w"
  by (simp add: publish_law publish_ref_healthy)

lemma publish_fix:
  "healthy c v \<Longrightarrow> v_PPS v w (pps_key p) = Some old \<Longrightarrow>
     pps_Status old = pps_Status p \<or> keep old p \<Longrightarrow> publish c p w = (None, w)"
  by (simp only: publish_law publish_ref_fix)

lemma publish_read_error:
  "GetPPS c (om_Namespace (pps_Meta p)) (om_Name (pps_Meta p)) w = (Inl err, w1) \<Longrightarrow>
     \<not> IsNotFound err \<Longrightarrow> publish c p w = (Some err, w1)"
  by (simp add: publish_law publish_ref_def)

lemma publish_lost_race:
  "GetPPS c (om_Namespace (pps_Meta p)) (om_Name (pps_Meta p)) w = (Inl (NotFound n), w1) \<Longrightarrow>
     CreatePPS c p w1 = (Some (AlreadyExists n), w2) \<Longrightarrow> publish c p w = (None, w2)"
  by (simp add: publish_law publish_ref_def)

text \<open>Publishing twice settles the object: the second run writes the status the create dropped.\<close>

lemma publish_twice:
  assumes h: "healthy c v" and keep: "\<And>q. pps_Status q = pps_Status p \<Longrightarrow> \<not> keep q p"
    and new: "\<And>q. pps_Status q = zero_Status \<Longrightarrow> \<not> keep q p"
    and old: "\<And>q. v_PPS v w (pps_key p) = Some q \<Longrightarrow> \<not> keep q p"
  obtains w1 w2 p2 where "publish c p w = (None, w1)" "publish c p w1 = (None, w2)"
    "v_PPS v w2 (pps_key p) = Some p2" "pps_Status p2 = pps_Status p"
    "v_IPR v w2 = v_IPR v w" "workloads_same v w w2"
proof -
  from publish_ok [OF h] obtain w1 where 1: "publish c p w = (None, w1)" "published keep v p w w1"
    "v_IPR v w1 = v_IPR v w" by blast
  from publish_ok [OF h] obtain w2 where 2: "publish c p w1 = (None, w2)" "published keep v p w1 w2"
    "v_IPR v w2 = v_IPR v w1" by blast
  from 1(2) obtain p1 where p1: "v_PPS v w1 (pps_key p) = Some p1"
    "pps_Status p1 = zero_Status \<or> pps_Status p1 = pps_Status p"
    using old by (auto simp: published_def split: option.splits)
  then have "\<not> keep p1 p" using new keep by blast
  with 2(2) p1 obtain p2 where "v_PPS v w2 (pps_key p) = Some p2" "pps_Status p2 = pps_Status p"
    by (auto simp: published_def)
  moreover have "v_IPR v w2 = v_IPR v w" "workloads_same v w w2"
    using 1(2,3) 2(2,3) workloads_same_trans by (auto simp: published_def)
  ultimately show thesis using that 1(1) 2(1) by blast
qed

end

definition fewer_states :: "PersistentPodState \<Rightarrow> PersistentPodState \<Rightarrow> bool" where
  "fewer_states old p \<longleftrightarrow>
     pps_Status old \<noteq> pps_Status p \<and>
     go_len (PodStates (pps_Status p)) < go_len (PodStates (pps_Status old))"

lemma updateStatus_eqs: "vmi_updateStatus = updateStatus_ref" "sts_updateStatus = updateStatus_ref"
  by (auto simp: vmi_updateStatus_def sts_updateStatus_def updateStatus_ref_def fun_eq_iff
      split: call_splits)

interpretation vmi_publisher: state_publisher vmi_publish "\<lambda>_ _. False"
  by unfold_locales
    (auto simp: vmi_publish_def publish_ref_def updateStatus_eqs split: call_splits)

interpretation sts_publisher: state_publisher sts_publish fewer_states
  by unfold_locales
    (auto simp: sts_publish_def publish_ref_def updateStatus_eqs fewer_states_def
      split: call_splits)


section \<open>Recording a StatefulSet\<close>

definition recordable :: "Pod \<Rightarrow> bool" where
  "recordable pod \<longleftrightarrow> pod_PodIP pod \<noteq> [] \<and> pod_NodeName pod \<noteq> []"

fun record_pods :: "Pod list \<Rightarrow> (string, PodState) fmap \<Rightarrow> (string, PodState) fmap" where
  "record_pods [] m = m"
| "record_pods (pod # pods) m =
     record_pods pods
       (if recordable pod then fmupd (om_Name (pod_Meta pod)) (pod_podState pod) m else m)"

abbreviation reservation_name :: "Pod \<Rightarrow> string" where
  "reservation_name pod \<equiv> om_Name (ipr_Meta (pod_ipReservation pod))"

lemma record_pods_other:
  "k \<notin> (\<lambda>p. om_Name (pod_Meta p)) ` set (filter recordable pods) \<Longrightarrow>
     fmlookup (record_pods pods m) k = fmlookup m k"
  by (induction pods arbitrary: m) auto

lemma record_pods_lookup:
  assumes "distinct (map (\<lambda>p. om_Name (pod_Meta p)) pods)" and "pod \<in> set pods" and "recordable pod"
  shows "fmlookup (record_pods pods m) (om_Name (pod_Meta pod)) = Some (pod_podState pod)"
  using assms
proof (induction pods arbitrary: m)
  case (Cons p pods)
  show ?case
  proof (cases "p = pod")
    case True
    with Cons.prems have "om_Name (pod_Meta pod) \<notin> (\<lambda>q. om_Name (pod_Meta q)) ` set (filter recordable pods)"
      by auto
    with True Cons.prems show ?thesis by (simp add: record_pods_other)
  next
    case False
    with Cons show ?thesis by simp
  qed
qed simp

lemma record_pods_keys:
  "fmlookup (record_pods pods m) k = Some s \<Longrightarrow>
     (\<exists>p \<in> set pods. recordable p \<and> om_Name (pod_Meta p) = k \<and> s = pod_podState p) \<or>
     fmlookup m k = Some s"
  by (induction pods arbitrary: m) (force split: if_splits)+

lemma record_pods_empty_iff:
  "go_len (Some (record_pods pods fmempty)) = 0 \<longleftrightarrow> (\<forall>p \<in> set pods. \<not> recordable p)"
proof
  assume "go_len (Some (record_pods pods fmempty)) = 0"
  then have none: "\<forall>k. fmlookup (record_pods pods fmempty) k = None"
    unfolding go_len_0_iff by (simp add: go_has_def)
  have "fmlookup m k \<noteq> None \<Longrightarrow> fmlookup (record_pods ps m) k \<noteq> None" for ps m k
    by (induction ps arbitrary: m) auto
  then have "p \<in> set ps \<Longrightarrow> recordable p \<Longrightarrow> fmlookup (record_pods ps m) (om_Name (pod_Meta p)) \<noteq> None"
    for p ps m
    by (induction ps arbitrary: m) auto
  with none show "\<forall>p \<in> set pods. \<not> recordable p" by blast
next
  assume "\<forall>p \<in> set pods. \<not> recordable p"
  then have "record_pods pods m = m" for m
    by (induction pods arbitrary: m) auto
  then show "go_len (Some (record_pods pods fmempty)) = 0"
    by (simp add: go_len_def)
qed

text \<open>In one namespace the reservation names of different pods differ.\<close>

lemma reservation_name_inj:
  assumes "distinct (map (\<lambda>p. om_Name (pod_Meta p)) pods)"
    and "\<And>p. p \<in> set pods \<Longrightarrow> om_Namespace (pod_Meta p) = ns"
  shows "distinct (map reservation_name pods)"
  using assms
  by (auto simp: distinct_map inj_on_def pod_ipReservation_def zero_meta_def)

text \<open>The loop changes reservations only, and only those of recordable pods.\<close>

definition only_iprs :: "'w view \<Rightarrow> string set \<Rightarrow> 'w \<Rightarrow> 'w \<Rightarrow> bool" where
  "only_iprs v N w w' \<longleftrightarrow> workloads_same v w w' \<and> v_PPS v w' = v_PPS v w \<and>
     (\<forall>m. m \<notin> N \<longrightarrow> v_IPR v w' m = v_IPR v w m)"

lemma only_iprs_step:
  "only_ipr v n w w1 \<Longrightarrow> only_iprs v N w1 w2 \<Longrightarrow> only_iprs v (insert n N) w w2"
  by (auto simp: only_ipr_def only_iprs_def workloads_same_def)

lemma reserved_frame:
  "reserved v r w \<Longrightarrow> v_IPR v w' (om_Name (ipr_Meta r)) = v_IPR v w (om_Name (ipr_Meta r)) \<Longrightarrow>
     reserved v r w'"
  by (simp add: reserved_def)

lemma sts_podStates_healthy:
  assumes h: "healthy c v" and "distinct (map reservation_name pods)"
  shows "\<exists>w'. sts_podStates c pods m w = (record_pods pods m, w') \<and>
     only_iprs v (reservation_name ` set (filter recordable pods)) w w' \<and>
     (\<forall>p \<in> set pods. recordable p \<longrightarrow> reserved v (pod_ipReservation p) w')"
  using assms(2)
proof (induction pods arbitrary: m w)
  case Nil
  then show ?case by (simp add: only_iprs_def)
next
  case (Cons pod pods)
  show ?case
  proof (cases "recordable pod")
    case False
    with Cons.IH [of m w] Cons.prems show ?thesis
      by (auto simp: recordable_def)
  next
    case True
    let ?m = "fmupd (om_Name (pod_Meta pod)) (pod_podState pod) m"
    from True have "pod_PodIP pod \<noteq> []" by (simp add: recordable_def)
    from pod_reserver.reserve_ok [OF h this, of w] obtain w1 where
      w1: "createOrUpdateIPReservation c pod w = (None, w1)"
      "reserved v (pod_ipReservation pod) w1" "only_ipr v (reservation_name pod) w w1"
      by blast
    from Cons.prems have "distinct (map reservation_name pods)" by simp
    from Cons.IH [OF this, of ?m w1] obtain w2 where w2:
      "sts_podStates c pods ?m w1 = (record_pods pods ?m, w2)"
      "only_iprs v (reservation_name ` set (filter recordable pods)) w1 w2"
      "\<forall>p \<in> set pods. recordable p \<longrightarrow> reserved v (pod_ipReservation p) w2"
      by blast
    have "reserved v (pod_ipReservation pod) w2"
      using w1(2) w2(2) Cons.prems by (auto simp: only_iprs_def elim!: reserved_frame)
    with w2(3) have all: "\<forall>p \<in> set (pod # pods). recordable p \<longrightarrow> reserved v (pod_ipReservation p) w2"
      by simp
    have only: "only_iprs v (reservation_name ` set (filter recordable (pod # pods))) w w2"
      using True only_iprs_step [OF w1(3) w2(2)] by simp
    have "sts_podStates c (pod # pods) m w = (record_pods (pod # pods) m, w2)"
      using True w1(1) w2(1) by (simp add: recordable_def)
    with all only show ?thesis by blast
  qed
qed

lemma sts_podStates_fix:
  assumes "healthy c v"
    and "\<And>p. p \<in> set pods \<Longrightarrow> recordable p \<Longrightarrow> reserved v (pod_ipReservation p) w"
  shows "sts_podStates c pods m w = (record_pods pods m, w)"
  using assms
  by (induction pods arbitrary: m) (auto simp: recordable_def pod_reserver.reserve_fix)


definition sts_recorded :: "'w view \<Rightarrow> StatefulSet \<Rightarrow> string gomap \<Rightarrow> 'w \<Rightarrow> PersistentPodState" where
  "sts_recorded v sts l w =
     sts_persistentPodState sts (record_pods (v_Pods v w (om_Namespace (sts_Meta sts)) l) fmempty)"

definition sts_reserved :: "'w view \<Rightarrow> StatefulSet \<Rightarrow> string gomap \<Rightarrow> 'w \<Rightarrow> bool" where
  "sts_reserved v sts l w \<longleftrightarrow>
     (\<forall>p \<in> set (v_Pods v w (om_Namespace (sts_Meta sts)) l).
        recordable p \<longrightarrow> reserved v (pod_ipReservation p) w)"

definition sts_has_record :: "'w view \<Rightarrow> StatefulSet \<Rightarrow> string gomap \<Rightarrow> 'w \<Rightarrow> bool" where
  "sts_has_record v sts l w \<longleftrightarrow>
     (\<exists>p \<in> set (v_Pods v w (om_Namespace (sts_Meta sts)) l). recordable p)"

lemma sts_run:
  assumes h: "healthy c v" and sel: "sts_Selector sts = Some l"
  obtains w1 where "sts_reserved v sts l w1" "workloads_same v w w1" "v_PPS v w1 = v_PPS v w"
    "StatefulSetAutoGeneratePersistentPodState c sts w =
       (if sts_has_record v sts l w then
          (case sts_publish c (sts_recorded v sts l w) w1 of (err, w2) \<Rightarrow> (Returned err, w2))
        else (Returned None, w1))"
proof -
  let ?pods = "v_Pods v w (om_Namespace (sts_Meta sts)) l"
  have "distinct (map reservation_name ?pods)"
    by (rule reservation_name_inj) (use healthy_pods [OF h] in auto)
  from sts_podStates_healthy [OF h this, of fmempty w] obtain w1 where
    w1: "sts_podStates c ?pods fmempty w = (record_pods ?pods fmempty, w1)"
    "only_iprs v (reservation_name ` set (filter recordable ?pods)) w w1"
    "\<forall>p \<in> set ?pods. recordable p \<longrightarrow> reserved v (pod_ipReservation p) w1"
    by blast
  from w1(2) have w: "workloads_same v w w1" and P: "v_PPS v w1 = v_PPS v w"
    by (simp_all add: only_iprs_def)
  from w have pods: "v_Pods v w1 = v_Pods v w" by (simp add: workloads_same_def)
  from w1(3) pods have "sts_reserved v sts l w1" by (simp add: sts_reserved_def)
  moreover have "StatefulSetAutoGeneratePersistentPodState c sts w =
       (if sts_has_record v sts l w then
          (case sts_publish c (sts_recorded v sts l w) w1 of (err, w2) \<Rightarrow> (Returned err, w2))
        else (Returned None, w1))"
    using h sel w1(1)
    by (auto simp: StatefulSetAutoGeneratePersistentPodState_def record_pods_empty_iff
        sts_has_record_def sts_recorded_def)
  ultimately show thesis using that w P by blast
qed

lemma sts_run_records:
  assumes "healthy c v" and "sts_Selector sts = Some l" and "sts_has_record v sts l w"
  shows "\<exists>w'. StatefulSetAutoGeneratePersistentPodState c sts w = (Returned None, w') \<and>
     sts_reserved v sts l w' \<and> published fewer_states v (sts_recorded v sts l w) w w'"
proof -
  from sts_run [OF assms(1,2), where w = w] obtain w1 where w1: "sts_reserved v sts l w1"
    "workloads_same v w w1" "v_PPS v w1 = v_PPS v w"
    "StatefulSetAutoGeneratePersistentPodState c sts w =
       (case sts_publish c (sts_recorded v sts l w) w1 of (err, w2) \<Rightarrow> (Returned err, w2))"
    using assms(3) by auto
  from sts_publisher.publish_ok [OF assms(1)] obtain w2 where w2:
    "sts_publish c (sts_recorded v sts l w) w1 = (None, w2)"
    "published fewer_states v (sts_recorded v sts l w) w1 w2" "v_IPR v w2 = v_IPR v w1"
    by blast
  then have "workloads_same v w1 w2" by (simp add: published_def)
  with w1(1) w2(3) have "sts_reserved v sts l w2"
    by (simp add: sts_reserved_def reserved_def workloads_same_def)
  moreover from w2(2) w1(2,3) have "published fewer_states v (sts_recorded v sts l w) w w2"
    using workloads_same_trans by (auto simp: published_def)
  ultimately show ?thesis using w1(4) w2(1) by simp
qed

text \<open>
  C5. Against a server that answers, reconciling a StatefulSet that has a pod with an address and a
  node returns no error and leaves every such pod's address reserved. An existing PersistentPodState
  gets the state of exactly those pods, unless that would record fewer pods, and keeps its spec. A missing
  one is created with the spec of the StatefulSet only: the server drops the status sent with a
  create, so that the state is published by the next reconcile.
\<close>

theorem sts_reconcile_records:
  assumes "healthy c v" and "sts_Selector sts = Some l" and "sts_has_record v sts l w"
  shows "\<exists>w'. StatefulSetAutoGeneratePersistentPodState c sts w = (Returned None, w') \<and>
     sts_reserved v sts l w' \<and> published fewer_states v (sts_recorded v sts l w) w w'"
  using assms by (rule sts_run_records)

text \<open>A state in which reconciling has nothing left to do.\<close>

definition sts_settled :: "'w view \<Rightarrow> StatefulSet \<Rightarrow> string gomap \<Rightarrow> 'w \<Rightarrow> bool" where
  "sts_settled v sts l w \<longleftrightarrow> sts_reserved v sts l w \<and>
     (sts_has_record v sts l w \<longrightarrow>
        (\<exists>old. v_PPS v w (pps_key (sts_recorded v sts l w)) = Some old \<and>
           (pps_Status old = pps_Status (sts_recorded v sts l w) \<or>
            fewer_states old (sts_recorded v sts l w))))"

lemma sts_settled_fix:
  assumes h: "healthy c v" and sel: "sts_Selector sts = Some l" and s: "sts_settled v sts l w"
  shows "StatefulSetAutoGeneratePersistentPodState c sts w = (Returned None, w)"
proof -
  let ?pods = "v_Pods v w (om_Namespace (sts_Meta sts)) l"
  have loop: "sts_podStates c ?pods fmempty w = (record_pods ?pods fmempty, w)"
    using h s by (intro sts_podStates_fix) (auto simp: sts_settled_def sts_reserved_def)
  have "sts_publish c (sts_recorded v sts l w) w = (None, w)" if "sts_has_record v sts l w"
    using that s sts_publisher.publish_fix [OF h] by (auto simp: sts_settled_def)
  with h sel loop show ?thesis
    by (auto simp: StatefulSetAutoGeneratePersistentPodState_def record_pods_empty_iff
        sts_has_record_def sts_recorded_def)
qed

text \<open>After one run the object exists; it lacks the status only if this run created it.\<close>

lemma sts_run_once:
  assumes h: "healthy c v" and sel: "sts_Selector sts = Some l"
  obtains w1 where "StatefulSetAutoGeneratePersistentPodState c sts w = (Returned None, w1)"
    "workloads_same v w w1" "sts_reserved v sts l w1"
    "sts_has_record v sts l w1 \<Longrightarrow> \<exists>old. v_PPS v w1 (pps_key (sts_recorded v sts l w1)) = Some old \<and>
       (pps_Status old = pps_Status (sts_recorded v sts l w1) \<or>
        fewer_states old (sts_recorded v sts l w1) \<or>
        pps_Status old = zero_Status \<and> v_PPS v w (pps_key (sts_recorded v sts l w)) = None)"
proof (cases "sts_has_record v sts l w")
  case False
  from sts_run [OF h sel, where w = w] obtain w1 where w1: "sts_reserved v sts l w1"
    "workloads_same v w w1" "StatefulSetAutoGeneratePersistentPodState c sts w = (Returned None, w1)"
    using False by auto
  moreover from w1(2) False have "\<not> sts_has_record v sts l w1"
    by (simp add: sts_has_record_def workloads_same_def)
  ultimately show ?thesis using that by blast
next
  case True
  from sts_run_records [OF h sel True] obtain w1 where
    w1: "StatefulSetAutoGeneratePersistentPodState c sts w = (Returned None, w1)"
    "sts_reserved v sts l w1" and pub: "published fewer_states v (sts_recorded v sts l w) w w1"
    by blast
  from pub have same: "workloads_same v w w1" by (simp add: published_def)
  then have eq: "sts_recorded v sts l w1 = sts_recorded v sts l w"
    by (simp add: sts_recorded_def workloads_same_def)
  from pub have "\<exists>p'. v_PPS v w1 (pps_key (sts_recorded v sts l w)) = Some p' \<and>
    (pps_Status p' = pps_Status (sts_recorded v sts l w) \<or>
     fewer_states p' (sts_recorded v sts l w) \<or>
     pps_Status p' = zero_Status \<and> v_PPS v w (pps_key (sts_recorded v sts l w)) = None)"
    by (cases rule: published_cases) (auto simp: fewer_states_def)
  with w1 same eq show ?thesis using that by auto
qed


text \<open>
  C6. Reconciling a StatefulSet settles: whatever the server stores at first, after two runs a
  further run returns no error and changes nothing. The second run is needed because the status
  sent with the create is dropped by the status subresource.
\<close>

theorem sts_reconcile_settles:
  assumes h: "healthy c v" and sel: "sts_Selector sts = Some l"
    and w1: "StatefulSetAutoGeneratePersistentPodState c sts w = (r1, w1)"
    and w2: "StatefulSetAutoGeneratePersistentPodState c sts w1 = (r2, w2)"
  shows "StatefulSetAutoGeneratePersistentPodState c sts w2 = (Returned None, w2)"
proof (rule sts_settled_fix [OF h sel])
  from sts_run_once [OF h sel, where w = w] w1 have
    1: "workloads_same v w w1" "sts_has_record v sts l w1 \<Longrightarrow>
      \<exists>old. v_PPS v w1 (pps_key (sts_recorded v sts l w1)) = Some old" by auto
  from sts_run_once [OF h sel, where w = w1] w2 have
    2: "workloads_same v w1 w2" "sts_reserved v sts l w2" "sts_has_record v sts l w2 \<Longrightarrow>
      \<exists>old. v_PPS v w2 (pps_key (sts_recorded v sts l w2)) = Some old \<and>
       (pps_Status old = pps_Status (sts_recorded v sts l w2) \<or>
        fewer_states old (sts_recorded v sts l w2) \<or>
        v_PPS v w1 (pps_key (sts_recorded v sts l w1)) = None)" by auto
  from 2(1) have "sts_has_record v sts l w2 = sts_has_record v sts l w1"
    by (simp add: sts_has_record_def workloads_same_def)
  with 1(2) 2(2,3) show "sts_settled v sts l w2"
    unfolding sts_settled_def by force
qed

lemma sts_key: "pps_key (sts_recorded v sts l x) = (om_Namespace (sts_Meta sts), om_Name (sts_Meta sts))"
  by (simp add: sts_recorded_def sts_persistentPodState_def pps_key_def)

lemma sts_two_runs_publish:
  assumes h: "healthy c v" and sel: "sts_Selector sts = Some l"
    and new: "v_PPS v w (om_Namespace (sts_Meta sts), om_Name (sts_Meta sts)) = None"
    and has: "sts_has_record v sts l w"
    and w1: "StatefulSetAutoGeneratePersistentPodState c sts w = (r1, w1)"
    and w2: "StatefulSetAutoGeneratePersistentPodState c sts w1 = (r2, w2)"
  shows "\<exists>p. v_PPS v w2 (om_Namespace (sts_Meta sts), om_Name (sts_Meta sts)) = Some p \<and>
     pps_Spec p = pps_Spec (sts_recorded v sts l w) \<and> pps_Status p = pps_Status (sts_recorded v sts l w)"
proof -
  let ?rec = "sts_recorded v sts l w"
  note k = sts_key [of v sts l]
  from sts_run_records [OF h sel has] w1 have p1: "published fewer_states v ?rec w w1" by simp
  then have same: "workloads_same v w w1" by (rule published_workloads)
  then have rec1: "sts_recorded v sts l w1 = ?rec" and has1: "sts_has_record v sts l w1"
    using has by (simp_all add: sts_recorded_def sts_has_record_def workloads_same_def)
  from p1 new k have "\<exists>q. v_PPS v w1 (pps_key ?rec) = Some q \<and> pps_Status q = zero_Status \<and> pps_Spec q = pps_Spec ?rec"
    by (cases rule: published_cases) auto
  moreover from sts_run_records [OF h sel has1] w2 rec1 have "published fewer_states v ?rec w1 w2"
    by simp
  ultimately show ?thesis
    using k by (auto elim!: published_cases simp: fewer_states_def zero_Status_def)
qed

lemma sts_recorded_pod:
  assumes "healthy c v" and "pod \<in> set (v_Pods v w (om_Namespace (sts_Meta sts)) l)" and "recordable pod"
  shows "go_get zero_PodState (PodStates (pps_Status (sts_recorded v sts l w))) (om_Name (pod_Meta pod)) = pod_podState pod"
proof -
  have "fmlookup (record_pods (v_Pods v w (om_Namespace (sts_Meta sts)) l) fmempty)
      (om_Name (pod_Meta pod)) = Some (pod_podState pod)"
    by (rule record_pods_lookup) (use healthy_pods(1) [OF assms(1)] assms(2,3) in auto)
  then show ?thesis by (simp add: sts_recorded_def sts_persistentPodState_def go_get_def)
qed

lemma sts_two_runs_record:
  assumes h: "healthy c v" and sel: "sts_Selector sts = Some l"
    and new: "v_PPS v w (om_Namespace (sts_Meta sts), om_Name (sts_Meta sts)) = None"
    and pod: "pod \<in> set (v_Pods v w (om_Namespace (sts_Meta sts)) l)" "recordable pod"
    and w1: "StatefulSetAutoGeneratePersistentPodState c sts w = (r1, w1)"
    and w2: "StatefulSetAutoGeneratePersistentPodState c sts w1 = (r2, w2)"
  shows "\<exists>p. v_PPS v w2 (om_Namespace (sts_Meta sts), om_Name (sts_Meta sts)) = Some p \<and>
     go_get zero_PodState (PodStates (pps_Status p)) (om_Name (pod_Meta pod)) = pod_podState pod"
proof -
  from pod have has: "sts_has_record v sts l w" by (auto simp: sts_has_record_def)
  from sts_two_runs_publish [OF h sel new has w1 w2] sts_recorded_pod [OF h pod] show ?thesis by auto
qed

text \<open>
  A StatefulSet reconciled for the first time is fully recorded after two runs: the stored
  PersistentPodState then holds, for every pod with an address and a node, exactly that address and
  that node.
\<close>

lemma sts_first_record:
  assumes h: "healthy c v" and sel: "sts_Selector sts = Some l"
    and new: "v_PPS v w (om_Namespace (sts_Meta sts), om_Name (sts_Meta sts)) = None"
    and pod: "pod \<in> set (v_Pods v w (om_Namespace (sts_Meta sts)) l)" "recordable pod"
    and w1: "StatefulSetAutoGeneratePersistentPodState c sts w = (r1, w1)"
    and w2: "StatefulSetAutoGeneratePersistentPodState c sts w1 = (r2, w2)"
  shows "\<exists>p. v_PPS v w2 (om_Namespace (sts_Meta sts), om_Name (sts_Meta sts)) = Some p \<and>
     go_get zero_PodState (PodStates (pps_Status p)) (om_Name (pod_Meta pod)) = pod_podState pod"
  using assms by (rule sts_two_runs_record)

lemma sts_reconcile_never_shrinks:
  assumes h: "healthy c v" and sel: "sts_Selector sts = Some l"
    and old: "v_PPS v w (om_Namespace (sts_Meta sts), om_Name (sts_Meta sts)) = Some old"
  shows "\<exists>w' new. StatefulSetAutoGeneratePersistentPodState c sts w = (Returned None, w') \<and>
     v_PPS v w' (om_Namespace (sts_Meta sts), om_Name (sts_Meta sts)) = Some new \<and>
     go_len (PodStates (pps_Status old)) \<le> go_len (PodStates (pps_Status new))"
proof (cases "sts_has_record v sts l w")
  case False
  with old show ?thesis
    by (auto intro: sts_run [OF h sel, where w = w])
next
  case True
  have k: "pps_key (sts_recorded v sts l w) = (om_Namespace (sts_Meta sts), om_Name (sts_Meta sts))"
    by (simp add: sts_recorded_def sts_persistentPodState_def pps_key_def)
  from sts_run_records [OF h sel True] obtain w' where
    w': "StatefulSetAutoGeneratePersistentPodState c sts w = (Returned None, w')"
    and pub: "published fewer_states v (sts_recorded v sts l w) w w'" by blast
  from pub have "\<exists>new. v_PPS v w' (pps_key (sts_recorded v sts l w)) = Some new \<and>
      go_len (PodStates (pps_Status old)) \<le> go_len (PodStates (pps_Status new))"
    using old k by (cases rule: published_cases) (auto simp: fewer_states_def)
  with w' k show ?thesis by auto
qed

lemma sts_drops_entry:
  assumes h: "healthy c v" and sel: "sts_Selector sts = Some l"
    and old: "v_PPS v w (om_Namespace (sts_Meta sts), om_Name (sts_Meta sts)) = Some old"
    and some: "sts_has_record v sts l w"
    and size: "\<not> fewer_states old (sts_recorded v sts l w)"
    and lost: "\<And>p. p \<in> set (v_Pods v w (om_Namespace (sts_Meta sts)) l) \<Longrightarrow> recordable p \<Longrightarrow>
        om_Name (pod_Meta p) \<noteq> n"
  shows "\<exists>w' new. StatefulSetAutoGeneratePersistentPodState c sts w = (Returned None, w') \<and>
     v_PPS v w' (om_Namespace (sts_Meta sts), om_Name (sts_Meta sts)) = Some new \<and>
     \<not> go_has (PodStates (pps_Status new)) n"
proof -
  have k: "pps_key (sts_recorded v sts l w) = (om_Namespace (sts_Meta sts), om_Name (sts_Meta sts))"
    by (simp add: sts_recorded_def sts_persistentPodState_def pps_key_def)
  from sts_run_records [OF h sel some] obtain w' where
    w': "StatefulSetAutoGeneratePersistentPodState c sts w = (Returned None, w')"
    and pub: "published fewer_states v (sts_recorded v sts l w) w w'" by blast
  from pub obtain new where new: "v_PPS v w' (pps_key (sts_recorded v sts l w)) = Some new"
    "pps_Status new = pps_Status (sts_recorded v sts l w)"
    using old k size by (cases rule: published_cases) auto
  have "fmlookup (record_pods (v_Pods v w (om_Namespace (sts_Meta sts)) l) fmempty) n = None"
    using lost by (subst record_pods_other) auto
  with new w' k show ?thesis
    by (auto simp: sts_recorded_def sts_persistentPodState_def go_has_def)
qed

text \<open>
  C25. A reconcile of a StatefulSet never reduces the number of recorded pods, but the guard compares
  sizes only: when as many pods are recordable as are stored, the stored status is replaced as a whole,
  and a stored pod that is not recordable at that moment (it is being rebuilt) loses the address and the
  node that were kept for it.
\<close>

theorem sts_reconcile_drops_entry:
  assumes "healthy c v" and "sts_Selector sts = Some l"
    and "v_PPS v w (om_Namespace (sts_Meta sts), om_Name (sts_Meta sts)) = Some old"
  shows "\<exists>w' new. StatefulSetAutoGeneratePersistentPodState c sts w = (Returned None, w') \<and>
     v_PPS v w' (om_Namespace (sts_Meta sts), om_Name (sts_Meta sts)) = Some new \<and>
     go_len (PodStates (pps_Status old)) \<le> go_len (PodStates (pps_Status new)) \<and>
     (\<forall>n. sts_has_record v sts l w \<longrightarrow> \<not> fewer_states old (sts_recorded v sts l w) \<longrightarrow>
        (\<forall>p \<in> set (v_Pods v w (om_Namespace (sts_Meta sts)) l). recordable p \<longrightarrow> om_Name (pod_Meta p) \<noteq> n) \<longrightarrow>
        \<not> go_has (PodStates (pps_Status new)) n)"
proof -
  from sts_reconcile_never_shrinks [OF assms] obtain w' new where
    r: "StatefulSetAutoGeneratePersistentPodState c sts w = (Returned None, w')"
      "v_PPS v w' (om_Namespace (sts_Meta sts), om_Name (sts_Meta sts)) = Some new"
      "go_len (PodStates (pps_Status old)) \<le> go_len (PodStates (pps_Status new))" by blast
  moreover have "\<not> go_has (PodStates (pps_Status new)) n"
    if "sts_has_record v sts l w" "\<not> fewer_states old (sts_recorded v sts l w)"
      "\<forall>p \<in> set (v_Pods v w (om_Namespace (sts_Meta sts)) l). recordable p \<longrightarrow> om_Name (pod_Meta p) \<noteq> n" for n
    using sts_drops_entry [OF assms that(1,2), of n] that(3) r(1,2) by auto
  ultimately show ?thesis by blast
qed


section \<open>Recording a VirtualMachineInstance\<close>

lemma vmi_run:
  assumes h: "healthy c v" and ifs: "vmi_Interfaces vmi = ip # ips" "ip \<noteq> []"
    and own: "om_OwnerReferences (vmi_Meta vmi) = own # owns"
  obtains w' where "VmiAutoGeneratePersistentPodState c vmi w = (Returned None, w')"
    "reserved v (vmi_ipReservation vmi ip) w'"
    "published (\<lambda>_ _. False) v (vmi_persistentPodState vmi own ip) w w'"
proof -
  from vmi_reserver.reserve_ok [OF h, where x = "(vmi, ip)" and w = w] ifs(2) obtain w1 where
    w1: "vmi_reserve c vmi ip w = (None, w1)" "reserved v (vmi_ipReservation vmi ip) w1"
    "only_ipr v (om_Name (ipr_Meta (vmi_ipReservation vmi ip))) w w1" by auto
  from vmi_publisher.publish_ok [OF h] obtain w2 where
    w2: "vmi_publish c (vmi_persistentPodState vmi own ip) w1 = (None, w2)"
    "published (\<lambda>_ _. False) v (vmi_persistentPodState vmi own ip) w1 w2" "v_IPR v w2 = v_IPR v w1"
    by blast
  have "published (\<lambda>_ _. False) v (vmi_persistentPodState vmi own ip) w w2"
    using w1(3) w2(2) workloads_same_trans by (auto simp: published_def only_ipr_def)
  moreover have "reserved v (vmi_ipReservation vmi ip) w2"
    using w1(2) w2(3) by (simp add: reserved_def)
  moreover have "VmiAutoGeneratePersistentPodState c vmi w = (Returned None, w2)"
    using ifs own w1(1) w2(1) by (simp add: VmiAutoGeneratePersistentPodState_def)
  ultimately show thesis using that by blast
qed

text \<open>
  C7. Two reconciles of an owned VirtualMachineInstance with an address reserve that address, store
  its node and address under its name, and leave nothing for a third run to do.
\<close>

theorem vmi_reconcile_settles:
  assumes h: "healthy c v" and ifs: "vmi_Interfaces vmi = ip # ips" "ip \<noteq> []"
    and own: "om_OwnerReferences (vmi_Meta vmi) = own # owns"
    and w1: "VmiAutoGeneratePersistentPodState c vmi w = (r1, w1)"
    and w2: "VmiAutoGeneratePersistentPodState c vmi w1 = (r2, w2)"
  shows "r1 = Returned None \<and> r2 = Returned None \<and> reserved v (vmi_ipReservation vmi ip) w2 \<and>
     (\<exists>p. v_PPS v w2 (om_Namespace (vmi_Meta vmi), om_Name (vmi_Meta vmi)) = Some p \<and>
        pps_Status p = pps_Status (vmi_persistentPodState vmi own ip)) \<and>
     VmiAutoGeneratePersistentPodState c vmi w2 = (Returned None, w2)"
proof -
  let ?p = "vmi_persistentPodState vmi own ip"
  have k: "pps_key ?p = (om_Namespace (vmi_Meta vmi), om_Name (vmi_Meta vmi))"
    by (simp add: vmi_persistentPodState_def pps_key_def)
  from vmi_run [OF h ifs own, where w = w] w1 have r1: "r1 = Returned None"
    and p1: "published (\<lambda>_ _. False) v ?p w w1" by auto
  from vmi_run [OF h ifs own, where w = w1] w2 have r2: "r2 = Returned None"
    and res: "reserved v (vmi_ipReservation vmi ip) w2"
    and p2: "published (\<lambda>_ _. False) v ?p w1 w2" by auto
  from p1 have "\<exists>q. v_PPS v w1 (pps_key ?p) = Some q" by (cases rule: published_cases) auto
  with p2 obtain p where p: "v_PPS v w2 (pps_key ?p) = Some p" "pps_Status p = pps_Status ?p"
    by (auto elim!: published_cases)
  then have "vmi_publish c ?p w2 = (None, w2)"
    using vmi_publisher.publish_fix [OF h] by blast
  moreover have "vmi_reserve c vmi ip w2 = (None, w2)"
    using vmi_reserver.reserve_fix [OF h, where x = "(vmi, ip)"] res by simp
  ultimately have "VmiAutoGeneratePersistentPodState c vmi w2 = (Returned None, w2)"
    using ifs own by (simp add: VmiAutoGeneratePersistentPodState_def)
  with r1 r2 res p k show ?thesis by auto
qed

text \<open>
  C36. The VirtualMachineInstance path panics exactly when the instance reports an address, the
  reservation went through and the instance has no owner reference (it was not made by a
  VirtualMachine): \<^verbatim>\<open>OwnerReferences[0]\<close> is read unconditionally.
\<close>

theorem vmi_panics_iff:
  "fst (VmiAutoGeneratePersistentPodState c vmi w) = Panicked \<longleftrightarrow>
     (\<exists>ip ips. vmi_Interfaces vmi = ip # ips \<and> ip \<noteq> [] \<and> fst (vmi_reserve c vmi ip w) = None \<and>
        om_OwnerReferences (vmi_Meta vmi) = [])"
  by (auto simp: VmiAutoGeneratePersistentPodState_def split: list.splits call_splits)

section \<open>Names\<close>

lemma reservation_moves:
  assumes h: "healthy c v" and ips: "pod_PodIP p \<noteq> []" "pod_PodIP q \<noteq> []" "pod_PodIP p \<noteq> pod_PodIP q"
    and joined: "om_Namespace (pod_Meta p) @ ''-'' @ om_Name (pod_Meta p) = om_Namespace (pod_Meta q) @ ''-'' @ om_Name (pod_Meta q)"
  shows "\<exists>w1 w2. createOrUpdateIPReservation c p w = (None, w1) \<and> reserved v (pod_ipReservation p) w1 \<and>
     createOrUpdateIPReservation c q w1 = (None, w2) \<and> reserved v (pod_ipReservation q) w2 \<and>
     \<not> reserved v (pod_ipReservation p) w2"
proof -
  obtain w1 where 1: "createOrUpdateIPReservation c p w = (None, w1)" "reserved v (pod_ipReservation p) w1"
    using pod_reserver.reserve_ok [OF h ips(1), of w] by blast
  obtain w2 where 2: "createOrUpdateIPReservation c q w1 = (None, w2)" "reserved v (pod_ipReservation q) w2"
    using pod_reserver.reserve_ok [OF h ips(2), of w1] by blast
  have "om_Name (ipr_Meta (pod_ipReservation p)) = om_Name (ipr_Meta (pod_ipReservation q))"
    using joined by (simp add: pod_ipReservation_def)
  moreover have "ReservedCIDRs (pod_ipReservation p) \<noteq> ReservedCIDRs (pod_ipReservation q)"
    using ips(3) by (simp add: pod_ipReservation_def)
  ultimately have "\<not> reserved v (pod_ipReservation p) w2" using 2(2) by (auto simp: reserved_def split: option.splits)
  with 1 2 show ?thesis by blast
qed

lemma joined_names_collide:
  "\<exists>(p :: Pod) (q :: Pod). om_Namespace (pod_Meta p) \<noteq> om_Namespace (pod_Meta q) \<and> pod_PodIP p \<noteq> [] \<and> pod_PodIP q \<noteq> [] \<and>
     pod_PodIP p \<noteq> pod_PodIP q \<and>
     om_Namespace (pod_Meta p) @ ''-'' @ om_Name (pod_Meta p) = om_Namespace (pod_Meta q) @ ''-'' @ om_Name (pod_Meta q)"
proof -
  let ?p = "\<lparr>pod_Meta = zero_meta\<lparr>om_Namespace := ''a'', om_Name := ''b-0''\<rparr>, pod_Affinity = None,
    pod_NodeName = ''n1'', pod_PodIP = ''10.0.0.1'', pod_rest = []\<rparr>"
  let ?q = "\<lparr>pod_Meta = zero_meta\<lparr>om_Namespace := ''a-b'', om_Name := ''0''\<rparr>, pod_Affinity = None,
    pod_NodeName = ''n2'', pod_PodIP = ''10.0.0.2'', pod_rest = []\<rparr>"
  show ?thesis by (rule exI [of _ ?p], rule exI [of _ ?q]) simp
qed

text \<open>
  C38. Two names are not unique. A StatefulSet and a VirtualMachineInstance of one name and namespace share
  the PersistentPodState: after the reconciles of the StatefulSet have recorded all its pods with an
  address and a node, one reconcile of the instance, whose path has no guard on the size, replaces the status,
  and only the entry of the instance is left in the object, which still names the StatefulSet as its target. And
  reservations are cluster scoped, with names that join namespace and name by the dash that
  both may contain: for any two pods whose joined names are the same (there are such pods in different
  namespaces), reserving the address of the second takes the reservation away from the first.
\<close>

theorem name_collisions:
  assumes h: "healthy c v" and sel: "sts_Selector sts = Some l"
    and new: "v_PPS v w (om_Namespace (sts_Meta sts), om_Name (sts_Meta sts)) = None"
    and has: "sts_has_record v sts l w"
    and vmi: "om_Namespace (vmi_Meta vmi) = om_Namespace (sts_Meta sts)" "om_Name (vmi_Meta vmi) = om_Name (sts_Meta sts)"
      "vmi_Interfaces vmi = ip # ips" "ip \<noteq> []" "om_OwnerReferences (vmi_Meta vmi) = own # owns"
    and w1: "StatefulSetAutoGeneratePersistentPodState c sts w = (r1, w1)"
    and w2: "StatefulSetAutoGeneratePersistentPodState c sts w1 = (r2, w2)"
    and w3: "VmiAutoGeneratePersistentPodState c vmi w2 = (r3, w3)"
  shows "(\<exists>kept left. v_PPS v w2 (om_Namespace (sts_Meta sts), om_Name (sts_Meta sts)) = Some kept \<and>
       (\<forall>pod \<in> set (v_Pods v w (om_Namespace (sts_Meta sts)) l). recordable pod \<longrightarrow>
          go_get zero_PodState (PodStates (pps_Status kept)) (om_Name (pod_Meta pod)) = pod_podState pod) \<and>
       v_PPS v w3 (om_Namespace (sts_Meta sts), om_Name (sts_Meta sts)) = Some left \<and>
       tr_Kind (spec_TargetReference (pps_Spec left)) = ''StatefulSet'' \<and>
       (\<forall>n. go_has (PodStates (pps_Status left)) n \<longleftrightarrow> n = om_Name (vmi_Meta vmi))) \<and>
     (\<forall>p q x. om_Namespace (pod_Meta p) @ ''-'' @ om_Name (pod_Meta p) = om_Namespace (pod_Meta q) @ ''-'' @ om_Name (pod_Meta q) \<longrightarrow>
       pod_PodIP p \<noteq> [] \<longrightarrow> pod_PodIP q \<noteq> [] \<longrightarrow> pod_PodIP p \<noteq> pod_PodIP q \<longrightarrow>
       (\<exists>x1 x2. createOrUpdateIPReservation c p x = (None, x1) \<and> reserved v (pod_ipReservation p) x1 \<and>
          createOrUpdateIPReservation c q x1 = (None, x2) \<and> reserved v (pod_ipReservation q) x2 \<and>
          \<not> reserved v (pod_ipReservation p) x2)) \<and>
     (\<exists>(p :: Pod) (q :: Pod). om_Namespace (pod_Meta p) \<noteq> om_Namespace (pod_Meta q) \<and> pod_PodIP p \<noteq> [] \<and> pod_PodIP q \<noteq> [] \<and>
       pod_PodIP p \<noteq> pod_PodIP q \<and>
       om_Namespace (pod_Meta p) @ ''-'' @ om_Name (pod_Meta p) = om_Namespace (pod_Meta q) @ ''-'' @ om_Name (pod_Meta q))"
    (is "?shared \<and> ?moves \<and> _")
proof (intro conjI)
  let ?k = "(om_Namespace (sts_Meta sts), om_Name (sts_Meta sts))"
  from sts_two_runs_publish [OF h sel new has w1 w2] obtain kept where
    kept: "v_PPS v w2 ?k = Some kept" "pps_Spec kept = pps_Spec (sts_recorded v sts l w)"
      "pps_Status kept = pps_Status (sts_recorded v sts l w)" by blast
  have k: "pps_key (vmi_persistentPodState vmi own ip) = ?k"
    using vmi(1,2) by (simp add: vmi_persistentPodState_def pps_key_def)
  have "published (\<lambda>_ _. False) v (vmi_persistentPodState vmi own ip) w2 w3"
    using vmi_run [OF h vmi(3-5), where w = w2] w3 by auto
  then obtain left where left: "v_PPS v w3 ?k = Some left"
    "pps_Status left = pps_Status (vmi_persistentPodState vmi own ip)" "pps_Spec left = pps_Spec kept"
    by (cases rule: published_cases) (auto simp: k kept)
  have "tr_Kind (spec_TargetReference (pps_Spec left)) = ''StatefulSet''"
    by (simp add: left(3) kept(2) sts_recorded_def sts_persistentPodState_def)
  moreover have "go_has (PodStates (pps_Status left)) n \<longleftrightarrow> n = om_Name (vmi_Meta vmi)" for n
    by (simp add: left(2) vmi_persistentPodState_def go_has_def)
  ultimately show ?shared using kept(1,3) left(1) sts_recorded_pod [OF h] by auto
  show ?moves using reservation_moves [OF h] by blast
qed (rule joined_names_collide)

section \<open>Routing\<close>

lemma Reconcile_vmi_request:
  "Reconcile cfg c (vmi_request vmi) w = reconcile_vmi_request cfg c (vmi_request vmi) w"
  using Contains_vmi_qName [of vmi] by (simp add: Reconcile_def vmi_request_def)

lemma Reconcile_sts_request:
  "CHR ''#'' \<notin> set (om_Name (sts_Meta sts)) \<Longrightarrow>
     Reconcile cfg c (sts_request sts) w = reconcile_sts_request cfg c (sts_request sts) w"
  using Contains_sts_qName [of sts] not_Contains_sts_qName [of sts]
  by (simp add: Reconcile_def sts_request_def)

lemma Reconcile_sts_stored:
  assumes "EnableStatefulSetPersistence cfg" and "CHR ''#'' \<notin> set (om_Name (sts_Meta sts))"
    and "GetSTS c (om_Namespace (sts_Meta sts)) (om_Name (sts_Meta sts)) w = (Inr stored, w1)"
  shows "Reconcile cfg c (sts_request sts) w = StatefulSetAutoGeneratePersistentPodState c stored w1"
  using assms unfolding Reconcile_sts_request [OF assms(2)]
  by (simp add: reconcile_sts_request_def sts_request_def Split_sts_qName)

text \<open>
  C39. A request reaches the object it was enqueued for and nothing else, for both kinds: the reconciler
  takes the name apart, never takes a request of one kind for one of the other, reads the object of
  that namespace and name, and hands what it read to the path of its kind. Any error of that read, a
  transient one included, ends the request with success: nothing is recorded and the request is not
  retried.
\<close>

theorem reconcile_routes:
  assumes "EnableVMIPersistence cfg" and "EnableStatefulSetPersistence cfg"
    and "CHR ''#'' \<notin> set (om_Name (vmi_Meta vmi))" and "CHR ''#'' \<notin> set (om_Name (sts_Meta sts))"
  shows "Reconcile cfg c (vmi_request vmi) w =
       (case GetVMI c (om_Namespace (vmi_Meta vmi)) (om_Name (vmi_Meta vmi)) w of
          (Inl err, w1) \<Rightarrow> (Returned None, w1)
        | (Inr stored, w1) \<Rightarrow> VmiAutoGeneratePersistentPodState c stored w1) \<and>
     Reconcile cfg c (sts_request sts) w =
       (case GetSTS c (om_Namespace (sts_Meta sts)) (om_Name (sts_Meta sts)) w of
          (Inl err, w1) \<Rightarrow> (Returned None, w1)
        | (Inr stored, w1) \<Rightarrow> StatefulSetAutoGeneratePersistentPodState c stored w1)"
  using assms unfolding Reconcile_vmi_request Reconcile_sts_request [OF assms(4)]
  by (simp add: reconcile_vmi_request_def vmi_request_def Split_vmi_qName
      reconcile_sts_request_def sts_request_def Split_sts_qName)

text \<open>
  With both switches off a reconcile makes no call at all: the cluster state is returned
  unchanged whatever the client would do.
\<close>

lemma reconcile_disabled:
  assumes "\<not> EnableVMIPersistence cfg" and "\<not> EnableStatefulSetPersistence cfg"
  shows "Reconcile cfg c req w = (Returned None, w)"
  using assms
  by (simp add: Reconcile_def reconcile_vmi_request_def reconcile_sts_request_def
      reconcile_by_name_sts_def)

text \<open>
  Errors on the objects the reconciler writes are reported: a failing read of the reservation
  (other than not found) is the result of the VirtualMachineInstance path, which then reads and
  writes nothing more.
\<close>

lemma vmi_reports_reservation_error:
  assumes "vmi_Interfaces vmi = ip # ips" and "ip \<noteq> []"
    and "GetIPR c (om_Name (ipr_Meta (vmi_ipReservation vmi ip))) w = (Inl err, w1)"
    and "\<not> IsNotFound err"
  shows "VmiAutoGeneratePersistentPodState c vmi w = (Returned (Some err), w1)"
  using assms vmi_reserver.reserve_read_error [where x = "(vmi, ip)" and c = c and w = w]
  by (simp add: VmiAutoGeneratePersistentPodState_def)

end
