(* ===== verification/Mutating_Handler.thy ===== *)
theory Mutating_Handler
  imports Cluster_Client Features
begin

text \<open>
  \<^verbatim>\<open>internal/webhook/pod/mutating/mutating_handler.go\<close>: the admission webhook that gives a pod
  or a VirtualMachineInstance that is being created the address and the node recorded for its
  name. Parameters: the client (the webhook reads PersistentPodStates), the decoder of
  controller-runtime (\<open>decode\<close>, of the request's raw object), \<^verbatim>\<open>encoding/json\<close>'s encoder
  (\<open>marshal\<close>) and controller-runtime's \<^verbatim>\<open>PatchResponseFromRaw\<close> (\<open>PatchRaw\<close>).

  The VirtualMachineInstance and the pod path hold the same code twice; the locale \<open>pinner\<close>
  states what both do to the object, against the reference definition \<open>pin\<close>.
\<close>

section \<open>Requests and responses\<close>

record admission_request =
  ar_SubResource :: string
  ar_Resource :: string
  ar_Operation :: string
  ar_Namespace :: string
  ar_Object :: string

datatype 'p admission_response =
    Allowed
  | Errored nat string
  | Patched 'p

definition shouldIgnoreIfNotVMIOrPod :: "admission_request \<Rightarrow> bool" where
  "shouldIgnoreIfNotVMIOrPod req =
     (if length (ar_SubResource req) \<noteq> 0 then True
      else ar_Resource req \<noteq> ''virtualmachineinstances'' \<and> ar_Resource req \<noteq> ''pods'')"

section \<open>The StatefulSet of a pod\<close>

fun first_StatefulSet_owner :: "owner_reference list \<Rightarrow> string option" where
  "first_StatefulSet_owner [] = None"
| "first_StatefulSet_owner (r # rs) =
     (if or_Kind r = ''StatefulSet'' then Some (or_Name r) else first_StatefulSet_owner rs)"

fun isNumeric :: "string \<Rightarrow> bool" where
  "isNumeric [] = True"
| "isNumeric (x # s) = (if \<not> is_digit x then False else isNumeric s)"

definition getStatefulSetNameFromPod :: "Pod \<Rightarrow> string" where
  "getStatefulSetNameFromPod pod =
     (case first_StatefulSet_owner (om_OwnerReferences (pod_Meta pod)) of
        Some n \<Rightarrow> n
      | None \<Rightarrow>
          (let name = om_Name (pod_Meta pod) in
           if name \<noteq> [] then
             (case LastIndex name (CHR ''-'') of
                None \<Rightarrow> []
              | Some lastDashIndex \<Rightarrow>
                  if lastDashIndex > 0 then
                    (let suffix = drop (Suc lastDashIndex) name in
                     if isNumeric suffix then take lastDashIndex name else [])
                  else [])
           else []))"

section \<open>Creation\<close>

definition ipAddrs_annotation :: string where
  "ipAddrs_annotation = ''cni.projectcalico.org/ipAddrs''"

definition hostname_key :: string where
  "hostname_key = ''kubernetes.io/hostname''"

definition hostname_term :: "string \<Rightarrow> NodeSelectorTerm" where
  "hostname_term node =
     \<lparr>MatchExpressions = [\<lparr>nsr_Key = hostname_key, nsr_Operator = ''In'', nsr_Values = [node]\<rparr>],
      nst_rest = []\<rparr>"

definition quoted_list :: "string \<Rightarrow> string" where
  "quoted_list ip = ''['' @ [CHR 0x22] @ ip @ [CHR 0x22] @ '']''"

text \<open>\<^verbatim>\<open>if obj.Annotations == nil\<close> \<open>\<dots>\<close> \<^verbatim>\<open>make(map[string]string)\<close>\<close>

definition init_annotations :: "object_meta \<Rightarrow> object_meta" where
  "init_annotations m =
     (if om_Annotations m = None then m\<lparr>om_Annotations := go_make\<rparr> else m)"

text \<open>
  The store of the address into the annotations, which \<^const>\<open>init_annotations\<close> has made.
\<close>

definition vmi_pin_ip :: "PodState \<Rightarrow> VirtualMachineInstance \<Rightarrow> VirtualMachineInstance" where
  "vmi_pin_ip st obj =
     (if ps_PodIP st \<noteq> [] then
        (case go_set ipAddrs_annotation (quoted_list (ps_PodIP st)) (om_Annotations (vmi_Meta obj)) of
           None \<Rightarrow> obj
         | Some a \<Rightarrow> obj\<lparr>vmi_Meta := (vmi_Meta obj)\<lparr>om_Annotations := a\<rparr>\<rparr>)
      else obj)"

definition vmi_pin_node :: "PodState \<Rightarrow> VirtualMachineInstance \<Rightarrow> VirtualMachineInstance" where
  "vmi_pin_node st obj =
     (if ps_NodeName st \<noteq> [] then
        (let aff = (case vmi_Affinity obj of None \<Rightarrow> zero_Affinity | Some a \<Rightarrow> a);
             na = (case aff_NodeAffinity aff of None \<Rightarrow> zero_NodeAffinity | Some n \<Rightarrow> n);
             req = (case RequiredDuringScheduling na of
                      None \<Rightarrow> \<lparr>NodeSelectorTerms = []\<rparr> | Some r \<Rightarrow> r)
         in obj\<lparr>vmi_Affinity := Some (aff\<lparr>aff_NodeAffinity := Some (na\<lparr>RequiredDuringScheduling :=
              Some (req\<lparr>NodeSelectorTerms := [hostname_term (ps_NodeName st)]\<rparr>)\<rparr>)\<rparr>)\<rparr>)
      else obj)"

definition handleVMICreate ::
  "'w client \<Rightarrow> VirtualMachineInstance \<Rightarrow> 'w \<Rightarrow> (go_error \<times> VirtualMachineInstance) \<times> 'w" where
  "handleVMICreate c obj w =
     (let obj = obj\<lparr>vmi_Meta := init_annotations (vmi_Meta obj)\<rparr> in
      case GetPPS c (om_Namespace (vmi_Meta obj)) (om_Name (vmi_Meta obj)) w of
        (Inl err, w1) \<Rightarrow> ((None, obj), w1)
      | (Inr pps, w1) \<Rightarrow>
          (let st = go_get zero_PodState (PodStates (pps_Status pps)) (om_Name (vmi_Meta obj))
           in ((None, vmi_pin_node st (vmi_pin_ip st obj)), w1)))"

definition handleVMIUpdate ::
  "'w client \<Rightarrow> VirtualMachineInstance \<Rightarrow> 'w \<Rightarrow> (go_error \<times> VirtualMachineInstance) \<times> 'w" where
  "handleVMIUpdate c obj w = ((None, obj), w)"

definition pod_pin_ip :: "PodState \<Rightarrow> Pod \<Rightarrow> Pod" where
  "pod_pin_ip st obj =
     (if ps_PodIP st \<noteq> [] then
        (case go_set ipAddrs_annotation (quoted_list (ps_PodIP st)) (om_Annotations (pod_Meta obj)) of
           None \<Rightarrow> obj
         | Some a \<Rightarrow> obj\<lparr>pod_Meta := (pod_Meta obj)\<lparr>om_Annotations := a\<rparr>\<rparr>)
      else obj)"

definition pod_pin_node :: "PodState \<Rightarrow> Pod \<Rightarrow> Pod" where
  "pod_pin_node st obj =
     (if ps_NodeName st \<noteq> [] then
        (let aff = (case pod_Affinity obj of None \<Rightarrow> zero_Affinity | Some a \<Rightarrow> a);
             na = (case aff_NodeAffinity aff of None \<Rightarrow> zero_NodeAffinity | Some n \<Rightarrow> n);
             req = (case RequiredDuringScheduling na of
                      None \<Rightarrow> \<lparr>NodeSelectorTerms = []\<rparr> | Some r \<Rightarrow> r)
         in obj\<lparr>pod_Affinity := Some (aff\<lparr>aff_NodeAffinity := Some (na\<lparr>RequiredDuringScheduling :=
              Some (req\<lparr>NodeSelectorTerms := [hostname_term (ps_NodeName st)]\<rparr>)\<rparr>)\<rparr>)\<rparr>)
      else obj)"

definition handlePodCreate :: "'w client \<Rightarrow> Pod \<Rightarrow> 'w \<Rightarrow> (go_error \<times> Pod) \<times> 'w" where
  "handlePodCreate c obj w =
     (let obj = obj\<lparr>pod_Meta := init_annotations (pod_Meta obj)\<rparr>;
          stsName = getStatefulSetNameFromPod obj in
      if stsName = [] then ((None, obj), w)
      else
        (case GetPPS c (om_Namespace (pod_Meta obj)) stsName w of
           (Inl err, w1) \<Rightarrow> ((None, obj), w1)
         | (Inr pps, w1) \<Rightarrow>
             (let st = go_get zero_PodState (PodStates (pps_Status pps)) (om_Name (pod_Meta obj))
              in ((None, pod_pin_node st (pod_pin_ip st obj)), w1))))"

definition handlePodUpdate :: "'w client \<Rightarrow> Pod \<Rightarrow> 'w \<Rightarrow> (go_error \<times> Pod) \<times> 'w" where
  "handlePodUpdate c obj w = ((None, obj), w)"

section \<open>The handlers\<close>

text \<open>
  \<^verbatim>\<open>http.StatusBadRequest\<close> and \<^verbatim>\<open>http.StatusInternalServerError\<close>. The error text of an API
  error plays no role in the response and is left empty.
\<close>

definition StatusBadRequest :: nat where
  "StatusBadRequest = 400"

definition StatusInternalServerError :: nat where
  "StatusInternalServerError = 500"

text \<open>The tail of both handlers: compare with the clone, encode both, answer with the patch.\<close>

definition patch_response ::
  "('o \<Rightarrow> string + string) \<Rightarrow> (string \<Rightarrow> string \<Rightarrow> 'p admission_response) \<Rightarrow> 'o \<Rightarrow> 'o \<Rightarrow>
   'p admission_response" where
  "patch_response marshal PatchRaw clone obj =
     (if obj = clone then Allowed
      else (case marshal obj of
              Inl err \<Rightarrow> Errored StatusInternalServerError err
            | Inr marshaled \<Rightarrow>
                (case marshal clone of
                   Inl err \<Rightarrow> Errored StatusInternalServerError err
                 | Inr original \<Rightarrow> PatchRaw original marshaled)))"

definition handleVMI ::
  "'w client \<Rightarrow> (string \<Rightarrow> string + VirtualMachineInstance) \<Rightarrow>
   (VirtualMachineInstance \<Rightarrow> string + string) \<Rightarrow> (string \<Rightarrow> string \<Rightarrow> 'p admission_response) \<Rightarrow>
   admission_request \<Rightarrow> 'w \<Rightarrow> 'p admission_response \<times> 'w" where
  "handleVMI c decode marshal PatchRaw req w =
     (case decode (ar_Object req) of
        Inl err \<Rightarrow> (Errored StatusBadRequest err, w)
      | Inr clone \<Rightarrow>
          (let isNamespaceEmpty = (om_Namespace (vmi_Meta clone) = []);
               obj = (if isNamespaceEmpty
                      then clone\<lparr>vmi_Meta := (vmi_Meta clone)\<lparr>om_Namespace := ar_Namespace req\<rparr>\<rparr>
                      else clone)
           in if ar_Operation req \<noteq> ''CREATE'' \<and> ar_Operation req \<noteq> ''UPDATE'' then (Allowed, w)
              else (case (if ar_Operation req = ''CREATE'' then handleVMICreate c obj w
                          else handleVMIUpdate c obj w) of
                      ((Some err, obj), w1) \<Rightarrow> (Errored StatusInternalServerError [], w1)
                    | ((None, obj), w1) \<Rightarrow>
                        (let obj = (if isNamespaceEmpty
                                    then obj\<lparr>vmi_Meta := (vmi_Meta obj)\<lparr>om_Namespace := []\<rparr>\<rparr>
                                    else obj)
                         in (patch_response marshal PatchRaw clone obj, w1)))))"

definition handlePod ::
  "'w client \<Rightarrow> (string \<Rightarrow> string + Pod) \<Rightarrow> (Pod \<Rightarrow> string + string) \<Rightarrow>
   (string \<Rightarrow> string \<Rightarrow> 'p admission_response) \<Rightarrow> admission_request \<Rightarrow> 'w \<Rightarrow>
   'p admission_response \<times> 'w" where
  "handlePod c decode marshal PatchRaw req w =
     (case decode (ar_Object req) of
        Inl err \<Rightarrow> (Errored StatusBadRequest err, w)
      | Inr clone \<Rightarrow>
          (let isNamespaceEmpty = (om_Namespace (pod_Meta clone) = []);
               obj = (if isNamespaceEmpty
                      then clone\<lparr>pod_Meta := (pod_Meta clone)\<lparr>om_Namespace := ar_Namespace req\<rparr>\<rparr>
                      else clone)
           in if ar_Operation req \<noteq> ''CREATE'' \<and> ar_Operation req \<noteq> ''UPDATE'' then (Allowed, w)
              else (case (if ar_Operation req = ''CREATE'' then handlePodCreate c obj w
                          else handlePodUpdate c obj w) of
                      ((Some err, obj), w1) \<Rightarrow> (Errored StatusInternalServerError [], w1)
                    | ((None, obj), w1) \<Rightarrow>
                        (let obj = (if isNamespaceEmpty
                                    then obj\<lparr>pod_Meta := (pod_Meta obj)\<lparr>om_Namespace := []\<rparr>\<rparr>
                                    else obj)
                         in (patch_response marshal PatchRaw clone obj, w1)))))"

text \<open>The codecs the webhook is built with, for both kinds.\<close>

record 'p codec =
  decodeVMI :: "string \<Rightarrow> string + VirtualMachineInstance"
  decodePod :: "string \<Rightarrow> string + Pod"
  marshalVMI :: "VirtualMachineInstance \<Rightarrow> string + string"
  marshalPod :: "Pod \<Rightarrow> string + string"
  PatchResponseFromRaw :: "string \<Rightarrow> string \<Rightarrow> 'p admission_response"

definition Handle ::
  "PersistenceConfig \<Rightarrow> 'w client \<Rightarrow> 'p codec \<Rightarrow> admission_request \<Rightarrow> 'w \<Rightarrow>
   'p admission_response \<times> 'w" where
  "Handle cfg c cd req w =
     (if shouldIgnoreIfNotVMIOrPod req then (Allowed, w)
      else if ar_Resource req = ''virtualmachineinstances'' then
        (if \<not> EnableVMIPersistence cfg then (Allowed, w)
         else handleVMI c (decodeVMI cd) (marshalVMI cd) (PatchResponseFromRaw cd) req w)
      else if ar_Resource req = ''pods'' then
        (if \<not> EnableStatefulSetPersistence cfg then (Allowed, w)
         else handlePod c (decodePod cd) (marshalPod cd) (PatchResponseFromRaw cd) req w)
      else (Allowed, w))"


section \<open>Pinning as a reference definition\<close>

definition pin_meta :: "PodState \<Rightarrow> object_meta \<Rightarrow> object_meta" where
  "pin_meta st m =
     m\<lparr>om_Annotations :=
       (let a = (case om_Annotations m of None \<Rightarrow> fmempty | Some f \<Rightarrow> f) in
        if ps_PodIP st \<noteq> [] then Some (fmupd ipAddrs_annotation (quoted_list (ps_PodIP st)) a)
        else Some a)\<rparr>"

definition pin_affinity :: "PodState \<Rightarrow> Affinity option \<Rightarrow> Affinity option" where
  "pin_affinity st a =
     (if ps_NodeName st = [] then a
      else (let aff = (case a of None \<Rightarrow> zero_Affinity | Some x \<Rightarrow> x);
                na = (case aff_NodeAffinity aff of None \<Rightarrow> zero_NodeAffinity | Some n \<Rightarrow> n)
            in Some (aff\<lparr>aff_NodeAffinity := Some (na\<lparr>RequiredDuringScheduling :=
                 Some \<lparr>NodeSelectorTerms = [hostname_term (ps_NodeName st)]\<rparr>\<rparr>)\<rparr>)))"

definition required_terms :: "Affinity option \<Rightarrow> NodeSelectorTerm list option" where
  "required_terms a =
     Option.bind a (\<lambda>aff. Option.bind (aff_NodeAffinity aff) (\<lambda>na.
       map_option NodeSelectorTerms (RequiredDuringScheduling na)))"

text \<open>
  The annotation under a key, absent or present, and what of an affinity is not the required node
  terms. Two pods that differ at most in the annotation of the address and in those terms.
\<close>

definition annotation_at :: "object_meta \<Rightarrow> string \<Rightarrow> string option" where
  "annotation_at m k = (case om_Annotations m of None \<Rightarrow> None | Some a \<Rightarrow> fmlookup a k)"

definition other_affinity :: "Affinity option \<Rightarrow> opaque \<times> opaque" where
  "other_affinity a =
     (let aff = (case a of None \<Rightarrow> zero_Affinity | Some x \<Rightarrow> x);
          na = (case aff_NodeAffinity aff of None \<Rightarrow> zero_NodeAffinity | Some n \<Rightarrow> n)
      in (aff_rest aff, na_rest na))"

definition same_but_pins :: "Pod \<Rightarrow> Pod \<Rightarrow> bool" where
  "same_but_pins x y \<longleftrightarrow>
     y = x\<lparr>pod_Meta := (pod_Meta x)\<lparr>om_Annotations := om_Annotations (pod_Meta y)\<rparr>, pod_Affinity := pod_Affinity y\<rparr> \<and>
     (\<forall>k. k \<noteq> ipAddrs_annotation \<longrightarrow> annotation_at (pod_Meta y) k = annotation_at (pod_Meta x) k) \<and>
     other_affinity (pod_Affinity y) = other_affinity (pod_Affinity x)"

lemma init_annotations_eq: "init_annotations m = pin_meta zero_PodState m"
  by (cases "om_Annotations m") (simp_all add: init_annotations_def pin_meta_def zero_PodState_def go_make_def)

lemma pin_meta_frame [simp]:
  "om_Name (pin_meta st m) = om_Name m" "om_Namespace (pin_meta st m) = om_Namespace m"
  "om_UID (pin_meta st m) = om_UID m" "om_Labels (pin_meta st m) = om_Labels m"
  "om_OwnerReferences (pin_meta st m) = om_OwnerReferences m" "om_rest (pin_meta st m) = om_rest m"
  by (simp_all add: pin_meta_def)

lemma pin_meta_annotation:
  "go_get z (om_Annotations (pin_meta st m)) k =
     (if k = ipAddrs_annotation \<and> ps_PodIP st \<noteq> [] then quoted_list (ps_PodIP st)
      else go_get z (om_Annotations m) k)"
  by (auto simp: pin_meta_def Let_def go_get_def split: option.splits)

lemma pin_meta_only_annotation:
  "pin_meta st m = m\<lparr>om_Annotations := om_Annotations (pin_meta st m)\<rparr>"
  "om_Annotations (pin_meta st m) \<noteq> None"
  "k \<noteq> ipAddrs_annotation \<Longrightarrow> annotation_at (pin_meta st m) k = annotation_at m k"
  by (auto simp: pin_meta_def annotation_at_def Let_def split: option.splits)

lemma pin_meta_idem: "pin_meta st (pin_meta st m) = pin_meta st m"
  by (auto simp: pin_meta_def Let_def split: option.splits)

lemma pin_meta_after_init: "pin_meta st (pin_meta zero_PodState m) = pin_meta st m"
  by (auto simp: pin_meta_def Let_def zero_PodState_def split: option.splits)

lemma pin_affinity_terms:
  "ps_NodeName st \<noteq> [] \<Longrightarrow>
     required_terms (pin_affinity st a) = Some [hostname_term (ps_NodeName st)]"
  by (simp add: pin_affinity_def required_terms_def Let_def)

lemma pin_affinity_only_terms:
  "other_affinity (pin_affinity st a) = other_affinity a"
  "pin_affinity st a = a \<or> required_terms (pin_affinity st a) = Some [hostname_term (ps_NodeName st)]"
  by (auto simp: pin_affinity_def other_affinity_def required_terms_def Let_def)

lemma pin_affinity_idem: "pin_affinity st (pin_affinity st a) = pin_affinity st a"
  by (simp add: pin_affinity_def Let_def)

lemma pin_affinity_zero [simp]: "pin_affinity zero_PodState a = a"
  by (simp add: pin_affinity_def zero_PodState_def)

text \<open>The state recorded for the object, the zero state where there is no record.\<close>

definition recorded_state ::
  "'w client \<Rightarrow> string \<Rightarrow> string option \<Rightarrow> string \<Rightarrow> 'w \<Rightarrow> PodState \<times> 'w" where
  "recorded_state c ns key name w =
     (case key of None \<Rightarrow> (zero_PodState, w)
      | Some k \<Rightarrow>
          (case GetPPS c ns k w of
             (Inl err, w1) \<Rightarrow> (zero_PodState, w1)
           | (Inr pps, w1) \<Rightarrow> (go_get zero_PodState (PodStates (pps_Status pps)) name, w1)))"

locale pinner =
  fixes create :: "'w client \<Rightarrow> 'o \<Rightarrow> 'w \<Rightarrow> (go_error \<times> 'o) \<times> 'w"
    and meta :: "'o \<Rightarrow> object_meta"
    and affinity :: "'o \<Rightarrow> Affinity option"
    and put :: "object_meta \<Rightarrow> Affinity option \<Rightarrow> 'o \<Rightarrow> 'o"
    and key :: "'o \<Rightarrow> string option"
  assumes create_law:
    "create c x w =
       (case recorded_state c (om_Namespace (meta x)) (key x) (om_Name (meta x)) w of
          (st, w1) \<Rightarrow> ((None, put (pin_meta st (meta x)) (pin_affinity st (affinity x)) x), w1))"
    and put_get: "meta (put m a x) = m" "affinity (put m a x) = a"
    and put_put: "put m a (put m' a' x) = put m a x"
    and put_same: "put (meta x) (affinity x) x = x"
    and key_stable: "om_Name m = om_Name (meta x) \<Longrightarrow>
      om_OwnerReferences m = om_OwnerReferences (meta x) \<Longrightarrow> key (put m a x) = key x"
begin

lemma create_no_error: "fst (fst (create c x w)) = None"
  by (simp add: create_law split: prod.splits)

lemma create_pins:
  assumes "key x = Some k" and "GetPPS c (om_Namespace (meta x)) k w = (Inr pps, w1)"
    and "go_get zero_PodState (PodStates (pps_Status pps)) (om_Name (meta x)) = st"
  shows "create c x w = ((None, put (pin_meta st (meta x)) (pin_affinity st (affinity x)) x), w1)"
  using assms by (simp add: create_law recorded_state_def)

lemma create_frame:
  assumes "create c x w = ((e, y), w1)"
  shows "\<exists>st. y = put (pin_meta st (meta x)) (pin_affinity st (affinity x)) x"
  using assms by (auto simp: create_law split: prod.splits)

lemma create_unrecorded:
  assumes "recorded_state c (om_Namespace (meta x)) (key x) (om_Name (meta x)) w = (zero_PodState, w1)"
  shows "create c x w = ((None, put (init_annotations (meta x)) (affinity x) x), w1)"
  using assms by (simp add: create_law init_annotations_eq)

text \<open>
  A second admission of the object (the API server may reinvoke a webhook) finds the same state and
  changes nothing more.
\<close>

lemma create_idem:
  assumes "create c x w = ((e, y), w1)"
    and "recorded_state c (om_Namespace (meta x)) (key x) (om_Name (meta x)) w1 =
         (fst (recorded_state c (om_Namespace (meta x)) (key x) (om_Name (meta x)) w), w2)"
  shows "create c y w1 = ((None, y), w2)"
  using assms
  by (auto simp: create_law put_get put_put key_stable pin_meta_idem pin_affinity_idem
      split: prod.splits)

end

section \<open>Both paths pin\<close>

lemma vmi_pin_eq:
  "vmi_pin_node st (vmi_pin_ip st (obj\<lparr>vmi_Meta := init_annotations (vmi_Meta obj)\<rparr>)) =
   obj\<lparr>vmi_Meta := pin_meta st (vmi_Meta obj), vmi_Affinity := pin_affinity st (vmi_Affinity obj)\<rparr>"
  by (cases "om_Annotations (vmi_Meta obj)")
    (auto simp: vmi_pin_node_def vmi_pin_ip_def pin_meta_def pin_affinity_def init_annotations_def
      go_make_def Let_def)

lemma pod_pin_eq:
  "pod_pin_node st (pod_pin_ip st (obj\<lparr>pod_Meta := init_annotations (pod_Meta obj)\<rparr>)) =
   obj\<lparr>pod_Meta := pin_meta st (pod_Meta obj), pod_Affinity := pin_affinity st (pod_Affinity obj)\<rparr>"
  by (cases "om_Annotations (pod_Meta obj)")
    (auto simp: pod_pin_node_def pod_pin_ip_def pin_meta_def pin_affinity_def init_annotations_def
      go_make_def Let_def)

definition pod_key :: "Pod \<Rightarrow> string option" where
  "pod_key pod =
     (let n = getStatefulSetNameFromPod pod in if n = [] then None else Some n)"

lemma getStatefulSetNameFromPod_cong:
  "om_Name (pod_Meta p) = om_Name (pod_Meta q) \<Longrightarrow>
   om_OwnerReferences (pod_Meta p) = om_OwnerReferences (pod_Meta q) \<Longrightarrow>
   getStatefulSetNameFromPod p = getStatefulSetNameFromPod q"
  unfolding getStatefulSetNameFromPod_def by (simp only:)

interpretation vmi_pinner: pinner
  handleVMICreate vmi_Meta vmi_Affinity "\<lambda>m a x. x\<lparr>vmi_Meta := m, vmi_Affinity := a\<rparr>"
  "\<lambda>x. Some (om_Name (vmi_Meta x))"
proof unfold_locales
  fix c :: "'w client" and x w
  show "handleVMICreate c x w =
    (case recorded_state c (om_Namespace (vmi_Meta x)) (Some (om_Name (vmi_Meta x)))
        (om_Name (vmi_Meta x)) w of
       (st, w1) \<Rightarrow> ((None, x\<lparr>vmi_Meta := pin_meta st (vmi_Meta x),
          vmi_Affinity := pin_affinity st (vmi_Affinity x)\<rparr>), w1))"
    by (auto simp: handleVMICreate_def recorded_state_def vmi_pin_eq Let_def init_annotations_eq
        split: call_splits)
       (auto simp: vmi_pin_eq [unfolded init_annotations_eq])
qed auto

interpretation pod_pinner: pinner
  handlePodCreate pod_Meta pod_Affinity "\<lambda>m a x. x\<lparr>pod_Meta := m, pod_Affinity := a\<rparr>" pod_key
proof unfold_locales
  fix c :: "'w client" and x w
  have "getStatefulSetNameFromPod (x\<lparr>pod_Meta := pin_meta st (pod_Meta x)\<rparr>) =
    getStatefulSetNameFromPod x" for st
    by (rule getStatefulSetNameFromPod_cong) simp_all
  then show "handlePodCreate c x w =
    (case recorded_state c (om_Namespace (pod_Meta x)) (pod_key x) (om_Name (pod_Meta x)) w of
       (st, w1) \<Rightarrow> ((None, x\<lparr>pod_Meta := pin_meta st (pod_Meta x),
          pod_Affinity := pin_affinity st (pod_Affinity x)\<rparr>), w1))"
    by (auto simp: handlePodCreate_def recorded_state_def pod_key_def Let_def init_annotations_eq
        split: call_splits)
       (auto simp: pod_pin_eq [unfolded init_annotations_eq])
next
  fix m :: object_meta and x :: Pod and a
  assume "om_Name m = om_Name (pod_Meta x)" "om_OwnerReferences m = om_OwnerReferences (pod_Meta x)"
  then have "getStatefulSetNameFromPod (x\<lparr>pod_Meta := m, pod_Affinity := a\<rparr>) =
    getStatefulSetNameFromPod x"
    by (intro getStatefulSetNameFromPod_cong) simp_all
  then show "pod_key (x\<lparr>pod_Meta := m, pod_Affinity := a\<rparr>) = pod_key x"
    by (simp add: pod_key_def)
qed auto


section \<open>Properties of the webhook\<close>

lemma isNumeric_iff: "isNumeric s \<longleftrightarrow> (\<forall>x \<in> set s. is_digit x)"
  by (induction s) auto

lemma dash_not_digit: "\<not> is_digit (CHR ''-'')"
  by (simp add: is_digit_def)

lemma first_StatefulSet_owner_None:
  "first_StatefulSet_owner rs = None \<longleftrightarrow> (\<forall>r \<in> set rs. or_Kind r \<noteq> ''StatefulSet'')"
  by (induction rs) auto

text \<open>
  A pod without a StatefulSet owner that is named the way the StatefulSet controller names its
  pods, \<open>sts-ordinal\<close>, is attributed to \<open>sts\<close>, whatever dashes \<open>sts\<close> itself contains.
\<close>

lemma statefulset_name_from_pod_name:
  assumes "\<And>r. r \<in> set (om_OwnerReferences (pod_Meta pod)) \<Longrightarrow> or_Kind r \<noteq> ''StatefulSet''"
    and "om_Name (pod_Meta pod) = sts @ ''-'' @ ordinal" and "sts \<noteq> []"
    and "\<And>x. x \<in> set ordinal \<Longrightarrow> is_digit x"
  shows "getStatefulSetNameFromPod pod = sts"
proof -
  have "CHR ''-'' \<notin> set ordinal" using assms(4) dash_not_digit by auto
  then have "LastIndex (om_Name (pod_Meta pod)) (CHR ''-'') = Some (length sts)"
    using assms(2) LastIndex_append by simp
  moreover have "first_StatefulSet_owner (om_OwnerReferences (pod_Meta pod)) = None"
    using assms(1) by (simp add: first_StatefulSet_owner_None)
  ultimately show ?thesis
    using assms(2,3,4) by (simp add: getStatefulSetNameFromPod_def Let_def isNumeric_iff)
qed

text \<open>
  Conversely a name read off the pod's own name is never made up: a pod without a StatefulSet
  owner that is attributed to some StatefulSet is named after it, with a dash and digits.
\<close>

lemma statefulset_name_sound:
  assumes "\<And>r. r \<in> set (om_OwnerReferences (pod_Meta pod)) \<Longrightarrow> or_Kind r \<noteq> ''StatefulSet''"
    and "getStatefulSetNameFromPod pod = sts" and "sts \<noteq> []"
  shows "\<exists>ordinal. om_Name (pod_Meta pod) = sts @ ''-'' @ ordinal \<and> (\<forall>x \<in> set ordinal. is_digit x)"
proof -
  let ?n = "om_Name (pod_Meta pod)"
  have "first_StatefulSet_owner (om_OwnerReferences (pod_Meta pod)) = None"
    using assms(1) by (simp add: first_StatefulSet_owner_None)
  with assms(2,3) obtain i where i: "LastIndex ?n (CHR ''-'') = Some i" "sts = take i ?n"
    "isNumeric (drop (Suc i) ?n)"
    by (auto simp: getStatefulSetNameFromPod_def Let_def split: option.splits if_splits)
  from LastIndex_Some [OF i(1)] have "?n = take i ?n @ CHR ''-'' # drop (Suc i) ?n" by blast
  with i(2,3) show ?thesis by (metis append_Cons append_Nil isNumeric_iff)
qed

lemma pod_create_recorded:
  assumes "getStatefulSetNameFromPod obj = sts" and "sts \<noteq> []"
    and "GetPPS c (om_Namespace (pod_Meta obj)) sts w = (Inr pps, w1)"
    and "go_get zero_PodState (PodStates (pps_Status pps)) (om_Name (pod_Meta obj)) = st"
    and "ps_PodIP st \<noteq> []" and "ps_NodeName st \<noteq> []"
  shows "\<exists>obj'. handlePodCreate c obj w = ((None, obj'), w1) \<and>
     go_get [] (om_Annotations (pod_Meta obj')) ipAddrs_annotation = quoted_list (ps_PodIP st) \<and>
     required_terms (pod_Affinity obj') = Some [hostname_term (ps_NodeName st)]"
proof -
  have "pod_key obj = Some sts" using assms(1,2) by (simp add: pod_key_def)
  then show ?thesis
    using pod_pinner.create_pins [of obj sts c w pps w1 st] assms
    by (simp add: pin_meta_annotation pin_affinity_terms)
qed

text \<open>
  Likewise for a VirtualMachineInstance, whose record is the PersistentPodState of its own name.
\<close>

lemma vmi_create_pins:
  assumes "GetPPS c (om_Namespace (vmi_Meta obj)) (om_Name (vmi_Meta obj)) w = (Inr pps, w1)"
    and "go_get zero_PodState (PodStates (pps_Status pps)) (om_Name (vmi_Meta obj)) = st"
    and "ps_PodIP st \<noteq> []" and "ps_NodeName st \<noteq> []"
  shows "\<exists>obj'. handleVMICreate c obj w = ((None, obj'), w1) \<and>
     go_get [] (om_Annotations (vmi_Meta obj')) ipAddrs_annotation = quoted_list (ps_PodIP st) \<and>
     required_terms (vmi_Affinity obj') = Some [hostname_term (ps_NodeName st)]"
  using vmi_pinner.create_pins [of obj "om_Name (vmi_Meta obj)" c w pps w1 st] assms
  by (simp add: pin_meta_annotation pin_affinity_terms)

lemma handlePodCreate_same:
  assumes "handlePodCreate c obj w = ((err, obj'), w1)"
  shows "same_but_pins obj obj'" and "om_Annotations (pod_Meta obj') \<noteq> None"
    and "pod_Affinity obj' = pod_Affinity obj \<or>
      (\<exists>node. required_terms (pod_Affinity obj') = Some [hostname_term node])"
proof -
  obtain st where o: "obj' = obj\<lparr>pod_Meta := pin_meta st (pod_Meta obj), pod_Affinity := pin_affinity st (pod_Affinity obj)\<rparr>"
    using pod_pinner.create_frame [OF assms] by blast
  show "same_but_pins obj obj'"
    using pin_meta_only_annotation(1) [of st "pod_Meta obj"]
    by (simp add: o same_but_pins_def pin_meta_only_annotation(3) pin_affinity_only_terms(1))
  show "om_Annotations (pod_Meta obj') \<noteq> None" by (simp add: o pin_meta_only_annotation(2) del: not_None_eq)
  show "pod_Affinity obj' = pod_Affinity obj \<or> (\<exists>node. required_terms (pod_Affinity obj') = Some [hostname_term node])"
    using pin_affinity_only_terms(2) [of st "pod_Affinity obj"] by (auto simp: o)
qed

lemma handlePodCreate_names:
  assumes "handlePodCreate c obj w = ((err, obj'), w1)"
  shows "om_Name (pod_Meta obj') = om_Name (pod_Meta obj)" "om_Namespace (pod_Meta obj') = om_Namespace (pod_Meta obj)"
    "om_Labels (pod_Meta obj') = om_Labels (pod_Meta obj)" "om_OwnerReferences (pod_Meta obj') = om_OwnerReferences (pod_Meta obj)"
    "pod_rest obj' = pod_rest obj"
  using pod_pinner.create_frame [OF assms] by auto

text \<open>
  C37. Admission touches the annotation of the address and the required node terms only, whatever the
  client answers. Every other field of the pod is that of the request (its other metadata, owner
  references, finalizers and resource version included, which are the record with the annotations
  replaced), every other annotation is present or absent as it was, a nil map is made, and the rest
  of the affinity is kept: the affinity is the same, or its required terms are one host name. The
  handler never fails the creation.
\<close>

theorem pod_create_frame:
  assumes "handlePodCreate c obj w = ((err, obj'), w1)"
  shows "err = None \<and>
     obj' = obj\<lparr>pod_Meta := (pod_Meta obj)\<lparr>om_Annotations := om_Annotations (pod_Meta obj')\<rparr>,
       pod_Affinity := pod_Affinity obj'\<rparr> \<and>
     om_Annotations (pod_Meta obj') \<noteq> None \<and>
     (\<forall>k. k \<noteq> ipAddrs_annotation \<longrightarrow> annotation_at (pod_Meta obj') k = annotation_at (pod_Meta obj) k) \<and>
     other_affinity (pod_Affinity obj') = other_affinity (pod_Affinity obj) \<and>
     (pod_Affinity obj' = pod_Affinity obj \<or>
       (\<exists>node. required_terms (pod_Affinity obj') = Some [hostname_term node]))"
proof -
  note S = handlePodCreate_same [OF assms]
  have "err = None" using pod_pinner.create_no_error [of c obj w] assms by simp
  with S(2,3) S(1) [unfolded same_but_pins_def] show ?thesis by blast
qed

text \<open>
  Admission is idempotent: if the record has not changed, admitting the mutated pod again
  changes nothing (the API server may call a mutating webhook twice).
\<close>

lemma pod_create_idempotent:
  assumes "handlePodCreate c obj w = ((err, obj'), w1)"
    and "\<And>ns k. GetPPS c ns k w = (fst (GetPPS c ns k w), w)"
  shows "handlePodCreate c obj' w1 = ((None, obj'), w1)"
proof -
  let ?st = "\<lambda>w. recorded_state c (om_Namespace (pod_Meta obj)) (pod_key obj) (om_Name (pod_Meta obj)) w"
  have "snd (GetPPS c ns k w) = w" for ns k
    using assms(2) [of ns k] by (metis snd_conv)
  then have "snd (?st w) = w"
    by (auto simp: recorded_state_def split: call_splits) (metis snd_conv)+
  with assms(1) have "w1 = w" by (auto simp: pod_pinner.create_law split: prod.splits)
  with \<open>snd (?st w) = w\<close> have "?st w1 = (fst (?st w), w1)" by (metis prod.collapse)
  with pod_pinner.create_idem [OF assms(1)] show ?thesis by blast
qed

text \<open>
  An ignored or switched off request is allowed unchanged without any call: subresources, kinds
  other than pods and VirtualMachineInstances, and the kinds whose persistence is disabled.
\<close>

lemma handle_passes_through:
  assumes "ar_SubResource req \<noteq> [] \<or>
       (ar_Resource req \<noteq> ''virtualmachineinstances'' \<and> ar_Resource req \<noteq> ''pods'') \<or>
       (ar_Resource req = ''virtualmachineinstances'' \<and> \<not> EnableVMIPersistence cfg) \<or>
       (ar_Resource req = ''pods'' \<and> \<not> EnableStatefulSetPersistence cfg)"
  shows "Handle cfg c cd req w = (Allowed, w)"
  using assms by (auto simp: Handle_def shouldIgnoreIfNotVMIOrPod_def)

text \<open>
  A pod request that is not a creation is allowed as it is, without any call: updates and
  deletions of a recorded pod are never patched.
\<close>

lemma handle_only_mutates_create:
  assumes "decode (ar_Object req) = Inr pod" and "ar_Operation req \<noteq> ''CREATE''"
  shows "handlePod c decode marshal PatchRaw req w = (Allowed, w)"
  using assms by (auto simp: handlePod_def handlePodUpdate_def patch_response_def Let_def)

text \<open>
  The answer to a pod creation is the comparison of the decoded pod with the pod that
  \<^const>\<open>handlePodCreate\<close> makes of it in the request's namespace, and the namespace itself is
  never part of the patch.
\<close>

lemma handlePod_create_response:
  assumes "decode (ar_Object req) = Inr pod" and "ar_Operation req = ''CREATE''"
    and "ns = (if om_Namespace (pod_Meta pod) = [] then ar_Namespace req else om_Namespace (pod_Meta pod))"
    and "handlePodCreate c (pod\<lparr>pod_Meta := (pod_Meta pod)\<lparr>om_Namespace := ns\<rparr>\<rparr>) w = ((err, obj'), w1)"
  shows "handlePod c decode marshal PatchRaw req w =
     (patch_response marshal PatchRaw pod
        (obj'\<lparr>pod_Meta := (pod_Meta obj')\<lparr>om_Namespace := om_Namespace (pod_Meta pod)\<rparr>\<rparr>), w1)"
proof -
  let ?x = "pod\<lparr>pod_Meta := (pod_Meta pod)\<lparr>om_Namespace := ns\<rparr>\<rparr>"
  have "err = None" using pod_pinner.create_no_error [of c ?x w] assms(4) by simp
  moreover have ns: "om_Namespace (pod_Meta obj') = ns" using handlePodCreate_names(2) [OF assms(4)] by simp
  have same: "obj'\<lparr>pod_Meta := (pod_Meta obj')\<lparr>om_Namespace := n\<rparr>\<rparr> = obj'"
    if "om_Namespace (pod_Meta obj') = n" for n
    using that by (auto intro: Pod.equality object_meta.equality)
  ultimately show ?thesis using assms ns by (auto simp: handlePod_def Let_def same)
qed

lemma getStatefulSetNameFromPod_ns [simp]:
  "getStatefulSetNameFromPod (pod\<lparr>pod_Meta := (pod_Meta pod)\<lparr>om_Namespace := ns\<rparr>\<rparr>) = getStatefulSetNameFromPod pod"
  by (cases "first_StatefulSet_owner (om_OwnerReferences (pod_Meta pod))") (simp_all add: getStatefulSetNameFromPod_def)

text \<open>The namespace put in for the lookup and taken out again plays no role.\<close>

lemma same_but_pins_ns:
  assumes "same_but_pins (x\<lparr>pod_Meta := (pod_Meta x)\<lparr>om_Namespace := ns\<rparr>\<rparr>) y"
  shows "same_but_pins x (y\<lparr>pod_Meta := (pod_Meta y)\<lparr>om_Namespace := om_Namespace (pod_Meta x)\<rparr>\<rparr>)"
proof -
  let ?a = "om_Annotations (pod_Meta y)" and ?f = "pod_Affinity y"
  have y: "y = x\<lparr>pod_Meta := (pod_Meta x)\<lparr>om_Namespace := ns, om_Annotations := ?a\<rparr>, pod_Affinity := ?f\<rparr>"
    using assms unfolding same_but_pins_def by simp
  have "z\<lparr>pod_Meta := (pod_Meta z)\<lparr>om_Namespace := om_Namespace (pod_Meta x)\<rparr>\<rparr> =
      x\<lparr>pod_Meta := (pod_Meta x)\<lparr>om_Annotations := b\<rparr>, pod_Affinity := f\<rparr>"
    if "z = x\<lparr>pod_Meta := (pod_Meta x)\<lparr>om_Namespace := ns, om_Annotations := b\<rparr>, pod_Affinity := f\<rparr>" for z b f
    by (simp add: that)
  note this [OF y]
  moreover have "annotation_at (pod_Meta y) k = annotation_at (pod_Meta x) k" if "k \<noteq> ipAddrs_annotation" for k
    using assms that by (simp add: same_but_pins_def annotation_at_def)
  ultimately show ?thesis
    using assms by (simp add: same_but_pins_def annotation_at_def)
qed

lemma handle_create_recorded:
  assumes "ar_SubResource req = []" and "ar_Resource req = ''pods''" and "ar_Operation req = ''CREATE''"
    and "EnableStatefulSetPersistence cfg" and "decodePod cd (ar_Object req) = Inr pod"
    and "getStatefulSetNameFromPod pod = sts" and "sts \<noteq> []"
    and "GetPPS c (if om_Namespace (pod_Meta pod) = [] then ar_Namespace req else om_Namespace (pod_Meta pod)) sts w =
       (Inr pps, w1)"
    and "go_get zero_PodState (PodStates (pps_Status pps)) (om_Name (pod_Meta pod)) = st"
    and "ps_PodIP st \<noteq> []" and "ps_NodeName st \<noteq> []"
  shows "\<exists>obj'. Handle cfg c cd req w = (patch_response (marshalPod cd) (PatchResponseFromRaw cd) pod obj', w1) \<and>
       same_but_pins pod obj' \<and>
       go_get [] (om_Annotations (pod_Meta obj')) ipAddrs_annotation = quoted_list (ps_PodIP st) \<and>
       required_terms (pod_Affinity obj') = Some [hostname_term (ps_NodeName st)]"
proof -
  let ?ns = "if om_Namespace (pod_Meta pod) = [] then ar_Namespace req else om_Namespace (pod_Meta pod)"
  let ?x = "pod\<lparr>pod_Meta := (pod_Meta pod)\<lparr>om_Namespace := ?ns\<rparr>\<rparr>"
  obtain obj' where o: "handlePodCreate c ?x w = ((None, obj'), w1)"
    "go_get [] (om_Annotations (pod_Meta obj')) ipAddrs_annotation = quoted_list (ps_PodIP st)"
    "required_terms (pod_Affinity obj') = Some [hostname_term (ps_NodeName st)]"
    using pod_create_recorded [of ?x sts c w pps w1 st] assms by auto
  have "Handle cfg c cd req w = handlePod c (decodePod cd) (marshalPod cd) (PatchResponseFromRaw cd) req w"
    using assms(1,2,4) by (simp add: Handle_def shouldIgnoreIfNotVMIOrPod_def)
  also note handlePod_create_response [of "decodePod cd" req pod ?ns c w None obj' w1, OF assms(5,3) HOL.refl o(1)]
  finally show ?thesis
    using o(2,3) same_but_pins_ns [OF handlePodCreate_same(1) [OF o(1)]]
    by (intro exI [of _ "obj'\<lparr>pod_Meta := (pod_Meta obj')\<lparr>om_Namespace := om_Namespace (pod_Meta pod)\<rparr>\<rparr>"]) auto
qed


end
