(* ===== verification/Reference_Cluster.thy ===== *)
theory Reference_Cluster
  imports Reconciler Mutating_Handler
begin

text \<open>
  A small cluster that satisfies the laws of \<^const>\<open>healthy\<close>, and objects to run the program on.
  It shows that the hypotheses of the theorems on the reconciler and on the webhook can hold
  together; no theorem rests on it. A store keeps the objects of each kind; reads filter what a
  server would never hold (an object under another key than its own, two pods of one name).
\<close>

section \<open>The store and its client\<close>

record store =
  st_VMI :: "string \<times> string \<Rightarrow> VirtualMachineInstance option"
  st_STS :: "string \<times> string \<Rightarrow> StatefulSet option"
  st_Pods :: "Pod list"
  st_PPS :: "string \<times> string \<Rightarrow> PersistentPodState option"
  st_IPR :: "string \<Rightarrow> IPReservation option"

fun unique_names :: "Pod list \<Rightarrow> Pod list" where
  "unique_names [] = []"
| "unique_names (p # ps) =
     p # filter (\<lambda>q. om_Name (pod_Meta q) \<noteq> om_Name (pod_Meta p)) (unique_names ps)"

definition st_view :: "store view" where
  "st_view = \<lparr>v_VMI = st_VMI, v_STS = st_STS,
     v_Pods = (\<lambda>w ns l. unique_names (filter (\<lambda>p. om_Namespace (pod_Meta p) = ns) (st_Pods w))),
     v_PPS = (\<lambda>w k. case st_PPS w k of None \<Rightarrow> None | Some p \<Rightarrow> if pps_key p = k then Some p else None),
     v_IPR = (\<lambda>w n. case st_IPR w n of None \<Rightarrow> None
        | Some r \<Rightarrow> if om_Name (ipr_Meta r) = n then Some r else None)\<rparr>"

fun st_retry :: "nat \<Rightarrow> (store \<Rightarrow> go_error \<times> store) \<Rightarrow> store \<Rightarrow> go_error \<times> store" where
  "st_retry 0 f w = f w"
| "st_retry (Suc n) f w =
     (case f w of
        (Some e, w1) \<Rightarrow> if IsConflict e then st_retry n f w1 else (Some e, w1)
      | (None, w1) \<Rightarrow> (None, w1))"

definition st_client :: "store client" where
  "st_client = \<lparr>
     GetVMI = (\<lambda>ns n w. found n (v_VMI st_view w (ns, n)) w),
     GetSTS = (\<lambda>ns n w. found n (v_STS st_view w (ns, n)) w),
     GetPPS = (\<lambda>ns n w. found n (v_PPS st_view w (ns, n)) w),
     GetIPR = (\<lambda>n w. found n (v_IPR st_view w n) w),
     ListPods = (\<lambda>ns l w. (Inr (v_Pods st_view w ns l), w)),
     CreateIPR = (\<lambda>r w. let n = om_Name (ipr_Meta r) in
        case v_IPR st_view w n of
          Some _ \<Rightarrow> (Some (AlreadyExists n), w)
        | None \<Rightarrow> (None, w\<lparr>st_IPR := (st_IPR w)(n \<mapsto> r)\<rparr>)),
     UpdateIPR = (\<lambda>r w. let n = om_Name (ipr_Meta r) in
        case v_IPR st_view w n of
          None \<Rightarrow> (Some (NotFound n), w)
        | Some old \<Rightarrow>
            if om_ResourceVersion (ipr_Meta r) = om_ResourceVersion (ipr_Meta old)
            then (None, w\<lparr>st_IPR := (st_IPR w)(n \<mapsto> r)\<rparr>) else (Some (Conflict n), w)),
     CreatePPS = (\<lambda>p w. case v_PPS st_view w (pps_key p) of
          Some _ \<Rightarrow> (Some (AlreadyExists (om_Name (pps_Meta p))), w)
        | None \<Rightarrow>
            (None, w\<lparr>st_PPS := (st_PPS w)(pps_key p \<mapsto> p\<lparr>pps_Status := zero_Status\<rparr>)\<rparr>)),
     StatusUpdatePPS = (\<lambda>p w. case v_PPS st_view w (pps_key p) of
          None \<Rightarrow> (Some (NotFound (om_Name (pps_Meta p))), w)
        | Some old \<Rightarrow>
            if om_ResourceVersion (pps_Meta p) = om_ResourceVersion (pps_Meta old)
            then (None, w\<lparr>st_PPS := (st_PPS w)(pps_key p \<mapsto> old\<lparr>pps_Status := pps_Status p\<rparr>)\<rparr>)
            else (Some (Conflict (om_Name (pps_Meta p))), w)),
     RetryOnConflict = st_retry 3\<rparr>"

section \<open>It is healthy\<close>

lemma set_unique_names: "set (unique_names ps) \<subseteq> set ps"
  by (induction ps) auto

lemma distinct_unique_names: "distinct (map (\<lambda>p. om_Name (pod_Meta p)) (unique_names ps))"
  by (induction ps) (auto simp: distinct_map inj_on_def)

lemma st_retry_attempts: "attempts f w (st_retry n f w)"
proof (induction n arbitrary: w)
  case 0
  show ?case by (simp add: attempts.last_attempt)
next
  case (Suc n)
  show ?case
  proof (cases "\<exists>e w1. f w = (Some e, w1) \<and> IsConflict e")
    case True
    with Suc show ?thesis by (auto intro: attempts.after_conflict)
  next
    case False
    then have "st_retry (Suc n) f w = f w" by (auto split: prod.splits option.splits)
    then show ?thesis by (metis attempts.last_attempt)
  qed
qed

lemma st_ipr_writes: "ipr_writes_ok st_client st_view"
  unfolding ipr_writes_ok_def
proof (intro conjI allI impI)
  fix r :: IPReservation and w :: store
  assume "v_IPR st_view w (om_Name (ipr_Meta r)) = None"
  then show "\<exists>r' w'. CreateIPR st_client r w = (None, w') \<and> stored_as (ipr_Meta r) (ipr_Meta r') \<and>
     ReservedCIDRs r' = ReservedCIDRs r \<and> workloads_same st_view w w' \<and>
     v_PPS st_view w' = v_PPS st_view w \<and>
     v_IPR st_view w' = (v_IPR st_view w)(om_Name (ipr_Meta r) \<mapsto> r')"
    by (intro exI [of _ r]) (auto simp: st_client_def st_view_def workloads_same_def fun_eq_iff)
next
  fix r old :: IPReservation and w :: store
  assume "v_IPR st_view w (om_Name (ipr_Meta r)) = Some old"
    and "om_ResourceVersion (ipr_Meta r) = om_ResourceVersion (ipr_Meta old)"
  then show "\<exists>r' w'. UpdateIPR st_client r w = (None, w') \<and> stored_as (ipr_Meta r) (ipr_Meta r') \<and>
     ReservedCIDRs r' = ReservedCIDRs r \<and> workloads_same st_view w w' \<and>
     v_PPS st_view w' = v_PPS st_view w \<and>
     v_IPR st_view w' = (v_IPR st_view w)(om_Name (ipr_Meta r) \<mapsto> r')"
    by (intro exI [of _ r]) (auto simp: st_client_def st_view_def workloads_same_def fun_eq_iff)
qed

lemma st_view_PPS_key: "v_PPS st_view w k = Some p \<Longrightarrow> pps_key p = k"
  by (auto simp: st_view_def split: option.splits if_splits)

lemma st_pps_writes: "pps_writes_ok st_client st_view"
  unfolding pps_writes_ok_def
proof (intro conjI allI impI)
  fix p :: PersistentPodState and w :: store
  let ?q = "p\<lparr>pps_Status := zero_Status\<rparr>"
  assume "v_PPS st_view w (pps_key p) = None"
  moreover have "pps_key ?q = pps_key p" by (simp add: pps_key_def)
  ultimately show "\<exists>p' w'. CreatePPS st_client p w = (None, w') \<and> stored_as (pps_Meta p) (pps_Meta p') \<and>
     pps_Spec p' = pps_Spec p \<and> pps_Status p' = zero_Status \<and> workloads_same st_view w w' \<and>
     v_IPR st_view w' = v_IPR st_view w \<and> v_PPS st_view w' = (v_PPS st_view w)(pps_key p \<mapsto> p')"
    by (intro exI [of _ ?q]) (auto simp: st_client_def st_view_def workloads_same_def fun_eq_iff)
next
  fix p old :: PersistentPodState and w :: store
  let ?q = "old\<lparr>pps_Status := pps_Status p\<rparr>"
  assume old: "v_PPS st_view w (pps_key p) = Some old"
    and "om_ResourceVersion (pps_Meta p) = om_ResourceVersion (pps_Meta old)"
  moreover have "pps_key ?q = pps_key p"
    using st_view_PPS_key [OF old] by (simp add: pps_key_def)
  ultimately show "\<exists>p' w'. StatusUpdatePPS st_client p w = (None, w') \<and>
     stored_as (pps_Meta old) (pps_Meta p') \<and> pps_Spec p' = pps_Spec old \<and>
     pps_Status p' = pps_Status p \<and> workloads_same st_view w w' \<and>
     v_IPR st_view w' = v_IPR st_view w \<and> v_PPS st_view w' = (v_PPS st_view w)(pps_key p \<mapsto> p')"
    by (intro exI [of _ ?q]) (auto simp: st_client_def st_view_def workloads_same_def fun_eq_iff)
qed

lemma st_healthy: "healthy st_client st_view"
proof -
  have "reads_ok st_client st_view" by (simp add: reads_ok_def st_client_def)
  moreover have "keys_ok st_view"
    by (auto simp: keys_ok_def st_view_def split: option.splits if_splits)
  moreover have "pods_ok st_view"
    using set_unique_names distinct_unique_names by (fastforce simp: pods_ok_def st_view_def)
  moreover have "retry_ok st_client"
    by (simp add: retry_ok_def st_client_def st_retry_attempts)
  ultimately show ?thesis by (simp add: healthy_def st_ipr_writes st_pps_writes)
qed

section \<open>Objects\<close>

definition a_meta :: "string \<Rightarrow> object_meta" where
  "a_meta n = zero_meta\<lparr>om_Namespace := ''prod'', om_Name := n\<rparr>"

definition a_pod :: "string \<Rightarrow> string \<Rightarrow> string \<Rightarrow> Pod" where
  "a_pod n node ip =
     \<lparr>pod_Meta = a_meta n, pod_Affinity = None, pod_NodeName = node, pod_PodIP = ip, pod_rest = []\<rparr>"

definition web :: StatefulSet where
  "web = \<lparr>sts_Meta = a_meta ''web'', sts_Selector = Some None, sts_rest = []\<rparr>"

definition vm_owner :: owner_reference where
  "vm_owner = \<lparr>or_APIVersion = ''kubevirt.io/v1'', or_Kind = ''VirtualMachine'', or_Name = ''vm'',
     or_UID = ''u'', or_Controller = Some True\<rparr>"

definition vm :: VirtualMachineInstance where
  "vm = \<lparr>vmi_Meta = (a_meta ''vm'')\<lparr>om_OwnerReferences := [vm_owner]\<rparr>, vmi_Affinity = None,
     vmi_NodeName = ''node-1'', vmi_Interfaces = [''10.0.0.9''], vmi_rest = []\<rparr>"

definition cluster :: "Pod list \<Rightarrow> store" where
  "cluster ps = \<lparr>st_VMI = [(''prod'', ''vm'') \<mapsto> vm], st_STS = [(''prod'', ''web'') \<mapsto> web],
     st_Pods = ps, st_PPS = Map.empty, st_IPR = Map.empty\<rparr>"

definition two_pods :: "Pod list" where
  "two_pods = [a_pod ''web-0'' ''node-1'' ''10.0.0.1'', a_pod ''web-1'' ''node-2'' ''10.0.0.2'']"

lemmas example_defs = a_meta_def a_pod_def web_def vm_owner_def vm_def cluster_def two_pods_def
  zero_meta_def

lemma cluster_pods:
  "v_Pods st_view (cluster two_pods) ''prod'' l = two_pods"
  by (simp add: st_view_def example_defs)

lemma web_meta [simp]:
  "om_Namespace (sts_Meta web) = ''prod''" "om_Name (sts_Meta web) = ''web''" "sts_Selector web = Some None"
  by (simp_all add: example_defs)

lemma web_has_record: "sts_has_record st_view web None (cluster two_pods)"
  by (simp add: sts_has_record_def cluster_pods) (simp add: example_defs recordable_def)

section \<open>Witnesses\<close>

theorem sts_reconcile_records_witness:
  "\<exists>w'. StatefulSetAutoGeneratePersistentPodState st_client web (cluster two_pods) = (Returned None, w') \<and>
     sts_reserved st_view web None w' \<and>
     published fewer_states st_view (sts_recorded st_view web None (cluster two_pods)) (cluster two_pods) w'"
  by (rule sts_reconcile_records [OF st_healthy _ web_has_record]) simp

theorem sts_reconcile_settles_witness:
  "let run = (\<lambda>w. snd (StatefulSetAutoGeneratePersistentPodState st_client web w));
       w2 = run (run (cluster two_pods))
   in StatefulSetAutoGeneratePersistentPodState st_client web w2 = (Returned None, w2)"
  unfolding Let_def
  by (rule sts_reconcile_settles [OF st_healthy, where l = None and w = "cluster two_pods"])
    (simp_all add: prod_eq_iff)

text \<open>The cluster once the state of both pods is stored, and once one of them is being rebuilt.\<close>

definition stored_web :: PersistentPodState where
  "stored_web = sts_persistentPodState web (record_pods two_pods fmempty)"

definition recorded_cluster :: "Pod list \<Rightarrow> store" where
  "recorded_cluster ps = (cluster ps)\<lparr>st_PPS := [(''prod'', ''web'') \<mapsto> stored_web]\<rparr>"

lemma recorded_PPS: "v_PPS st_view (recorded_cluster ps) (''prod'', ''web'') = Some stored_web"
  by (simp add: st_view_def recorded_cluster_def stored_web_def pps_key_def sts_persistentPodState_def)

text \<open>Pod 1 is gone and pod 2 has joined: as many pods are recordable as are stored.\<close>

definition replaced_pods :: "Pod list" where
  "replaced_pods =
     [a_pod ''web-0'' ''node-1'' ''10.0.0.1'', a_pod ''web-1'' [] [], a_pod ''web-2'' ''node-3'' ''10.0.0.3'']"

lemma replaced_view: "v_Pods st_view (recorded_cluster replaced_pods) ''prod'' l = replaced_pods"
  by (simp add: st_view_def recorded_cluster_def cluster_def replaced_pods_def a_pod_def a_meta_def)

lemma same_size:
  "\<not> fewer_states stored_web (sts_recorded st_view web None (recorded_cluster replaced_pods))"
  by (simp add: fewer_states_def stored_web_def sts_recorded_def replaced_view)
    (simp add: sts_persistentPodState_def go_len_def replaced_pods_def two_pods_def recordable_def
      a_pod_def a_meta_def fcard_finsert_if)

theorem sts_reconcile_drops_entry_witness:
  "go_has (PodStates (pps_Status stored_web)) ''web-1'' \<and>
   (\<exists>w' new. StatefulSetAutoGeneratePersistentPodState st_client web (recorded_cluster replaced_pods) =
       (Returned None, w') \<and>
     v_PPS st_view w' (''prod'', ''web'') = Some new \<and>
     \<not> go_has (PodStates (pps_Status new)) ''web-1'')"
proof -
  have "sts_has_record st_view web None (recorded_cluster replaced_pods)"
    by (simp add: sts_has_record_def replaced_view) (simp add: replaced_pods_def recordable_def a_pod_def)
  moreover have "om_Name (pod_Meta p) \<noteq> ''web-1''" if "p \<in> set replaced_pods" "recordable p" for p
    using that by (auto simp: replaced_pods_def recordable_def a_pod_def a_meta_def)
  ultimately have "\<exists>w' new. StatefulSetAutoGeneratePersistentPodState st_client web
        (recorded_cluster replaced_pods) = (Returned None, w') \<and>
      v_PPS st_view w' (''prod'', ''web'') = Some new \<and> \<not> go_has (PodStates (pps_Status new)) ''web-1''"
    using sts_reconcile_drops_entry [OF st_healthy, of web None "recorded_cluster replaced_pods" stored_web]
      same_size by (auto simp: recorded_PPS replaced_view)
  then show ?thesis
    by (simp add: stored_web_def sts_persistentPodState_def two_pods_def recordable_def a_pod_def a_meta_def)
qed

theorem vmi_reconcile_settles_witness:
  "let run = (\<lambda>w. snd (VmiAutoGeneratePersistentPodState st_client vm w));
       w2 = run (run (cluster []))
   in reserved st_view (vmi_ipReservation vm ''10.0.0.9'') w2 \<and>
      VmiAutoGeneratePersistentPodState st_client vm w2 = (Returned None, w2)"
  using vmi_reconcile_settles [OF st_healthy _ _ _ prod.collapse [symmetric] prod.collapse [symmetric],
      of vm "''10.0.0.9''" "[]" vm_owner "[]" "cluster []"]
  by (simp add: Let_def) (simp add: vm_def)

text \<open>A VirtualMachineInstance that has the name of the StatefulSet.\<close>

definition vm_web :: VirtualMachineInstance where
  "vm_web = vm\<lparr>vmi_Meta := (a_meta ''web'')\<lparr>om_OwnerReferences := [vm_owner]\<rparr>\<rparr>"

theorem name_collisions_witness:
  "let run = (\<lambda>w. snd (StatefulSetAutoGeneratePersistentPodState st_client web w));
       w2 = run (run (cluster two_pods)); w3 = snd (VmiAutoGeneratePersistentPodState st_client vm_web w2)
   in \<exists>kept left. v_PPS st_view w2 (''prod'', ''web'') = Some kept \<and> v_PPS st_view w3 (''prod'', ''web'') = Some left \<and>
     go_get zero_PodState (PodStates (pps_Status kept)) ''web-1'' = pod_podState (a_pod ''web-1'' ''node-2'' ''10.0.0.2'') \<and>
     \<not> go_has (PodStates (pps_Status left)) ''web-1''"
proof -
  have sel: "sts_Selector web = Some None" by (simp add: web_def)
  have new: "v_PPS st_view (cluster two_pods) (om_Namespace (sts_Meta web), om_Name (sts_Meta web)) = None"
    by (simp add: st_view_def cluster_def)
  have web: "om_Namespace (sts_Meta web) = ''prod''" "om_Name (sts_Meta web) = ''web''"
    by (simp_all add: web_def a_meta_def)
  have has: "sts_has_record st_view web None (cluster two_pods)"
    unfolding sts_has_record_def web cluster_pods by (simp add: two_pods_def recordable_def a_pod_def)
  have m: "om_Namespace (vmi_Meta vm_web) = om_Namespace (sts_Meta web)" "om_Name (vmi_Meta vm_web) = om_Name (sts_Meta web)"
    "vmi_Interfaces vm_web = ''10.0.0.9'' # []" "''10.0.0.9'' \<noteq> []" "om_OwnerReferences (vmi_Meta vm_web) = vm_owner # []"
    by (simp_all add: vm_web_def vm_def a_meta_def web_def)
  note C = name_collisions [OF st_healthy sel new has m prod.collapse [symmetric] prod.collapse [symmetric] prod.collapse [symmetric],
      THEN conjunct1, unfolded web cluster_pods]
  have pod: "a_pod ''web-1'' ''node-2'' ''10.0.0.2'' \<in> set two_pods" "recordable (a_pod ''web-1'' ''node-2'' ''10.0.0.2'')"
    "om_Name (pod_Meta (a_pod ''web-1'' ''node-2'' ''10.0.0.2'')) = ''web-1''"
    by (simp_all add: two_pods_def recordable_def a_pod_def a_meta_def)
  have n: "''web-1'' \<noteq> om_Name (vmi_Meta vm_web)" by (simp add: m(2) web)
  from C show ?thesis unfolding Let_def using pod n by (elim exE conjE, intro exI conjI) (assumption | fastforce)+
qed

text \<open>Switches for the examples, and a server that answers every read with an error.\<close>

definition all_on :: PersistenceConfig where
  "all_on = SetPersistenceConfig True True GlobalConfig"

definition failing_client :: "store client" where
  "failing_client = st_client\<lparr>GetVMI := \<lambda>ns n w. (Inl (ServerError ''timeout''), w),
     GetIPR := \<lambda>n w. (Inl (ServerError ''timeout''), w)\<rparr>"

lemma vm_meta [simp]:
  "om_Namespace (vmi_Meta vm) = ''prod''" "om_Name (vmi_Meta vm) = ''vm''"
  "vmi_Interfaces vm = [''10.0.0.9'']"
  by (simp_all add: example_defs)

theorem reconcile_routes_witness:
  "let w = cluster two_pods in
   Reconcile all_on st_client (vmi_request vm) w = VmiAutoGeneratePersistentPodState st_client vm w \<and>
   Reconcile all_on st_client (sts_request web) w = StatefulSetAutoGeneratePersistentPodState st_client web w \<and>
   Reconcile all_on failing_client (vmi_request vm) w = (Returned None, w)"
proof -
  have "EnableVMIPersistence all_on" "EnableStatefulSetPersistence all_on" by (simp_all add: all_on_def)
  note r = reconcile_routes [OF this, of vm web]
  from r [of st_client "cluster two_pods"] r [of failing_client "cluster two_pods"] show ?thesis
    by (simp add: failing_client_def) (simp add: st_client_def st_view_def cluster_def)
qed

section \<open>Witnesses for the webhook\<close>

text \<open>A pod as the StatefulSet controller submits it: no address, no node, no annotations.\<close>

definition new_pod :: Pod where
  "new_pod = a_pod ''web-1'' [] []"

lemma new_pod_meta [simp]:
  "om_OwnerReferences (pod_Meta new_pod) = []" "om_Name (pod_Meta new_pod) = ''web-1''"
  "om_Namespace (pod_Meta new_pod) = ''prod''"
  by (simp_all add: new_pod_def a_pod_def a_meta_def zero_meta_def)

lemma new_pod_sts: "getStatefulSetNameFromPod new_pod = ''web''"
  by (simp add: getStatefulSetNameFromPod_def Let_def is_digit_def)

theorem pod_create_frame_witness:
  "let obj' = snd (fst (handlePodCreate st_client new_pod (recorded_cluster [])))
   in obj' = new_pod\<lparr>pod_Meta := (pod_Meta new_pod)\<lparr>om_Annotations := om_Annotations (pod_Meta obj')\<rparr>,
        pod_Affinity := pod_Affinity obj'\<rparr> \<and>
      annotation_at (pod_Meta obj') ''team'' = annotation_at (pod_Meta new_pod) ''team'' \<and>
      other_affinity (pod_Affinity obj') = other_affinity (pod_Affinity new_pod)"
proof -
  obtain err obj' w1 where run: "handlePodCreate st_client new_pod (recorded_cluster []) = ((err, obj'), w1)"
    by (metis surj_pair)
  have "''team'' \<noteq> ipAddrs_annotation" by (simp add: ipAddrs_annotation_def)
  with pod_create_frame [OF run] run show ?thesis unfolding Let_def by (simp only: fst_conv snd_conv) blast
qed

text \<open>Codecs that show the objects they carry: the raw object is the pod's name.\<close>

definition names_codec :: "string codec" where
  "names_codec = \<lparr>decodeVMI = (\<lambda>raw. if raw = ''vm'' then Inr vm else Inl ''bad object''),
     decodePod = (\<lambda>raw. if raw = ''web-1'' then Inr (new_pod\<lparr>pod_Meta := (pod_Meta new_pod)\<lparr>om_Namespace := []\<rparr>\<rparr>)
        else Inl ''bad object''),
     marshalVMI = (\<lambda>x. Inr (om_Name (vmi_Meta x))), marshalPod = (\<lambda>x. Inr (om_Name (pod_Meta x))),
     PatchResponseFromRaw = (\<lambda>a b. Patched b)\<rparr>"

definition pod_request :: "string \<Rightarrow> admission_request" where
  "pod_request opn = \<lparr>ar_SubResource = [], ar_Resource = ''pods'', ar_Operation = opn,
     ar_Namespace = ''prod'', ar_Object = ''web-1''\<rparr>"


end
