(* ===== verification/Pod_Lifecycle.thy ===== *)
theory Pod_Lifecycle
  imports Reconciler Mutating_Handler
begin

text \<open>
  The two halves of the program together with what they work against: reconciles of any request, admission
  requests, and everything that happens outside (users, the StatefulSet controller, the scheduler, Calico,
  nodes), interleaved in any order. The state is the cluster and the pods that were admitted and created. The
  definitions of the program are those of \<open>Reconciler\<close> and \<open>Mutating_Handler\<close>; the application of a patch
  by the API server is a parameter with the law \<open>patch_ok\<close>, and what scheduler and Calico make of an
  admitted pod is \<open>placed\<close>.
\<close>

section \<open>What one reconcile writes\<close>

abbreviation "vmi_key vmi \<equiv> (om_Namespace (vmi_Meta vmi), om_Name (vmi_Meta vmi))"
abbreviation "sts_key sts \<equiv> (om_Namespace (sts_Meta sts), om_Name (sts_Meta sts))"
abbreviation "pod_name pod \<equiv> om_Name (pod_Meta pod)"

text \<open>
  No PersistentPodState, or the one of a stored StatefulSet with recordable pods, or the one of a stored
  VirtualMachineInstance with an address and an owner.
\<close>

definition writes_record :: "'w view \<Rightarrow> 'w \<Rightarrow> 'w \<Rightarrow> bool" where
  "writes_record v w w' \<longleftrightarrow> workloads_same v w w' \<and>
     (v_PPS v w' = v_PPS v w \<or>
      (\<exists>k sts l. v_STS v w k = Some sts \<and> sts_Selector sts = Some l \<and>
         published fewer_states v (sts_recorded v sts l w) w w') \<or>
      (\<exists>k vmi own ip. v_VMI v w k = Some vmi \<and>
         published (\<lambda>_ _. False) v (vmi_persistentPodState vmi own ip) w w'))"

lemma writes_nothing: "writes_record v w w"
  by (simp add: writes_record_def)

lemma sts_writes_record:
  assumes h: "healthy c v" and k: "v_STS v w k = Some sts"
    and run: "StatefulSetAutoGeneratePersistentPodState c sts w = (r, w')"
  shows "writes_record v w w'"
proof (cases "sts_Selector sts")
  case None
  with run have "w' = w" by (simp add: StatefulSetAutoGeneratePersistentPodState_def)
  then show ?thesis by (simp add: writes_nothing)
next
  case (Some l)
  show ?thesis
  proof (cases "sts_has_record v sts l w")
    case True
    with sts_run_records [OF h Some True] run have pub: "published fewer_states v (sts_recorded v sts l w) w w'" by auto
    from published_workloads [OF pub] k Some pub show ?thesis unfolding writes_record_def by metis
  next
    case False
    from sts_run [OF h Some, where w = w] run False have "workloads_same v w w'" "v_PPS v w' = v_PPS v w" by auto
    then show ?thesis by (simp add: writes_record_def)
  qed
qed

lemma vmi_writes_record:
  assumes h: "healthy c v" and k: "v_VMI v w k = Some vmi"
    and run: "VmiAutoGeneratePersistentPodState c vmi w = (r, w')"
  shows "writes_record v w w'"
proof (cases "\<exists>ip ips. vmi_Interfaces vmi = ip # ips \<and> ip \<noteq> []")
  case False
  with run have "w' = w"
    by (auto simp: VmiAutoGeneratePersistentPodState_def split: list.splits if_splits)
  then show ?thesis by (simp add: writes_nothing)
next
  case True
  then obtain ip ips where ip: "vmi_Interfaces vmi = ip # ips" "ip \<noteq> []" by blast
  show ?thesis
  proof (cases "om_OwnerReferences (vmi_Meta vmi)")
    case Nil
    from vmi_reserver.reserve_ok [OF h, where x = "(vmi, ip)" and w = w] ip(2) obtain w1 where
      "vmi_reserve c vmi ip w = (None, w1)" "only_ipr v (om_Name (ipr_Meta (vmi_ipReservation vmi ip))) w w1" by auto
    with run Nil ip show ?thesis
      by (auto simp: VmiAutoGeneratePersistentPodState_def writes_record_def only_ipr_def)
  next
    case (Cons own owns)
    from vmi_run [OF h ip Cons, where w = w] run
    have pub: "published (\<lambda>_ _. False) v (vmi_persistentPodState vmi own ip) w w'" by auto
    from published_workloads [OF pub] k pub show ?thesis unfolding writes_record_def by metis
  qed
qed

lemma Reconcile_writes_record:
  assumes h: "healthy c v" and run: "Reconcile cfg c req w = (r, w')"
  shows "writes_record v w w'"
proof -
  consider "w' = w" | (vmi) n vmi where "v_VMI v w (req_Namespace req, n) = Some vmi"
      "VmiAutoGeneratePersistentPodState c vmi w = (r, w')"
    | (sts) n sts where "v_STS v w (req_Namespace req, n) = Some sts"
      "StatefulSetAutoGeneratePersistentPodState c sts w = (r, w')"
    using run h
    by (auto simp: Reconcile_def reconcile_vmi_request_def reconcile_sts_request_def reconcile_by_name_sts_def found_def
        split: if_splits list.splits option.splits prod.splits)
  then show ?thesis
  proof cases
    case 1
    then show ?thesis by (simp add: writes_nothing)
  next
    case vmi
    then show ?thesis by (rule vmi_writes_record [OF h])
  next
    case sts
    then show ?thesis by (rule sts_writes_record [OF h])
  qed
qed

section \<open>Admission as the API server sees it\<close>

definition stored_pod :: "admission_request \<Rightarrow> Pod \<Rightarrow> Pod" where
  "stored_pod req pod =
     pod\<lparr>pod_Meta := (pod_Meta pod)\<lparr>om_Namespace :=
       (if om_Namespace (pod_Meta pod) = [] then ar_Namespace req else om_Namespace (pod_Meta pod))\<rparr>\<rparr>"

text \<open>The pod that the API server creates for a request and the answer of the webhook, if it creates one.\<close>

definition created_pod ::
  "'p codec \<Rightarrow> ('p \<Rightarrow> Pod \<Rightarrow> Pod) \<Rightarrow> admission_request \<Rightarrow> 'p admission_response \<Rightarrow> Pod option" where
  "created_pod cd apply_patch req resp =
     (case decodePod cd (ar_Object req) of
        Inl err \<Rightarrow> None
      | Inr pod \<Rightarrow>
          (case resp of
             Allowed \<Rightarrow> Some (stored_pod req pod)
           | Errored code err \<Rightarrow> None
           | Patched p \<Rightarrow> Some (stored_pod req (apply_patch p pod))))"

text \<open>The patch between two encoded pods, applied to the first, gives the second.\<close>

definition patch_ok :: "'p codec \<Rightarrow> ('p \<Rightarrow> Pod \<Rightarrow> Pod) \<Rightarrow> bool" where
  "patch_ok cd apply_patch \<longleftrightarrow>
     (\<forall>pod obj a b. marshalPod cd pod = Inr a \<longrightarrow> marshalPod cd obj = Inr b \<longrightarrow>
        (case PatchResponseFromRaw cd a b of
           Allowed \<Rightarrow> pod = obj | Errored code err \<Rightarrow> True | Patched p \<Rightarrow> apply_patch p pod = obj))"

definition is_pod_create :: "admission_request \<Rightarrow> bool" where
  "is_pod_create req \<longleftrightarrow> ar_SubResource req = [] \<and> ar_Resource req = ''pods'' \<and> ar_Operation req = ''CREATE''"

lemma created_from_response:
  assumes "patch_ok cd ap" and "decodePod cd (ar_Object req) = Inr pod"
    and "created_pod cd ap req (patch_response (marshalPod cd) (PatchResponseFromRaw cd) pod obj) = Some a"
  shows "a = stored_pod req obj"
proof (cases "obj = pod")
  case True
  with assms(2,3) show ?thesis by (simp add: created_pod_def patch_response_def)
next
  case False
  with assms(2,3) obtain x y where m: "marshalPod cd obj = Inr x" "marshalPod cd pod = Inr y"
    by (auto simp: created_pod_def patch_response_def split: sum.splits)
  have "case PatchResponseFromRaw cd y x of
      Allowed \<Rightarrow> pod = obj | Errored code err \<Rightarrow> True | Patched p \<Rightarrow> ap p pod = obj"
    using assms(1) m unfolding patch_ok_def by blast
  with assms(2,3) False m show ?thesis
    by (auto simp: created_pod_def patch_response_def split: admission_response.splits)
qed

text \<open>The webhook only reads.\<close>

lemma Handle_reads:
  assumes "healthy c v"
  shows "snd (Handle cfg c cd req w) = w"
  using assms
  by (auto simp: Handle_def handlePod_def handleVMI_def handlePodCreate_def handlePodUpdate_def handleVMICreate_def
      handleVMIUpdate_def Let_def found_def split: sum.splits option.splits prod.splits)

section \<open>Steps\<close>

datatype life_event = Reconciled request | PodCreated admission_request | Reviewed admission_request | Outside

record 'w life =
  lf_world :: 'w
  lf_admitted :: "Pod set"

text \<open>
  What runs of an admitted pod: Calico gives it the address of its annotation, and the scheduler a node that
  meets its required terms, where the host name label of a node is its name.
\<close>

definition placed :: "Pod \<Rightarrow> Pod \<Rightarrow> bool" where
  "placed a q \<longleftrightarrow> pod_name q = pod_name a \<and> om_Namespace (pod_Meta q) = om_Namespace (pod_Meta a) \<and>
     (\<forall>ip. go_get [] (om_Annotations (pod_Meta a)) ipAddrs_annotation = quoted_list ip \<longrightarrow> pod_PodIP q = ip) \<and>
     (\<forall>node. required_terms (pod_Affinity a) = Some [hostname_term node] \<longrightarrow> pod_NodeName q = node)"

text \<open>
  A step outside of the program leaves the PersistentPodStates alone. A pod that runs after it ran before, with
  the same address and node, or is one that was admitted.
\<close>

definition outside_step :: "'w view \<Rightarrow> Pod set \<Rightarrow> 'w \<Rightarrow> 'w \<Rightarrow> bool" where
  "outside_step v A w w' \<longleftrightarrow> v_PPS v w' = v_PPS v w \<and>
     (\<forall>ns l. \<forall>q \<in> set (v_Pods v w' ns l). recordable q \<longrightarrow>
        (\<exists>l'. \<exists>q' \<in> set (v_Pods v w ns l'). pod_name q' = pod_name q \<and> pod_PodIP q' = pod_PodIP q \<and>
           pod_NodeName q' = pod_NodeName q) \<or>
        (\<exists>a \<in> A. placed a q))"

inductive life_step ::
  "PersistenceConfig \<Rightarrow> 'w client \<Rightarrow> 'w view \<Rightarrow> 'p codec \<Rightarrow> ('p \<Rightarrow> Pod \<Rightarrow> Pod) \<Rightarrow>
   'w life \<Rightarrow> life_event \<Rightarrow> 'w life \<Rightarrow> bool"
  for cfg :: PersistenceConfig and c :: "'w client" and v :: "'w view" and cd :: "'p codec"
    and apply_patch :: "'p \<Rightarrow> Pod \<Rightarrow> Pod"
where
  reconciled: "Reconcile cfg c req (lf_world s) = (r, w) \<Longrightarrow>
     life_step cfg c v cd apply_patch s (Reconciled req) (s\<lparr>lf_world := w\<rparr>)"
| created: "is_pod_create req \<Longrightarrow> Handle cfg c cd req (lf_world s) = (resp, w) \<Longrightarrow>
     created_pod cd apply_patch req resp = Some a \<Longrightarrow>
     life_step cfg c v cd apply_patch s (PodCreated req) (s\<lparr>lf_world := w, lf_admitted := insert a (lf_admitted s)\<rparr>)"
| reviewed: "Handle cfg c cd req (lf_world s) = (resp, w) \<Longrightarrow>
     life_step cfg c v cd apply_patch s (Reviewed req) (s\<lparr>lf_world := w\<rparr>)"
| outside: "outside_step v (lf_admitted s) (lf_world s) w \<Longrightarrow>
     life_step cfg c v cd apply_patch s Outside (s\<lparr>lf_world := w\<rparr>)"

text \<open>The states that are reached by steps that satisfy \<open>calm\<close>.\<close>

inductive life_reach ::
  "PersistenceConfig \<Rightarrow> 'w client \<Rightarrow> 'w view \<Rightarrow> 'p codec \<Rightarrow> ('p \<Rightarrow> Pod \<Rightarrow> Pod) \<Rightarrow>
   ('w life \<Rightarrow> life_event \<Rightarrow> bool) \<Rightarrow> 'w life \<Rightarrow> 'w life \<Rightarrow> bool"
  for cfg :: PersistenceConfig and c :: "'w client" and v :: "'w view" and cd :: "'p codec"
    and apply_patch :: "'p \<Rightarrow> Pod \<Rightarrow> Pod" and calm :: "'w life \<Rightarrow> life_event \<Rightarrow> bool" and s0 :: "'w life"
where
  reach_start: "life_reach cfg c v cd apply_patch calm s0 s0"
| reach_step: "life_reach cfg c v cd apply_patch calm s0 s \<Longrightarrow> calm s e \<Longrightarrow>
     life_step cfg c v cd apply_patch s e t \<Longrightarrow> life_reach cfg c v cd apply_patch calm s0 t"

section \<open>The identity of a pod\<close>

definition recorded_names :: "'w view \<Rightarrow> string \<times> string \<Rightarrow> 'w \<Rightarrow> string set" where
  "recorded_names v k w = {n. \<exists>p. v_PPS v w k = Some p \<and> go_has (PodStates (pps_Status p)) n}"

definition steady :: "'w view \<Rightarrow> string \<times> string \<Rightarrow> string \<Rightarrow> string gomap \<Rightarrow> 'w \<Rightarrow> bool" where
  "steady v k n l w \<longleftrightarrow>
     (\<forall>q \<in> set (v_Pods v w (fst k) l). recordable q \<longrightarrow> pod_name q \<in> recorded_names v k w) \<or>
     (\<exists>q \<in> set (v_Pods v w (fst k) l). recordable q \<and> pod_name q = n)"

text \<open>
  The conditions on a run for the pod \<open>n\<close> of the StatefulSet \<open>k\<close>. No VirtualMachineInstance has the name of
  the StatefulSet, as they would share one PersistentPodState; the StatefulSet does not grow while the pod is
  down: its recordable pods are already recorded, or the pod is one of them; and a pod that is created under the
  pod's name is one of the StatefulSet.
\<close>

definition calm_for :: "'w view \<Rightarrow> 'p codec \<Rightarrow> string \<times> string \<Rightarrow> string \<Rightarrow> 'w life \<Rightarrow> life_event \<Rightarrow> bool" where
  "calm_for v cd k n s e \<longleftrightarrow>
     (\<forall>k' vmi. v_VMI v (lf_world s) k' = Some vmi \<longrightarrow> vmi_key vmi \<noteq> k) \<and>
     (\<forall>k' sts l. v_STS v (lf_world s) k' = Some sts \<longrightarrow> sts_key sts = k \<longrightarrow> sts_Selector sts = Some l \<longrightarrow>
        steady v k n l (lf_world s)) \<and>
     (\<forall>req pod. e = PodCreated req \<longrightarrow> decodePod cd (ar_Object req) = Inr pod \<longrightarrow>
        om_Namespace (pod_Meta (stored_pod req pod)) = fst k \<longrightarrow> pod_name pod = n \<longrightarrow>
        getStatefulSetNameFromPod pod = snd k)"

definition pinned_to :: "string \<Rightarrow> string \<Rightarrow> Pod \<Rightarrow> bool" where
  "pinned_to ip node a \<longleftrightarrow>
     go_get [] (om_Annotations (pod_Meta a)) ipAddrs_annotation = quoted_list ip \<and>
     required_terms (pod_Affinity a) = Some [hostname_term node]"

definition record_at :: "'w view \<Rightarrow> string \<times> string \<Rightarrow> string \<Rightarrow> 'w \<Rightarrow> PodState option" where
  "record_at v k n w =
     (case v_PPS v w k of None \<Rightarrow> None
      | Some p \<Rightarrow> (case PodStates (pps_Status p) of None \<Rightarrow> None | Some m \<Rightarrow> fmlookup m n))"

text \<open>The invariant: record, running pods and admitted pods agree.\<close>

definition identity :: "'w view \<Rightarrow> string \<times> string \<Rightarrow> string \<Rightarrow> string \<Rightarrow> string \<Rightarrow> 'w life \<Rightarrow> bool" where
  "identity v k n ip node s \<longleftrightarrow>
     (\<exists>st. record_at v k n (lf_world s) = Some st \<and> ps_PodIP st = ip \<and> ps_NodeName st = node) \<and>
     (\<forall>l. \<forall>q \<in> set (v_Pods v (lf_world s) (fst k) l). recordable q \<longrightarrow> pod_name q = n \<longrightarrow>
        pod_PodIP q = ip \<and> pod_NodeName q = node) \<and>
     (\<forall>a \<in> lf_admitted s. om_Namespace (pod_Meta a) = fst k \<longrightarrow> pod_name a = n \<longrightarrow> pinned_to ip node a)"

lemma record_at_Some:
  "record_at v k n w = Some st \<longleftrightarrow>
     (\<exists>p m. v_PPS v w k = Some p \<and> PodStates (pps_Status p) = Some m \<and> fmlookup m n = Some st)"
  by (simp add: record_at_def split: option.splits)

lemma published_elsewhere: "published keep v p w w' \<Longrightarrow> pps_key p \<noteq> k \<Longrightarrow> v_PPS v w' k = v_PPS v w k"
  by (auto simp: published_def)

lemma record_at_same: "v_PPS v w' k = v_PPS v w k \<Longrightarrow> record_at v k n w' = record_at v k n w"
  by (simp add: record_at_def)

text \<open>
  A publication for the StatefulSet keeps the entry, or gives it the state of the pod that runs under the name. When no
  name is added the size guard does this: a smaller record is not written, and one of the same size has the same
  names.
\<close>

lemma same_names_kept:
  assumes p: "v_PPS v w k = Some p" "PodStates (pps_Status p) = Some m" "fmlookup m n = Some st"
    and known: "\<forall>q \<in> set (v_Pods v w (fst k) l). recordable q \<longrightarrow> pod_name q \<in> recorded_names v k w"
    and size: "fcard (fmdom m) \<le> fcard (fmdom (record_pods (v_Pods v w (fst k) l) fmempty))"
  shows "\<exists>x \<in> set (v_Pods v w (fst k) l). recordable x \<and> pod_name x = n \<and>
     fmlookup (record_pods (v_Pods v w (fst k) l) fmempty) n = Some (pod_podState x)"
proof -
  let ?m' = "record_pods (v_Pods v w (fst k) l) fmempty"
  have "fmdom ?m' |\<subseteq>| fmdom m"
  proof
    fix x
    assume "x |\<in>| fmdom ?m'"
    then obtain s where "fmlookup ?m' x = Some s" by (auto simp: fmlookup_dom_iff)
    from record_pods_keys [OF this] known have "x \<in> recorded_names v k w" by auto
    with p show "x |\<in>| fmdom m" by (auto simp: recorded_names_def go_has_def fmlookup_dom_iff)
  qed
  then have "fmdom ?m' = fmdom m" using size by (rule fmdom_sub_card_eq)
  with p(3) obtain s where s: "fmlookup ?m' n = Some s" by (metis fmdomI fmlookup_dom_iff)
  from record_pods_keys [OF s] s show ?thesis by auto
qed

lemma sts_publish_keeps:
  assumes h: "healthy c v" and pub: "published fewer_states v (sts_recorded v sts l w) w w'" and k: "sts_key sts = k"
    and old: "record_at v k n w = Some st"
    and steady: "steady v k n l w"
  shows "record_at v k n w' = Some st \<or>
     (\<exists>q \<in> set (v_Pods v w (fst k) l). recordable q \<and> pod_name q = n \<and> record_at v k n w' = Some (pod_podState q))"
proof -
  let ?m' = "record_pods (v_Pods v w (fst k) l) fmempty"
  have key: "pps_key (sts_recorded v sts l w) = k"
    using k by (auto simp: sts_recorded_def sts_persistentPodState_def pps_key_def)
  have new: "PodStates (pps_Status (sts_recorded v sts l w)) = Some ?m'"
    using k by (auto simp: sts_recorded_def sts_persistentPodState_def)
  from old obtain p m where p: "v_PPS v w k = Some p" "PodStates (pps_Status p) = Some m" "fmlookup m n = Some st"
    by (auto simp: record_at_Some)
  have kept: "record_at v k n w' = Some st" if "v_PPS v w' k = Some q" "pps_Status q = pps_Status p" for q
    using that p by (simp add: record_at_def)
  from pub show ?thesis
  proof (cases rule: published_cases)
    case created
    with p key show ?thesis by simp
  next
    case kept
    with p key show ?thesis by (auto simp: record_at_def)
  next
    case (written q old)
    from written p key have q: "v_PPS v w' k = Some q" "old = p" by simp_all
    show ?thesis
    proof (cases "pps_Status p = pps_Status (sts_recorded v sts l w)")
      case True
      with kept [OF q(1)] written(4) show ?thesis by simp
    next
      case False
      have "\<exists>x \<in> set (v_Pods v w (fst k) l). recordable x \<and> pod_name x = n \<and> fmlookup ?m' n = Some (pod_podState x)"
        using steady unfolding steady_def
      proof
        assume known: "\<forall>q \<in> set (v_Pods v w (fst k) l). recordable q \<longrightarrow> pod_name q \<in> recorded_names v k w"
        show ?thesis by (rule same_names_kept [OF p known]) (use False written(3) q(2) p(2) new in \<open>simp add: fewer_states_def go_len_def\<close>)
      next
        assume "\<exists>q \<in> set (v_Pods v w (fst k) l). recordable q \<and> pod_name q = n"
        with record_pods_lookup [OF healthy_pods(1) [OF h]] show ?thesis by blast
      qed
      moreover have "record_at v k n w' = fmlookup ?m' n" using q(1) written(4) new by (simp add: record_at_def)
      ultimately show ?thesis by metis
    qed
  qed
qed

lemma identity_reconciled:
  assumes h: "healthy c v" and i: "identity v k n ip node s" and calm: "calm_for v cd k n s e"
    and run: "Reconcile cfg c req (lf_world s) = (r, w')"
  shows "identity v k n ip node (s\<lparr>lf_world := w'\<rparr>)"
proof -
  let ?w = "lf_world s"
  have wr: "writes_record v ?w w'" by (rule Reconcile_writes_record [OF h run])
  have pods: "v_Pods v w' = v_Pods v ?w" using wr by (simp add: writes_record_def workloads_same_def)
  obtain st where st: "record_at v k n ?w = Some st" "ps_PodIP st = ip" "ps_NodeName st = node"
    using i by (auto simp: identity_def)
  have run_id: "pod_PodIP q = ip \<and> pod_NodeName q = node"
    if "q \<in> set (v_Pods v ?w (fst k) l)" "recordable q" "pod_name q = n" for l q
    using i that by (simp add: identity_def)
  have "\<exists>st. record_at v k n w' = Some st \<and> ps_PodIP st = ip \<and> ps_NodeName st = node"
  proof -
    from wr consider (same) "v_PPS v w' = v_PPS v ?w"
      | (sts) k' sts l where "v_STS v ?w k' = Some sts" "sts_Selector sts = Some l"
          "published fewer_states v (sts_recorded v sts l ?w) ?w w'"
      | (vmi) k' vmi own a where "v_VMI v ?w k' = Some vmi"
          "published (\<lambda>_ _. False) v (vmi_persistentPodState vmi own a) ?w w'"
      unfolding writes_record_def by metis
    then show ?thesis
    proof cases
      case same
      with st show ?thesis by (simp add: record_at_def)
    next
      case sts
      show ?thesis
      proof (cases "sts_key sts = k")
        case True
        have "steady v k n l ?w" using calm sts(1,2) True unfolding calm_for_def by blast
        from sts_publish_keeps [OF h sts(3) True st(1) this] st run_id show ?thesis
          by (auto simp: pod_podState_def)
      next
        case False
        then have "pps_key (sts_recorded v sts l ?w) \<noteq> k"
          by (simp add: sts_recorded_def sts_persistentPodState_def pps_key_def)
        from record_at_same [OF published_elsewhere [OF sts(3) this]] st show ?thesis by simp
      qed
    next
      case vmi
      have "vmi_key vmi \<noteq> k" using calm vmi(1) unfolding calm_for_def by blast
      then have "pps_key (vmi_persistentPodState vmi own a) \<noteq> k" by (simp add: vmi_persistentPodState_def pps_key_def)
      from record_at_same [OF published_elsewhere [OF vmi(2) this]] st show ?thesis by simp
    qed
  qed
  with i pods show ?thesis by (simp add: identity_def)
qed

lemma identity_outside:
  assumes i: "identity v k n ip node s" and o: "outside_step v (lf_admitted s) (lf_world s) w'"
    and ns: "\<And>w l q. q \<in> set (v_Pods v w (fst k) l) \<Longrightarrow> om_Namespace (pod_Meta q) = fst k"
  shows "identity v k n ip node (s\<lparr>lf_world := w'\<rparr>)"
proof -
  have "pod_PodIP q = ip \<and> pod_NodeName q = node"
    if q: "q \<in> set (v_Pods v w' (fst k) l)" "recordable q" "pod_name q = n" for l q
  proof -
    from o q(1,2) consider (ran) l' q' where "q' \<in> set (v_Pods v (lf_world s) (fst k) l')" "pod_name q' = pod_name q"
        "pod_PodIP q' = pod_PodIP q" "pod_NodeName q' = pod_NodeName q"
      | (started) a where "a \<in> lf_admitted s" "placed a q"
      unfolding outside_step_def by blast
    then show ?thesis
    proof cases
      case ran
      have "recordable q'" using q(2) ran(3,4) by (simp add: recordable_def)
      with i ran q(3) show ?thesis unfolding identity_def by metis
    next
      case started
      have "om_Namespace (pod_Meta a) = fst k" "pod_name a = n"
        using started(2) ns [OF q(1)] q(3) by (simp_all add: placed_def)
      with i started(1) have "pinned_to ip node a" by (simp add: identity_def)
      with started(2) show ?thesis by (simp add: placed_def pinned_to_def)
    qed
  qed
  moreover have "v_PPS v w' = v_PPS v (lf_world s)" using o by (simp add: outside_step_def)
  then have "record_at v k n w' = record_at v k n (lf_world s)" by (simp add: record_at_def)
  ultimately show ?thesis using i by (simp add: identity_def)
qed

text \<open>A created pod has the name of the request's pod and its namespace, or else that of the request.\<close>

lemma created_names:
  assumes patch: "patch_ok cd ap" and on: "EnableStatefulSetPersistence cfg" and req: "is_pod_create req"
    and pod: "decodePod cd (ar_Object req) = Inr pod" and run: "Handle cfg c cd req w = (resp, w')"
    and a: "created_pod cd ap req resp = Some a"
  shows "pod_name a = pod_name pod" and "om_Namespace (pod_Meta a) = om_Namespace (pod_Meta (stored_pod req pod))"
proof -
  let ?ns = "if om_Namespace (pod_Meta pod) = [] then ar_Namespace req else om_Namespace (pod_Meta pod)"
  obtain err obj w1 where o: "handlePodCreate c (pod\<lparr>pod_Meta := (pod_Meta pod)\<lparr>om_Namespace := ?ns\<rparr>\<rparr>) w = ((err, obj), w1)"
    by (metis surj_pair)
  let ?obj = "obj\<lparr>pod_Meta := (pod_Meta obj)\<lparr>om_Namespace := om_Namespace (pod_Meta pod)\<rparr>\<rparr>"
  have create: "ar_Operation req = ''CREATE''" using req by (simp add: is_pod_create_def)
  have "Handle cfg c cd req w = handlePod c (decodePod cd) (marshalPod cd) (PatchResponseFromRaw cd) req w"
    using req on by (simp add: Handle_def shouldIgnoreIfNotVMIOrPod_def is_pod_create_def)
  with handlePod_create_response [where decode = "decodePod cd" and ns = ?ns
      and marshal = "marshalPod cd" and PatchRaw = "PatchResponseFromRaw cd", OF pod create HOL.refl o] run
  have "resp = patch_response (marshalPod cd) (PatchResponseFromRaw cd) pod ?obj" by simp
  with created_from_response [OF patch pod, of ?obj] a have "a = stored_pod req ?obj" by simp
  with handlePodCreate_names [OF o]
  show "pod_name a = pod_name pod" and "om_Namespace (pod_Meta a) = om_Namespace (pod_Meta (stored_pod req pod))"
    by (auto simp: stored_pod_def)
qed

lemma identity_created:
  assumes h: "healthy c v" and on: "EnableStatefulSetPersistence cfg" and patch: "patch_ok cd ap"
    and k: "snd k \<noteq> []" and some: "ip \<noteq> []" "node \<noteq> []"
    and i: "identity v k n ip node s" and calm: "calm_for v cd k n s (PodCreated req)"
    and req: "is_pod_create req" and run: "Handle cfg c cd req (lf_world s) = (resp, w')"
    and a: "created_pod cd ap req resp = Some a"
  shows "identity v k n ip node (s\<lparr>lf_world := w', lf_admitted := insert a (lf_admitted s)\<rparr>)"
proof -
  have w': "w' = lf_world s" using Handle_reads [OF h, of cfg cd req "lf_world s"] run by simp
  from a obtain pod where pod: "decodePod cd (ar_Object req) = Inr pod" by (auto simp: created_pod_def split: sum.splits)
  note N = created_names [OF patch on req pod run a]
  have "pinned_to ip node a" if m: "om_Namespace (pod_Meta a) = fst k" "pod_name a = n"
  proof -
    have sts: "getStatefulSetNameFromPod pod = snd k"
      using calm pod m N unfolding calm_for_def by metis
    obtain st p mp where st: "v_PPS v (lf_world s) k = Some p" "PodStates (pps_Status p) = Some mp" "fmlookup mp n = Some st"
      "ps_PodIP st = ip" "ps_NodeName st = node"
      using i by (auto simp: identity_def record_at_Some)
    have get: "GetPPS c (if om_Namespace (pod_Meta pod) = [] then ar_Namespace req else om_Namespace (pod_Meta pod)) (snd k)
        (lf_world s) = (Inr p, lf_world s)"
      using h m(1) N(2) st(1) by (cases k) (simp add: stored_pod_def)
    have go: "go_get zero_PodState (PodStates (pps_Status p)) (pod_name pod) = st"
      using st(2,3) m(2) N(1) by (simp add: go_get_def)
    have rq: "ar_SubResource req = []" "ar_Resource req = ''pods''" "ar_Operation req = ''CREATE''"
      using req by (simp_all add: is_pod_create_def)
    from handle_create_recorded [OF rq on pod sts k get go] some st(4,5) run obtain obj where
      "resp = patch_response (marshalPod cd) (PatchResponseFromRaw cd) pod obj" "pinned_to ip node obj"
      by (auto simp: pinned_to_def)
    with created_from_response [OF patch pod, of obj] a show ?thesis
      by (simp add: pinned_to_def stored_pod_def)
  qed
  with i w' show ?thesis by (simp add: identity_def)
qed

lemma identity_step:
  assumes h: "healthy c v" and on: "EnableStatefulSetPersistence cfg" and patch: "patch_ok cd ap"
    and k: "snd k \<noteq> []" and some: "ip \<noteq> []" "node \<noteq> []"
    and step: "life_step cfg c v cd ap s e t" and i: "identity v k n ip node s" and calm: "calm_for v cd k n s e"
  shows "identity v k n ip node t"
  using step
proof (cases rule: life_step.cases)
  case (reconciled req r w)
  with identity_reconciled [OF h i calm reconciled(3)] show ?thesis by simp
next
  case (created req resp w a)
  with identity_created [OF h on patch k some i _ created(3-5)] calm show ?thesis by simp
next
  case (reviewed req resp w)
  with Handle_reads [OF h, of cfg cd req "lf_world s"] have "t = s" by simp
  with i show ?thesis by simp
next
  case (outside w)
  with identity_outside [OF i outside(3)] healthy_pods(2) [OF h] show ?thesis by blast
qed

text \<open>
  C2. The identity of a pod survives every calm run of the system. Let an address and a node be recorded for the
  pod \<open>n\<close> of a StatefulSet, and let the pod that runs under this name, if any, have them. Then reconciles of
  any requests, admissions, and steps outside of the program may follow in any order: the pod may be deleted,
  created again, started, any number of times. In every state that is reached the record still holds that
  address and node, every pod that was created under the name is pinned to them, and every pod that runs
  under the name has them. The run must be calm: no VirtualMachineInstance has the name of the StatefulSet, the
  StatefulSet runs no pod that is not recorded while this one is down, and a pod of that name belongs to it.
\<close>

theorem identity_survives:
  assumes "healthy c v" and "EnableStatefulSetPersistence cfg" and "patch_ok cd apply_patch"
    and "sts \<noteq> []" and "ip \<noteq> []" and "node \<noteq> []"
    and "record_at v (ns, sts) n w = Some st" and "ps_PodIP st = ip" and "ps_NodeName st = node"
    and "\<And>l q. q \<in> set (v_Pods v w ns l) \<Longrightarrow> recordable q \<Longrightarrow> pod_name q = n \<Longrightarrow> pod_PodIP q = ip \<and> pod_NodeName q = node"
    and "life_reach cfg c v cd apply_patch (calm_for v cd (ns, sts) n) \<lparr>lf_world = w, lf_admitted = {}\<rparr> s"
  shows "(\<exists>st. record_at v (ns, sts) n (lf_world s) = Some st \<and> ps_PodIP st = ip \<and> ps_NodeName st = node) \<and>
     (\<forall>a \<in> lf_admitted s. om_Namespace (pod_Meta a) = ns \<and> pod_name a = n \<longrightarrow>
        go_get [] (om_Annotations (pod_Meta a)) ipAddrs_annotation = quoted_list ip \<and>
        required_terms (pod_Affinity a) = Some [hostname_term node]) \<and>
     (\<forall>l. \<forall>q \<in> set (v_Pods v (lf_world s) ns l). recordable q \<and> pod_name q = n \<longrightarrow>
        pod_PodIP q = ip \<and> pod_NodeName q = node)"
proof -
  have "identity v (ns, sts) n ip node s"
    using assms(11)
  proof (induction rule: life_reach.induct)
    case reach_start
    show ?case using assms(7-10) by (simp add: identity_def)
  next
    case (reach_step s e t)
    have "snd (ns, sts) \<noteq> []" using assms(4) by simp
    from identity_step [OF assms(1-3) this assms(5,6) reach_step(3) reach_step.IH reach_step(2)] show ?case .
  qed
  then show ?thesis by (simp add: identity_def pinned_to_def)
qed

end
