(* ===== verification/Reference_Lifecycle.thy ===== *)
theory Reference_Lifecycle
  imports Reference_Cluster Pod_Lifecycle
begin

text \<open>
  A run of the small cluster in which a recorded pod is deleted, created again, started and recorded, for
  the theorem on the life of a pod.
\<close>

text \<open>The pod as the webhook answers it, and a codec for the two pods of the run.\<close>

definition pinned_pod :: Pod where
  "pinned_pod = snd (fst (handlePodCreate st_client new_pod (recorded_cluster [])))"

definition life_codec :: "string codec" where
  "life_codec = \<lparr>decodeVMI = (\<lambda>raw. Inl ''bad object''),
     decodePod = (\<lambda>raw. if raw = ''web-1'' then Inr new_pod else Inl ''bad object''),
     marshalVMI = (\<lambda>x. Inl ''unsupported''),
     marshalPod = (\<lambda>x. if x = new_pod then Inr ''new'' else if x = pinned_pod then Inr ''pinned'' else Inl ''unsupported''),
     PatchResponseFromRaw = (\<lambda>a b. Patched b)\<rparr>"

definition life_apply :: "string \<Rightarrow> Pod \<Rightarrow> Pod" where
  "life_apply p pod = (if p = ''new'' then new_pod else pinned_pod)"

lemma life_patch_ok: "patch_ok life_codec life_apply"
  by (auto simp: patch_ok_def life_codec_def life_apply_def split: if_splits)

definition create_web1 :: admission_request where
  "create_web1 = \<lparr>ar_SubResource = [], ar_Resource = ''pods'', ar_Operation = ''CREATE'', ar_Namespace = ''prod'',
     ar_Object = ''web-1''\<rparr>"

text \<open>The recorded identity.\<close>

lemma web1_record:
  "record_at st_view (''prod'', ''web'') ''web-1'' (recorded_cluster ps) =
     Some (pod_podState (a_pod ''web-1'' ''node-2'' ''10.0.0.2''))"
  "recorded_names st_view (''prod'', ''web'') (recorded_cluster ps) = {''web-0'', ''web-1''}"
  unfolding record_at_def recorded_names_def recorded_PPS
  by (auto simp: stored_web_def sts_persistentPodState_def two_pods_def recordable_def a_pod_def a_meta_def go_has_def)

lemma web1_created:
  "\<exists>obj. handlePodCreate st_client new_pod (recorded_cluster []) = ((None, obj), recorded_cluster []) \<and>
     go_get [] (om_Annotations (pod_Meta obj)) ipAddrs_annotation = quoted_list ''10.0.0.2'' \<and>
     required_terms (pod_Affinity obj) = Some [hostname_term ''node-2'']"
proof -
  let ?st = "pod_podState (a_pod ''web-1'' ''node-2'' ''10.0.0.2'')"
  have "GetPPS st_client ''prod'' ''web'' (recorded_cluster []) = (Inr stored_web, recorded_cluster [])"
    by (simp add: healthy_reads [OF st_healthy] recorded_PPS)
  moreover have "go_get zero_PodState (PodStates (pps_Status stored_web)) ''web-1'' = ?st"
    by (simp add: stored_web_def sts_persistentPodState_def two_pods_def recordable_def a_pod_def a_meta_def)
  moreover have "ps_PodIP ?st = ''10.0.0.2''" "ps_NodeName ?st = ''node-2''"
    by (simp_all add: pod_podState_def a_pod_def)
  ultimately show ?thesis
    using pod_create_recorded [of new_pod "''web''" st_client "recorded_cluster []" stored_web "recorded_cluster []" ?st]
    by (simp add: new_pod_sts)
qed

lemma pinned_pod_is:
  "handlePodCreate st_client new_pod (recorded_cluster []) = ((None, pinned_pod), recorded_cluster [])"
  "go_get [] (om_Annotations (pod_Meta pinned_pod)) ipAddrs_annotation = quoted_list ''10.0.0.2''"
  "required_terms (pod_Affinity pinned_pod) = Some [hostname_term ''node-2'']"
  "pod_name pinned_pod = ''web-1''" "om_Namespace (pod_Meta pinned_pod) = ''prod''"
proof -
  obtain obj where o: "handlePodCreate st_client new_pod (recorded_cluster []) = ((None, obj), recorded_cluster [])"
     "go_get [] (om_Annotations (pod_Meta obj)) ipAddrs_annotation = quoted_list ''10.0.0.2''"
     "required_terms (pod_Affinity obj) = Some [hostname_term ''node-2'']"
    using web1_created by blast
  then have eq: "pinned_pod = obj" by (simp add: pinned_pod_def)
  from o show "handlePodCreate st_client new_pod (recorded_cluster []) = ((None, pinned_pod), recorded_cluster [])"
    "go_get [] (om_Annotations (pod_Meta pinned_pod)) ipAddrs_annotation = quoted_list ''10.0.0.2''"
    "required_terms (pod_Affinity pinned_pod) = Some [hostname_term ''node-2'']" by (simp_all add: eq)
  from handlePodCreate_names [OF o(1)]
  show "pod_name pinned_pod = ''web-1''" "om_Namespace (pod_Meta pinned_pod) = ''prod''" by (auto simp: eq)
qed

lemma web1_response:
  "Handle all_on st_client life_codec create_web1 (recorded_cluster []) =
     (patch_response (marshalPod life_codec) (PatchResponseFromRaw life_codec) new_pod pinned_pod, recorded_cluster [])"
proof -
  have d: "decodePod life_codec (ar_Object create_web1) = Inr new_pod" by (simp add: life_codec_def create_web1_def)
  have r: "ar_SubResource create_web1 = []" "ar_Resource create_web1 = ''pods''" "ar_Operation create_web1 = ''CREATE''"
    by (simp_all add: create_web1_def)
  have "EnableStatefulSetPersistence all_on" by (simp add: all_on_def)
  then show ?thesis
    by (simp add: Handle_def shouldIgnoreIfNotVMIOrPod_def handlePod_def d r pinned_pod_is(1))
qed

lemma web1_created_pod:
  "created_pod life_codec life_apply create_web1
     (patch_response (marshalPod life_codec) (PatchResponseFromRaw life_codec) new_pod pinned_pod) = Some (stored_pod create_web1 pinned_pod)"
  by (auto simp: created_pod_def patch_response_def) (simp_all add: life_codec_def create_web1_def life_apply_def)

text \<open>The pods that are listed are those of the cluster.\<close>

lemma listed: "q \<in> set (v_Pods st_view (recorded_cluster ps) ns l) \<Longrightarrow> q \<in> set ps"
  using set_unique_names by (fastforce simp: st_view_def recorded_cluster_def cluster_def)

lemma recorded_cluster_calm:
  assumes "\<forall>q \<in> set ps. pod_name q \<in> {''web-0'', ''web-1''}"
  shows "calm_for st_view life_codec (''prod'', ''web'') ''web-1'' \<lparr>lf_world = recorded_cluster ps, lf_admitted = A\<rparr> e"
proof -
  have "vmi_key vmi \<noteq> (''prod'', ''web'')" if "v_VMI st_view (recorded_cluster ps) k' = Some vmi" for k' vmi
    using that by (auto simp: st_view_def recorded_cluster_def cluster_def split: if_splits)
  moreover have "steady st_view (''prod'', ''web'') ''web-1'' l (recorded_cluster ps)" for l
    using assms listed by (fastforce simp: steady_def web1_record)
  moreover have "getStatefulSetNameFromPod pod = ''web''" if "decodePod life_codec (ar_Object req) = Inr pod" for req pod
    using that new_pod_sts by (auto simp: life_codec_def split: if_splits)
  ultimately show ?thesis unfolding calm_for_def by simp blast
qed

text \<open>The pod runs again where it was pinned to.\<close>

definition web1_again :: Pod where
  "web1_again = a_pod ''web-1'' ''node-2'' ''10.0.0.2''"

lemma web1_placed: "placed (stored_pod create_web1 pinned_pod) web1_again"
proof -
  have s: "pod_name web1_again = ''web-1''" "om_Namespace (pod_Meta web1_again) = ''prod''"
    "pod_PodIP web1_again = ''10.0.0.2''" "pod_NodeName web1_again = ''node-2''"
    by (simp_all add: web1_again_def a_pod_def a_meta_def)
  show ?thesis
    using pinned_pod_is by (simp add: placed_def stored_pod_def s quoted_list_def hostname_term_def)
qed

theorem identity_survives_witness:
  "\<exists>s. life_reach all_on st_client st_view life_codec life_apply
       (calm_for st_view life_codec (''prod'', ''web'') ''web-1'')
       \<lparr>lf_world = recorded_cluster two_pods, lf_admitted = {}\<rparr> s \<and>
     lf_admitted s = {stored_pod create_web1 pinned_pod} \<and>
     (\<exists>st. record_at st_view (''prod'', ''web'') ''web-1'' (lf_world s) = Some st \<and> ps_PodIP st = ''10.0.0.2'' \<and>
        ps_NodeName st = ''node-2'')"
proof -
  let ?R = "life_reach all_on st_client st_view life_codec life_apply (calm_for st_view life_codec (''prod'', ''web'') ''web-1'')
       \<lparr>lf_world = recorded_cluster two_pods, lf_admitted = {}\<rparr>"
  let ?a = "stored_pod create_web1 pinned_pod"
  have out: "?R \<lparr>lf_world = recorded_cluster qs, lf_admitted = A\<rparr>"
    if "?R \<lparr>lf_world = recorded_cluster ps, lf_admitted = A\<rparr>" "\<forall>q \<in> set ps. pod_name q \<in> {''web-0'', ''web-1''}"
      "\<forall>q \<in> set qs. \<exists>a \<in> A. placed a q" for ps qs A
  proof -
    have "v_PPS st_view (recorded_cluster qs) = v_PPS st_view (recorded_cluster ps)"
      by (simp add: st_view_def recorded_cluster_def)
    then have "outside_step st_view A (recorded_cluster ps) (recorded_cluster qs)"
      using that(3) listed by (fastforce simp: outside_step_def)
    then show ?thesis
      using life_reach.reach_step [OF that(1) recorded_cluster_calm [OF that(2)] life_step.outside] by simp
  qed
  have "?R \<lparr>lf_world = recorded_cluster [], lf_admitted = {}\<rparr>"
    by (rule out [OF life_reach.reach_start]) (simp_all add: two_pods_def a_pod_def a_meta_def)
  moreover have "life_step all_on st_client st_view life_codec life_apply \<lparr>lf_world = recorded_cluster [], lf_admitted = {}\<rparr>
      (PodCreated create_web1) \<lparr>lf_world = recorded_cluster [], lf_admitted = {?a}\<rparr>"
    using life_step.created [of create_web1 all_on st_client life_codec "\<lparr>lf_world = recorded_cluster [], lf_admitted = {}\<rparr>",
        OF _ _ web1_created_pod] web1_response by (simp add: is_pod_create_def create_web1_def)
  moreover have "calm_for st_view life_codec (''prod'', ''web'') ''web-1'' \<lparr>lf_world = recorded_cluster [], lf_admitted = {}\<rparr>
      (PodCreated create_web1)" by (rule recorded_cluster_calm) simp
  ultimately have "?R \<lparr>lf_world = recorded_cluster [], lf_admitted = {?a}\<rparr>" by (metis life_reach.reach_step)
  then have again: "?R \<lparr>lf_world = recorded_cluster [web1_again], lf_admitted = {?a}\<rparr>"
    by (rule out) (simp_all add: web1_placed)
  obtain r w where rec: "Reconcile all_on st_client (sts_request web) (recorded_cluster [web1_again]) = (r, w)" by fastforce
  let ?s = "\<lparr>lf_world = w, lf_admitted = {?a}\<rparr>"
  have reach: "?R ?s"
    using life_reach.reach_step [OF again recorded_cluster_calm life_step.reconciled] rec
    by (simp add: web1_again_def a_pod_def a_meta_def)
  have on: "EnableStatefulSetPersistence all_on" by (simp add: all_on_def)
  have st: "ps_PodIP (pod_podState (a_pod ''web-1'' ''node-2'' ''10.0.0.2'')) = ''10.0.0.2''"
    "ps_NodeName (pod_podState (a_pod ''web-1'' ''node-2'' ''10.0.0.2'')) = ''node-2''"
    by (simp_all add: pod_podState_def a_pod_def)
  have ne: "''web'' \<noteq> []" "''10.0.0.2'' \<noteq> []" "''node-2'' \<noteq> []" by simp_all
  have runs: "pod_PodIP q = ''10.0.0.2'' \<and> pod_NodeName q = ''node-2''"
    if "q \<in> set (v_Pods st_view (recorded_cluster two_pods) ''prod'' l)" "recordable q" "pod_name q = ''web-1''" for l q
    using listed [OF that(1)] that(3) by (auto simp: two_pods_def a_pod_def a_meta_def)
  have "\<exists>st. record_at st_view (''prod'', ''web'') ''web-1'' (lf_world ?s) = Some st \<and> ps_PodIP st = ''10.0.0.2'' \<and>
        ps_NodeName st = ''node-2''"
    by (rule conjunct1 [OF identity_survives [OF st_healthy on life_patch_ok ne web1_record(1) st runs reach]])
  with reach show ?thesis by (intro exI [of _ ?s]) simp
qed

end
