(* ===== verification/Client_Registry.thy ===== *)
theory Client_Registry
  imports Prelude Complex_Main
begin

text \<open>
  \<^verbatim>\<open>pkg/client/registry.go\<close> and \<^verbatim>\<open>generic_client.go\<close>: the clients that the program makes from the
  configuration of its connection, with the constructors of the generated clientset
  (\<^verbatim>\<open>pkg/client/clientset/versioned\<close>). client-go is the record \<open>client_go\<close> of parameters. A \<^verbatim>\<open>*rest.Config\<close>
  is a value: every constructor works on a copy. The fields that this code neither reads nor writes are
  \<open>rc_rest\<close>; \<^verbatim>\<open>QPS\<close>, a float, is only compared with zero.
\<close>

section \<open>Configuration\<close>

record 'l rest_config =
  rc_UserAgent :: string
  rc_ContentType :: string
  rc_QPS :: real
  rc_Burst :: int
  rc_RateLimiter :: "'l option"
  rc_GroupVersion :: "(string \<times> string) option"
  rc_APIPath :: string
  rc_NegotiatedSerializer :: string
  rc_rest :: string

record ('l, 'h, 'r, 'd, 'k) client_go =
  DefaultKubernetesUserAgent :: string
  WithoutConversion :: string
  HTTPClientFor :: "'l rest_config \<Rightarrow> string + 'h"
  NewTokenBucketRateLimiter :: "real \<Rightarrow> int \<Rightarrow> 'l"
  RESTClientForConfigAndClient :: "'l rest_config \<Rightarrow> 'h \<Rightarrow> string + 'r"
  NewDiscoveryClientForConfigAndClient :: "'l rest_config \<Rightarrow> 'h \<Rightarrow> string + 'd"
  NewDiscoveryClientForConfig :: "'l rest_config \<Rightarrow> string + 'd"
  kube_NewForConfig :: "'l rest_config \<Rightarrow> string + 'k"

definition SchemeGroupVersion :: "string \<times> string" where
  "SchemeGroupVersion = (''apps.clay.io'', ''v1alpha1'')"

section \<open>The generated clientset\<close>

definition setConfigDefaults :: "('l, 'h, 'r, 'd, 'k) client_go \<Rightarrow> 'l rest_config \<Rightarrow> 'l rest_config" where
  "setConfigDefaults A config =
     (let config = config\<lparr>rc_GroupVersion := Some SchemeGroupVersion, rc_APIPath := ''/apis'',
        rc_NegotiatedSerializer := WithoutConversion A\<rparr> in
      if rc_UserAgent config = [] then config\<lparr>rc_UserAgent := DefaultKubernetesUserAgent A\<rparr> else config)"

definition apps_NewForConfigAndClient ::
  "('l, 'h, 'r, 'd, 'k) client_go \<Rightarrow> 'l rest_config \<Rightarrow> 'h \<Rightarrow> string + 'r" where
  "apps_NewForConfigAndClient A c h = RESTClientForConfigAndClient A (setConfigDefaults A c) h"

definition apps_NewForConfig :: "('l, 'h, 'r, 'd, 'k) client_go \<Rightarrow> 'l rest_config \<Rightarrow> string + 'r" where
  "apps_NewForConfig A c =
     (let config = setConfigDefaults A c in
      case HTTPClientFor A config of
        Inl err \<Rightarrow> Inl err
      | Inr httpClient \<Rightarrow> apps_NewForConfigAndClient A config httpClient)"

definition apps_NewForConfigOrDie :: "('l, 'h, 'r, 'd, 'k) client_go \<Rightarrow> 'l rest_config \<Rightarrow> ('e, 'r) result" where
  "apps_NewForConfigOrDie A c = (case apps_NewForConfig A c of Inl err \<Rightarrow> Panic | Inr client \<Rightarrow> Ok client)"

record ('d, 'r) Clientset =
  cs_DiscoveryClient :: 'd
  cs_appsV1alpha1 :: 'r

definition clientset_NewForConfigAndClient ::
  "('l, 'h, 'r, 'd, 'k) client_go \<Rightarrow> 'l rest_config \<Rightarrow> 'h \<Rightarrow> string + ('d, 'r) Clientset" where
  "clientset_NewForConfigAndClient A c httpClient =
     (if rc_RateLimiter c = None \<and> rc_QPS c > 0 \<and> rc_Burst c \<le> 0 then
        Inl ''burst is required to be greater than 0 when RateLimiter is not set and QPS is set to greater than 0''
      else
        (let config = (if rc_RateLimiter c = None \<and> rc_QPS c > 0
           then c\<lparr>rc_RateLimiter := Some (NewTokenBucketRateLimiter A (rc_QPS c) (rc_Burst c))\<rparr> else c) in
         case apps_NewForConfigAndClient A config httpClient of
           Inl err \<Rightarrow> Inl err
         | Inr apps \<Rightarrow>
             (case NewDiscoveryClientForConfigAndClient A config httpClient of
                Inl err \<Rightarrow> Inl err
              | Inr disc \<Rightarrow> Inr \<lparr>cs_DiscoveryClient = disc, cs_appsV1alpha1 = apps\<rparr>)))"

definition clientset_NewForConfig ::
  "('l, 'h, 'r, 'd, 'k) client_go \<Rightarrow> 'l rest_config \<Rightarrow> string + ('d, 'r) Clientset" where
  "clientset_NewForConfig A c =
     (let config = (if rc_UserAgent c = [] then c\<lparr>rc_UserAgent := DefaultKubernetesUserAgent A\<rparr> else c) in
      case HTTPClientFor A config of
        Inl err \<Rightarrow> Inl err
      | Inr httpClient \<Rightarrow> clientset_NewForConfigAndClient A config httpClient)"

definition clientset_NewForConfigOrDie ::
  "('l, 'h, 'r, 'd, 'k) client_go \<Rightarrow> 'l rest_config \<Rightarrow> ('e, ('d, 'r) Clientset) result" where
  "clientset_NewForConfigOrDie A c = (case clientset_NewForConfig A c of Inl err \<Rightarrow> Panic | Inr cs \<Rightarrow> Ok cs)"

section \<open>The generic client\<close>

record ('d, 'k, 'r) GenericClientset =
  gc_DiscoveryClient :: 'd
  gc_KubeClient :: 'k
  gc_KruiseClient :: "('d, 'r) Clientset"

definition ContentTypeProtobuf :: string where
  "ContentTypeProtobuf = ''application/vnd.kubernetes.protobuf''"

definition newForConfig ::
  "('l, 'h, 'r, 'd, 'k) client_go \<Rightarrow> 'l rest_config \<Rightarrow> string + ('d, 'k, 'r) GenericClientset" where
  "newForConfig A c =
     (let cWithProtobuf = c\<lparr>rc_ContentType := ContentTypeProtobuf\<rparr> in
      case NewDiscoveryClientForConfig A cWithProtobuf of
        Inl err \<Rightarrow> Inl err
      | Inr discoveryClient \<Rightarrow>
          (case kube_NewForConfig A cWithProtobuf of
             Inl err \<Rightarrow> Inl err
           | Inr kubeClient \<Rightarrow>
               (case clientset_NewForConfig A c of
                  Inl err \<Rightarrow> Inl err
                | Inr kruiseClient \<Rightarrow>
                    Inr \<lparr>gc_DiscoveryClient = discoveryClient, gc_KubeClient = kubeClient,
                      gc_KruiseClient = kruiseClient\<rparr>)))"

definition newForConfigOrDie ::
  "('l, 'h, 'r, 'd, 'k) client_go \<Rightarrow> 'l rest_config \<Rightarrow> ('e, ('d, 'k, 'r) GenericClientset) result" where
  "newForConfigOrDie A c = (case newForConfig A c of Inl err \<Rightarrow> Panic | Inr gc \<Rightarrow> Ok gc)"

section \<open>The registry\<close>

record ('l, 'd, 'k, 'r) client_registry =
  reg_cfg :: "'l rest_config option"
  defaultGenericClient :: "('d, 'k, 'r) GenericClientset option"

definition no_clients :: "('l, 'd, 'k, 'r) client_registry" where
  "no_clients = \<lparr>reg_cfg = None, defaultGenericClient = None\<rparr>"

definition NewRegistry ::
  "('l, 'h, 'r, 'd, 'k) client_go \<Rightarrow> 'l rest_config \<Rightarrow> ('l, 'd, 'k, 'r) client_registry \<Rightarrow>
   string option \<times> ('l, 'd, 'k, 'r) client_registry" where
  "NewRegistry A c R =
     (case newForConfig A c of
        Inl err \<Rightarrow> (Some err, R\<lparr>defaultGenericClient := None\<rparr>)
      | Inr gc \<Rightarrow> (None, R\<lparr>defaultGenericClient := Some gc, reg_cfg := Some c\<rparr>))"

definition GetGenericClient :: "('l, 'd, 'k, 'r) client_registry \<Rightarrow> ('d, 'k, 'r) GenericClientset option" where
  "GetGenericClient R = defaultGenericClient R"

definition GetGenericClientWithName ::
  "('l, 'h, 'r, 'd, 'k) client_go \<Rightarrow> string \<Rightarrow> ('l, 'd, 'k, 'r) client_registry \<Rightarrow>
   ('e, ('d, 'k, 'r) GenericClientset option) result" where
  "GetGenericClientWithName A name R =
     (case reg_cfg R of
        None \<Rightarrow> Ok None
      | Some cfg \<Rightarrow>
          (case newForConfigOrDie A (cfg\<lparr>rc_UserAgent := rc_UserAgent cfg @ ''/'' @ name\<rparr>) of
             Ok gc \<Rightarrow> Ok (Some gc) | Fail e \<Rightarrow> Fail e | Panic \<Rightarrow> Panic | Exit \<Rightarrow> Exit))"

section \<open>Which configuration a client is made from\<close>

lemma newForConfig_Inr:
  assumes "newForConfig A c = Inr gc" and "rc_UserAgent c \<noteq> []"
  shows "kube_NewForConfig A (c\<lparr>rc_ContentType := ContentTypeProtobuf\<rparr>) = Inr (gc_KubeClient gc)"
    and "\<exists>h lim. HTTPClientFor A c = Inr h \<and>
      RESTClientForConfigAndClient A (c\<lparr>rc_RateLimiter := lim, rc_GroupVersion := Some SchemeGroupVersion,
         rc_APIPath := ''/apis'', rc_NegotiatedSerializer := WithoutConversion A\<rparr>) h =
        Inr (cs_appsV1alpha1 (gc_KruiseClient gc)) \<and>
      (rc_QPS c > 0 \<longrightarrow> lim \<noteq> None)"
proof -
  from assms(1) show "kube_NewForConfig A (c\<lparr>rc_ContentType := ContentTypeProtobuf\<rparr>) = Inr (gc_KubeClient gc)"
    by (auto simp: newForConfig_def Let_def split: sum.splits)
  from assms have "clientset_NewForConfig A c = Inr (gc_KruiseClient gc)"
    by (auto simp: newForConfig_def Let_def split: sum.splits)
  with assms(2) obtain h where h: "HTTPClientFor A c = Inr h"
    and n: "clientset_NewForConfigAndClient A c h = Inr (gc_KruiseClient gc)"
    by (auto simp: clientset_NewForConfig_def split: sum.splits)
  show "\<exists>h lim. HTTPClientFor A c = Inr h \<and>
      RESTClientForConfigAndClient A (c\<lparr>rc_RateLimiter := lim, rc_GroupVersion := Some SchemeGroupVersion,
         rc_APIPath := ''/apis'', rc_NegotiatedSerializer := WithoutConversion A\<rparr>) h =
        Inr (cs_appsV1alpha1 (gc_KruiseClient gc)) \<and> (rc_QPS c > 0 \<longrightarrow> lim \<noteq> None)"
  proof (cases "rc_RateLimiter c = None \<and> rc_QPS c > 0")
    case True
    with n have "RESTClientForConfigAndClient A (setConfigDefaults A
        (c\<lparr>rc_RateLimiter := Some (NewTokenBucketRateLimiter A (rc_QPS c) (rc_Burst c))\<rparr>)) h = Inr (cs_appsV1alpha1 (gc_KruiseClient gc))"
      by (auto simp: clientset_NewForConfigAndClient_def apps_NewForConfigAndClient_def Let_def
          dest!: sym [of _ "gc_KruiseClient gc"] split: sum.splits if_splits)
    with h assms(2) show ?thesis
      by (auto simp: setConfigDefaults_def Let_def
          intro!: exI [of _ "Some (NewTokenBucketRateLimiter A (rc_QPS c) (rc_Burst c))"])
  next
    case False
    with n have "RESTClientForConfigAndClient A (setConfigDefaults A c) h = Inr (cs_appsV1alpha1 (gc_KruiseClient gc))"
      by (auto simp: clientset_NewForConfigAndClient_def apps_NewForConfigAndClient_def Let_def
          dest!: sym [of _ "gc_KruiseClient gc"] split: sum.splits if_splits)
    moreover have "c\<lparr>rc_RateLimiter := rc_RateLimiter c\<rparr> = c" by (cases c) simp
    ultimately show ?thesis using h assms(2) False
      by (intro exI [of _ h] exI [of _ "rc_RateLimiter c"]) (auto simp: setConfigDefaults_def Let_def simp del: not_None_eq)
  qed
qed


end
