(* ===== verification/Env_Util.thy ===== *)
theory Env_Util
  imports Prelude
begin

text \<open>
  \<^verbatim>\<open>internal/webhook/util/util.go\<close>: the settings read from the environment. \<^verbatim>\<open>os.Getenv\<close> is
  the argument \<open>env\<close>, whose value is empty for an unset variable.
\<close>

type_synonym env = "string \<Rightarrow> string"

definition GetMutatingWebhookName :: "env \<Rightarrow> string" where
  "GetMutatingWebhookName env =
     (let name = env ''MUTATING_WEBHOOK_NAME'' in
      if length name > 0 then name else ''persistentpodstate-mutating-webhook-configuration'')"

definition GetValidatingWebhookName :: "env \<Rightarrow> string" where
  "GetValidatingWebhookName env =
     (let name = env ''VALIDATING_WEBHOOK_NAME'' in
      if length name > 0 then name else ''persistentpodstate-validating-webhook-configuration'')"

definition GetHost :: "env \<Rightarrow> string" where
  "GetHost env = env ''WEBHOOK_HOST''"

definition GetNamespace :: "env \<Rightarrow> string" where
  "GetNamespace env =
     (let ns = env ''POD_NAMESPACE'' in
      if length ns > 0 then ns else ''persistent-pod-state-system'')"

definition GetSecretName :: "env \<Rightarrow> string" where
  "GetSecretName env =
     (let name = env ''SECRET_NAME'' in
      if length name > 0 then name else ''persistentpodstate-webhook-certs'')"

definition GetServiceName :: "env \<Rightarrow> string" where
  "GetServiceName env =
     (let name = env ''SERVICE_NAME'' in
      if length name > 0 then name else ''persistentpodstate-webhook-service'')"

definition GetPort :: "env \<Rightarrow> ('e, int) result" where
  "GetPort env =
     (let p = env ''WEBHOOK_PORT'' in
      if length p > 0 then
        (case ParseInt32 p of Some port \<Rightarrow> Ok port | None \<Rightarrow> Exit)
      else Ok 9876)"

definition GetCertDir :: "env \<Rightarrow> string" where
  "GetCertDir env =
     (let p = env ''WEBHOOK_CERT_DIR'' in
      if length p > 0 then p else ''/tmp/persistentpodstate-webhook-certs'')"

definition GetCertWriter :: "env \<Rightarrow> string" where
  "GetCertWriter env = env ''WEBHOOK_CERT_WRITER''"

section \<open>The port\<close>

lemma GetPort_range: "GetPort env = Ok p \<Longrightarrow> - (2 ^ 31) \<le> p \<and> p < 2 ^ 31"
  by (auto simp: GetPort_def Let_def dest: ParseInt32_range split: option.splits if_splits)

lemma GetPort_cases: "GetPort env = Exit \<or> (\<exists>p. GetPort env = Ok p)"
  by (auto simp: GetPort_def Let_def split: option.splits)

text \<open>
  A port written in decimal is read back exactly when it fits into 32 bits with sign, negative
  numbers and numbers above 65535 included; any other number ends the process.
\<close>

lemma get_port_roundtrip:
  assumes "env ''WEBHOOK_PORT'' = show_int p"
  shows "GetPort env = (if - (2 ^ 31) \<le> p \<and> p < 2 ^ 31 then Ok p else Exit)"
proof -
  have "show_int p \<noteq> []" by (simp add: show_int_def)
  with assms show ?thesis by (simp add: GetPort_def Let_def ParseInt32_show)
qed

end
