(* ===== verification/Webhook_Server.thy ===== *)
theory Webhook_Server
  imports Features Env_Util
begin

text \<open>
  \<^verbatim>\<open>internal/webhook/server.go\<close> and \<^verbatim>\<open>add_pod.go\<close>: the registration of admission handlers. The
  program's global maps are the record \<open>registry\<close>; a Go map that is iterated is given as the list of
  its entries in the order of the iteration. Parameters: the handler that a builder builds, and
  controller-runtime's server, which panics when a path is registered twice.
\<close>

section \<open>Registration\<close>

type_synonym gates = "string \<Rightarrow> bool"

record 'b registry =
  HandlerBuilderMap :: "(string \<times> 'b) list"
  handlerGates :: "(string \<times> (gates \<Rightarrow> bool)) list"

text \<open>\<^verbatim>\<open>m[k] = v\<close> on a map kept as a list.\<close>

fun entry_set :: "string \<Rightarrow> 'v \<Rightarrow> (string \<times> 'v) list \<Rightarrow> (string \<times> 'v) list" where
  "entry_set k v [] = [(k, v)]"
| "entry_set k v ((k', v') # m) = (if k' = k then (k, v) # m else (k', v') # entry_set k v m)"

definition slash_path :: "string \<Rightarrow> string" where
  "slash_path path = (if hd path \<noteq> CHR ''/'' then CHR ''/'' # path else path)"

fun addHandlersWithGate :: "(string \<times> 'b) list \<Rightarrow> (gates \<Rightarrow> bool) option \<Rightarrow> 'b registry \<Rightarrow> 'b registry" where
  "addHandlersWithGate [] fn g = g"
| "addHandlersWithGate ((path, handlerBuilder) # m) fn g =
     (if length path = 0 then addHandlersWithGate m fn g
      else
        (let p = slash_path path;
             g1 = g\<lparr>HandlerBuilderMap := entry_set p handlerBuilder (HandlerBuilderMap g)\<rparr> in
         addHandlersWithGate m fn
           (case fn of None \<Rightarrow> g1 | Some f \<Rightarrow> g1\<lparr>handlerGates := entry_set p f (handlerGates g1)\<rparr>)))"

definition disablePaths :: "gates \<Rightarrow> 'b registry \<Rightarrow> string list" where
  "disablePaths gs g =
     filter (\<lambda>path. case map_of (handlerGates g) path of None \<Rightarrow> False | Some fn \<Rightarrow> \<not> fn gs)
       (map fst (HandlerBuilderMap g))"

definition filterActiveHandlers :: "gates \<Rightarrow> 'b registry \<Rightarrow> 'b registry" where
  "filterActiveHandlers gs g =
     fold (\<lambda>path g. g\<lparr>HandlerBuilderMap := filter (\<lambda>(p, _). p \<noteq> path) (HandlerBuilderMap g)\<rparr>)
       (disablePaths gs g) g"

section \<open>The server\<close>

datatype 'h route = Admission 'h | Conversion | Healthz

type_synonym 'h routes = "(string \<times> 'h route) list"

definition Register :: "string \<Rightarrow> 'h route \<Rightarrow> 'h routes \<Rightarrow> ('e, 'h routes) result" where
  "Register path r routes = (if path \<in> fst ` set routes then Panic else Ok (routes @ [(path, r)]))"

fun register_handlers ::
  "('b \<Rightarrow> 'h) \<Rightarrow> (string \<times> 'b) list \<Rightarrow> 'h routes \<times> 'h gomap \<Rightarrow> ('e, 'h routes \<times> 'h gomap) result" where
  "register_handlers build [] s = Ok s"
| "register_handlers build ((path, handlerBuilder) # m) s =
     (let handler = build handlerBuilder in
      case Register path (Admission handler) (fst s) of
        Fail e \<Rightarrow> Fail e | Panic \<Rightarrow> Panic | Exit \<Rightarrow> Exit
      | Ok routes \<Rightarrow>
          (case go_set path handler (snd s) of
             None \<Rightarrow> Panic
           | Some handlerMap \<Rightarrow> register_handlers build m (routes, handlerMap)))"

definition SetupWithManager ::
  "gates \<Rightarrow> ('b \<Rightarrow> 'h) \<Rightarrow> 'b registry \<Rightarrow> 'h routes \<times> 'h gomap \<Rightarrow>
   ('e, ('h routes \<times> 'h gomap) \<times> 'b registry) result" where
  "SetupWithManager gs build g s =
     (let g1 = filterActiveHandlers gs g in
      case register_handlers build (HandlerBuilderMap g1) s of
        Fail e \<Rightarrow> Fail e | Panic \<Rightarrow> Panic | Exit \<Rightarrow> Exit
      | Ok (routes, handlerMap) \<Rightarrow>
          (case Register ''/convert'' Conversion routes of
             Fail e \<Rightarrow> Fail e | Panic \<Rightarrow> Panic | Exit \<Rightarrow> Exit
           | Ok routes \<Rightarrow>
               (case Register ''/healthz'' Healthz routes of
                  Fail e \<Rightarrow> Fail e | Panic \<Rightarrow> Panic | Exit \<Rightarrow> Exit
                | Ok routes \<Rightarrow> Ok ((routes, handlerMap), g1))))"

section \<open>The handlers of this program\<close>

text \<open>\<^verbatim>\<open>mutating.HandlerBuilderMap\<close> and the \<^verbatim>\<open>init\<close> of \<^verbatim>\<open>add_pod.go\<close>.\<close>

definition mutating_HandlerBuilderMap :: "'b \<Rightarrow> (string \<times> 'b) list" where
  "mutating_HandlerBuilderMap podMutateBuilder = [(''mutate-pod'', podMutateBuilder)]"

definition empty_registry :: "'b registry" where
  "empty_registry = \<lparr>HandlerBuilderMap = [], handlerGates = []\<rparr>"

definition add_pod_init :: "'b \<Rightarrow> 'b registry \<Rightarrow> 'b registry" where
  "add_pod_init podMutateBuilder g =
     addHandlersWithGate (mutating_HandlerBuilderMap podMutateBuilder) (Some (\<lambda>gs. gs PodMutatingWebhook)) g"

record webhook_options =
  wo_Host :: string
  wo_Port :: int
  wo_CertDir :: string

definition SetupWithWebhookOpt :: "env \<Rightarrow> ('e, webhook_options) result" where
  "SetupWithWebhookOpt env =
     (case GetPort env of
        Fail e \<Rightarrow> Fail e | Panic \<Rightarrow> Panic | Exit \<Rightarrow> Exit
      | Ok port \<Rightarrow> Ok \<lparr>wo_Host = ''0.0.0.0'', wo_Port = port, wo_CertDir = GetCertDir env\<rparr>)"

section \<open>Which handlers are active\<close>

lemma map_of_entry_set: "map_of (entry_set k v m) = (map_of m)(k \<mapsto> v)"
  by (induction m) (auto simp: fun_eq_iff)

lemma keys_entry_set: "fst ` set (entry_set k v m) = insert k (fst ` set m)"
  by (induction k v m rule: entry_set.induct) auto

lemma distinct_entry_set: "distinct (map fst m) \<Longrightarrow> distinct (map fst (entry_set k v m))"
proof (induction m)
  case (Cons x m)
  then show ?case using keys_entry_set [of k v m] by (cases x) auto
qed simp

text \<open>The maps have one entry per key, and every path starts with a slash.\<close>

definition registry_ok :: "'b registry \<Rightarrow> bool" where
  "registry_ok g \<longleftrightarrow> distinct (map fst (HandlerBuilderMap g)) \<and>
     (\<forall>p \<in> fst ` set (HandlerBuilderMap g). p \<noteq> [] \<and> hd p = CHR ''/'')"

lemma slash_path_ok: "path \<noteq> [] \<Longrightarrow> slash_path path \<noteq> [] \<and> hd (slash_path path) = CHR ''/''"
  by (simp add: slash_path_def)

lemma addHandlersWithGate_ok: "registry_ok g \<Longrightarrow> registry_ok (addHandlersWithGate m fn g)"
proof (induction m fn g rule: addHandlersWithGate.induct)
  case (2 path b m fn g)
  have gates: "registry_ok (h\<lparr>handlerGates := gs\<rparr>) = registry_ok h" for h :: "'a registry" and gs
    by (simp add: registry_ok_def)
  have "registry_ok (g\<lparr>HandlerBuilderMap := entry_set (slash_path path) b (HandlerBuilderMap g)\<rparr>)" if "path \<noteq> []"
    using 2(3) slash_path_ok [OF that]
    by (simp add: registry_ok_def distinct_entry_set keys_entry_set)
  then show ?case using 2 by (cases fn) (auto simp: Let_def gates)
qed simp

definition enabled :: "gates \<Rightarrow> 'b registry \<Rightarrow> string \<Rightarrow> bool" where
  "enabled gs g path \<longleftrightarrow> (case map_of (handlerGates g) path of None \<Rightarrow> True | Some fn \<Rightarrow> fn gs)"

lemma fold_delete:
  "HandlerBuilderMap (fold (\<lambda>path g. g\<lparr>HandlerBuilderMap := filter (\<lambda>(p, _). p \<noteq> path) (HandlerBuilderMap g)\<rparr>) ps g) =
     filter (\<lambda>(p, _). p \<notin> set ps) (HandlerBuilderMap g)"
  by (induction ps arbitrary: g) (auto simp: filter_filter intro!: filter_cong)

lemma filterActive_eq:
  "HandlerBuilderMap (filterActiveHandlers gs g) = filter (\<lambda>(p, _). enabled gs g p) (HandlerBuilderMap g)"
  unfolding filterActiveHandlers_def fold_delete
  by (rule filter_cong) (auto simp: disablePaths_def enabled_def image_iff split: option.splits)

lemma register_handlers_eq:
  assumes "distinct (map fst m)" and "fst ` set m \<inter> fst ` set routes = {}"
  shows "register_handlers build m (routes, Some hm) =
     (Ok (routes @ map (\<lambda>(p, b). (p, Admission (build b))) m, Some (fold (\<lambda>(p, b). fmupd p (build b)) m hm))
       :: ('e, 'h routes \<times> 'h gomap) result)"
  using assms
proof (induction m arbitrary: routes hm)
  case (Cons x m)
  obtain p b where x: "x = (p, b)" by fastforce
  with Cons.prems have "p \<notin> fst ` set routes" "p \<notin> fst ` set m" by auto
  moreover have "fst ` set m \<inter> fst ` set (routes @ [(p, Admission (build b))]) = {}"
    using Cons.prems x \<open>p \<notin> fst ` set m\<close> by auto
  ultimately show ?case using Cons x by (simp add: Register_def Let_def)
qed simp

lemma fold_fmupd_lookup:
  "distinct (map fst m) \<Longrightarrow> fmlookup (fold (\<lambda>(p, b). fmupd p (build b)) m hm) q =
     (case map_of m q of None \<Rightarrow> fmlookup hm q | Some b \<Rightarrow> Some (build b))"
proof (induction m arbitrary: hm)
  case (Cons x m)
  then have "map_of m (fst x) = None" by (simp add: map_of_eq_None_iff)
  with Cons show ?case by (cases x) (auto split: option.split)
qed simp

text \<open>
  C28. Whatever builders were added: the handlers that \<^verbatim>\<open>SetupWithManager\<close> serves, and hands to the
  webhook controller, are exactly the builders whose gate is enabled or missing, each under its
  path; a path that is disabled has no route. Nothing is registered twice, so the server does not
  panic, provided no builder takes one of the program's own two paths.
\<close>

theorem setup_serves_enabled:
  assumes ok: "registry_ok g" and own: "''/convert'' \<notin> fst ` set (HandlerBuilderMap g)" "''/healthz'' \<notin> fst ` set (HandlerBuilderMap g)"
  shows "\<exists>routes hm g1. SetupWithManager gs build g ([], go_make) = (Ok ((routes, hm), g1) :: ('e, _) result) \<and>
     (\<forall>p h. ((p, Admission h) \<in> set routes) \<longleftrightarrow>
        (\<exists>b. map_of (HandlerBuilderMap g) p = Some b \<and> enabled gs g p \<and> h = build b)) \<and>
     (\<forall>p. go_has hm p \<longleftrightarrow> map_of (HandlerBuilderMap g) p \<noteq> None \<and> enabled gs g p) \<and>
     distinct (map fst routes)"
proof -
  let ?m = "filter (\<lambda>(p, _). enabled gs g p) (HandlerBuilderMap g)"
  let ?rs = "map (\<lambda>(p, b). (p, Admission (build b))) ?m"
  have d: "distinct (map fst (HandlerBuilderMap g))" using ok by (simp add: registry_ok_def)
  then have dm: "distinct (map fst ?m)" by (simp add: distinct_map_filter)
  have keys: "fst ` set ?rs = fst ` set ?m" by force
  have no: "''/convert'' \<notin> fst ` set ?rs" "''/healthz'' \<notin> fst ` set ?rs" using own unfolding keys by auto
  have run: "SetupWithManager gs build g ([], go_make) =
     (Ok ((?rs @ [(''/convert'', Conversion), (''/healthz'', Healthz)],
        Some (fold (\<lambda>(p, b). fmupd p (build b)) ?m fmempty)), filterActiveHandlers gs g) :: ('e, _) result)"
    using no by (simp add: SetupWithManager_def go_make_def filterActive_eq register_handlers_eq [OF dm] Register_def)
  have sel: "map_of ?m p = Some b \<longleftrightarrow> map_of (HandlerBuilderMap g) p = Some b \<and> enabled gs g p" for p b
    using d dm by auto
  have "(p, Admission h) \<in> set (?rs @ [(''/convert'', Conversion), (''/healthz'', Healthz)]) \<longleftrightarrow>
      (\<exists>b. map_of (HandlerBuilderMap g) p = Some b \<and> enabled gs g p \<and> h = build b)" for p h
    using d by force
  moreover have "go_has (Some (fold (\<lambda>(p, b). fmupd p (build b)) ?m fmempty)) p \<longleftrightarrow>
      map_of (HandlerBuilderMap g) p \<noteq> None \<and> enabled gs g p" for p
    using sel [of p] by (cases "map_of ?m p") (auto simp: go_has_def fold_fmupd_lookup [OF dm] split: option.splits)
  moreover have "distinct (map fst (?rs @ [(''/convert'', Conversion), (''/healthz'', Healthz)]))"
  proof -
    have "map fst ?rs = map fst ?m" by (simp add: case_prod_beta comp_def)
    with dm have "distinct (map fst ?rs)" by metis
    with no show ?thesis unfolding map_append distinct_append by auto
  qed
  ultimately show ?thesis using run by blast
qed

lemma add_pod_registry:
  "HandlerBuilderMap (add_pod_init b empty_registry) = [(''/mutate-pod'', b)]"
  "handlerGates (add_pod_init b empty_registry) = [(''/mutate-pod'', \<lambda>gs. gs PodMutatingWebhook)]"
  by (simp_all add: add_pod_init_def empty_registry_def mutating_HandlerBuilderMap_def slash_path_def Let_def)

lemma add_pod_ok: "registry_ok (add_pod_init b empty_registry)"
  by (simp add: registry_ok_def add_pod_registry)

theorem setup_serves_enabled_witness:
  "\<exists>routes hm g1. SetupWithManager (\<lambda>_. True) id (add_pod_init (7 :: nat) empty_registry) ([], go_make) =
      (Ok ((routes, hm), g1) :: (unit, _) result) \<and> (''/mutate-pod'', Admission 7) \<in> set routes"
proof -
  have "enabled (\<lambda>_. True) (add_pod_init (7 :: nat) empty_registry) ''/mutate-pod''"
    by (simp add: add_pod_registry enabled_def)
  with setup_serves_enabled [OF add_pod_ok [of "7 :: nat"], where gs = "\<lambda>_. True" and build = id and 'e = unit]
  show ?thesis by (fastforce simp: add_pod_registry)
qed

end
