(* ===== verification/Kube_Client.thy ===== *)
theory Kube_Client
  imports API_Types Cluster_Client
begin

text \<open>
  The objects the webhook controller keeps in order (webhook configurations and the secret with the
  certificates) and client-go's clientset, which is not part of this repository: a record of
  operations over an arbitrary state \<open>'w\<close>, a parameter of the definitions that call it. The
  predicate \<open>kube_ok\<close> states the documented behaviour of a server that answers every call.
\<close>

section \<open>Webhook configurations and secrets\<close>

record ServiceReference =
  sr_Namespace :: string
  sr_Name :: string
  sr_Path :: "string option"
  sr_rest :: opaque

record WebhookClientConfig =
  cc_URL :: "string option"
  cc_Service :: "ServiceReference option"
  cc_CABundle :: "char goslice"

record MutatingWebhook =
  mw_ClientConfig :: WebhookClientConfig
  mw_rest :: opaque

record ValidatingWebhook =
  vw_ClientConfig :: WebhookClientConfig
  vw_rest :: opaque

record MutatingWebhookConfiguration =
  mwc_Meta :: object_meta
  mwc_Webhooks :: "MutatingWebhook goslice"

record ValidatingWebhookConfiguration =
  vwc_Meta :: object_meta
  vwc_Webhooks :: "ValidatingWebhook goslice"

record Secret =
  sec_Meta :: object_meta
  sec_Data :: "char goslice gomap"

section \<open>The clientset\<close>

record 'w kube =
  GetMWC :: "string \<Rightarrow> 'w \<Rightarrow> (api_error + MutatingWebhookConfiguration) \<times> 'w"
  GetVWC :: "string \<Rightarrow> 'w \<Rightarrow> (api_error + ValidatingWebhookConfiguration) \<times> 'w"
  UpdateMWC :: "MutatingWebhookConfiguration \<Rightarrow> 'w \<Rightarrow> go_error \<times> 'w"
  UpdateVWC :: "ValidatingWebhookConfiguration \<Rightarrow> 'w \<Rightarrow> go_error \<times> 'w"
  GetSecret :: "string \<Rightarrow> string \<Rightarrow> 'w \<Rightarrow> (api_error + Secret) \<times> 'w"
  CreateSecret :: "Secret \<Rightarrow> 'w \<Rightarrow> go_error \<times> 'w"
  UpdateSecret :: "Secret \<Rightarrow> 'w \<Rightarrow> go_error \<times> 'w"

section \<open>A server that answers every call\<close>

record 'w kube_view =
  kv_MWC :: "'w \<Rightarrow> string \<Rightarrow> MutatingWebhookConfiguration option"
  kv_VWC :: "'w \<Rightarrow> string \<Rightarrow> ValidatingWebhookConfiguration option"
  kv_Secret :: "'w \<Rightarrow> string \<times> string \<Rightarrow> Secret option"

definition kube_reads_ok :: "'w kube \<Rightarrow> 'w kube_view \<Rightarrow> bool" where
  "kube_reads_ok k v \<longleftrightarrow>
     (\<forall>n w. GetMWC k n w = found n (kv_MWC v w n) w) \<and>
     (\<forall>n w. GetVWC k n w = found n (kv_VWC v w n) w) \<and>
     (\<forall>ns n w. GetSecret k ns n w = found n (kv_Secret v w (ns, n)) w)"

definition kube_keys_ok :: "'w kube_view \<Rightarrow> bool" where
  "kube_keys_ok v \<longleftrightarrow>
     (\<forall>w n c. kv_MWC v w n = Some c \<longrightarrow> om_Name (mwc_Meta c) = n) \<and>
     (\<forall>w n c. kv_VWC v w n = Some c \<longrightarrow> om_Name (vwc_Meta c) = n) \<and>
     (\<forall>w k s. kv_Secret v w k = Some s \<longrightarrow> (om_Namespace (sec_Meta s), om_Name (sec_Meta s)) = k)"

text \<open>
  Secrets and webhook configurations are different resources: a write to one leaves the other alone.
  An update that carries the stored resource version is accepted; the server may change nothing
  but the metadata it owns. An update of a stored object leaves every other object alone.
\<close>

definition kube_updates_ok :: "'w kube \<Rightarrow> 'w kube_view \<Rightarrow> bool" where
  "kube_updates_ok k v \<longleftrightarrow>
     (\<forall>c old w. kv_MWC v w (om_Name (mwc_Meta c)) = Some old \<longrightarrow>
        om_ResourceVersion (mwc_Meta c) = om_ResourceVersion (mwc_Meta old) \<longrightarrow>
        (\<exists>c' w'. UpdateMWC k c w = (None, w') \<and> stored_as (mwc_Meta c) (mwc_Meta c') \<and>
           mwc_Webhooks c' = mwc_Webhooks c \<and>
           kv_MWC v w' = (kv_MWC v w)(om_Name (mwc_Meta c) \<mapsto> c') \<and>
           kv_VWC v w' = kv_VWC v w \<and> kv_Secret v w' = kv_Secret v w)) \<and>
     (\<forall>c old w. kv_VWC v w (om_Name (vwc_Meta c)) = Some old \<longrightarrow>
        om_ResourceVersion (vwc_Meta c) = om_ResourceVersion (vwc_Meta old) \<longrightarrow>
        (\<exists>c' w'. UpdateVWC k c w = (None, w') \<and> stored_as (vwc_Meta c) (vwc_Meta c') \<and>
           vwc_Webhooks c' = vwc_Webhooks c \<and>
           kv_VWC v w' = (kv_VWC v w)(om_Name (vwc_Meta c) \<mapsto> c') \<and>
           kv_MWC v w' = kv_MWC v w \<and> kv_Secret v w' = kv_Secret v w))"

definition kube_secrets_ok :: "'w kube \<Rightarrow> 'w kube_view \<Rightarrow> bool" where
  "kube_secrets_ok k v \<longleftrightarrow>
     (\<forall>s w. kv_MWC v (snd (CreateSecret k s w)) = kv_MWC v w \<and> kv_VWC v (snd (CreateSecret k s w)) = kv_VWC v w) \<and>
     (\<forall>s w. kv_MWC v (snd (UpdateSecret k s w)) = kv_MWC v w \<and> kv_VWC v (snd (UpdateSecret k s w)) = kv_VWC v w) \<and>
     (\<forall>s w. kv_Secret v w (om_Namespace (sec_Meta s), om_Name (sec_Meta s)) = None \<longrightarrow>
        (\<exists>s' w'. CreateSecret k s w = (None, w') \<and> stored_as (sec_Meta s) (sec_Meta s') \<and>
           sec_Data s' = sec_Data s \<and>
           kv_Secret v w' = (kv_Secret v w)((om_Namespace (sec_Meta s), om_Name (sec_Meta s)) \<mapsto> s'))) \<and>
     (\<forall>s w. kv_Secret v w (om_Namespace (sec_Meta s), om_Name (sec_Meta s)) \<noteq> None \<longrightarrow>
        CreateSecret k s w = (Some (AlreadyExists (om_Name (sec_Meta s))), w)) \<and>
     (\<forall>s old w. kv_Secret v w (om_Namespace (sec_Meta s), om_Name (sec_Meta s)) = Some old \<longrightarrow>
        om_ResourceVersion (sec_Meta s) = [] \<or>
        om_ResourceVersion (sec_Meta s) = om_ResourceVersion (sec_Meta old) \<longrightarrow>
        (\<exists>s' w'. UpdateSecret k s w = (None, w') \<and> stored_as (sec_Meta s) (sec_Meta s') \<and>
           sec_Data s' = sec_Data s \<and>
           kv_Secret v w' = (kv_Secret v w)((om_Namespace (sec_Meta s), om_Name (sec_Meta s)) \<mapsto> s')))"

definition kube_ok :: "'w kube \<Rightarrow> 'w kube_view \<Rightarrow> bool" where
  "kube_ok k v \<longleftrightarrow>
     kube_reads_ok k v \<and> kube_keys_ok v \<and> kube_updates_ok k v \<and> kube_secrets_ok k v"

section \<open>Lemmas\<close>

lemma kube_reads [simp]:
  assumes "kube_ok k v"
  shows "GetMWC k n w = found n (kv_MWC v w n) w"
    and "GetVWC k n w = found n (kv_VWC v w n) w"
    and "GetSecret k ns n w = found n (kv_Secret v w (ns, n)) w"
  using assms by (simp_all add: kube_ok_def kube_reads_ok_def)

lemma kube_keys:
  assumes "kube_ok k v"
  shows "kv_MWC v w n = Some c \<Longrightarrow> om_Name (mwc_Meta c) = n"
    and "kv_VWC v w n = Some d \<Longrightarrow> om_Name (vwc_Meta d) = n"
    and "kv_Secret v w (ns, n) = Some s \<Longrightarrow> om_Namespace (sec_Meta s) = ns \<and> om_Name (sec_Meta s) = n"
proof -
  from assms have keys: "kube_keys_ok v" by (simp add: kube_ok_def)
  show "kv_MWC v w n = Some c \<Longrightarrow> om_Name (mwc_Meta c) = n"
    using keys by (simp add: kube_keys_ok_def)
  show "kv_VWC v w n = Some d \<Longrightarrow> om_Name (vwc_Meta d) = n"
    using keys by (simp add: kube_keys_ok_def)
  assume "kv_Secret v w (ns, n) = Some s"
  with keys have "(om_Namespace (sec_Meta s), om_Name (sec_Meta s)) = (ns, n)"
    unfolding kube_keys_ok_def by blast
  then show "om_Namespace (sec_Meta s) = ns \<and> om_Name (sec_Meta s) = n" by simp
qed

lemma kube_updateMWC:
  assumes "kube_ok k v" and "kv_MWC v w (om_Name (mwc_Meta c)) = Some old"
    and "om_ResourceVersion (mwc_Meta c) = om_ResourceVersion (mwc_Meta old)"
  obtains c' w' where "UpdateMWC k c w = (None, w')" "stored_as (mwc_Meta c) (mwc_Meta c')"
    "mwc_Webhooks c' = mwc_Webhooks c" "kv_MWC v w' = (kv_MWC v w)(om_Name (mwc_Meta c) \<mapsto> c')"
    "kv_VWC v w' = kv_VWC v w" "kv_Secret v w' = kv_Secret v w"
  using assms unfolding kube_ok_def kube_updates_ok_def by blast

lemma kube_updateVWC:
  assumes "kube_ok k v" and "kv_VWC v w (om_Name (vwc_Meta c)) = Some old"
    and "om_ResourceVersion (vwc_Meta c) = om_ResourceVersion (vwc_Meta old)"
  obtains c' w' where "UpdateVWC k c w = (None, w')" "stored_as (vwc_Meta c) (vwc_Meta c')"
    "vwc_Webhooks c' = vwc_Webhooks c" "kv_VWC v w' = (kv_VWC v w)(om_Name (vwc_Meta c) \<mapsto> c')"
    "kv_MWC v w' = kv_MWC v w" "kv_Secret v w' = kv_Secret v w"
  using assms unfolding kube_ok_def kube_updates_ok_def by blast

lemma kube_secret_frame:
  assumes "kube_ok k v"
  shows "kv_MWC v (snd (CreateSecret k s w)) = kv_MWC v w" "kv_VWC v (snd (CreateSecret k s w)) = kv_VWC v w"
    "kv_MWC v (snd (UpdateSecret k s w)) = kv_MWC v w" "kv_VWC v (snd (UpdateSecret k s w)) = kv_VWC v w"
  using assms by (simp_all add: kube_ok_def kube_secrets_ok_def)

lemma kube_createSecret:
  assumes "kube_ok k v" and "kv_Secret v w (om_Namespace (sec_Meta s), om_Name (sec_Meta s)) = None"
  obtains s' w' where "CreateSecret k s w = (None, w')" "sec_Data s' = sec_Data s"
    "kv_Secret v w' = (kv_Secret v w)((om_Namespace (sec_Meta s), om_Name (sec_Meta s)) \<mapsto> s')"
  using assms unfolding kube_ok_def kube_secrets_ok_def by blast

lemma kube_updateSecret:
  assumes "kube_ok k v"
    and "kv_Secret v w (om_Namespace (sec_Meta s), om_Name (sec_Meta s)) = Some old"
    and "om_ResourceVersion (sec_Meta s) = [] \<or>
      om_ResourceVersion (sec_Meta s) = om_ResourceVersion (sec_Meta old)"
  obtains s' w' where "UpdateSecret k s w = (None, w')" "sec_Data s' = sec_Data s"
    "kv_Secret v w' = (kv_Secret v w)((om_Namespace (sec_Meta s), om_Name (sec_Meta s)) \<mapsto> s')"
  using assms unfolding kube_ok_def kube_secrets_ok_def by blast

end
