(* ===== verification/Webhook_Config.thy ===== *)
theory Webhook_Config
  imports Kube_Client Env_Util
begin

text \<open>
  \<^verbatim>\<open>internal/webhook/util/configuration/configuration.go\<close>: \<^verbatim>\<open>Ensure\<close> writes the CA bundle and the
  address of this program into the webhook configurations, from a template that it keeps in an
  annotation. Parameters: the clientset, \<^verbatim>\<open>encoding/json\<close> on the two webhook types and the path
  of \<^verbatim>\<open>net/url.Parse\<close> (record \<open>config_codec\<close>), and the environment.

  The code handles mutating and validating webhooks by two copies of the same loop; the locale
  \<open>webhook_kind\<close> states what both compute, against the reference definitions \<open>configure\<close> and
  \<open>configure_all\<close>.
\<close>

section \<open>Client configurations\<close>

datatype config_error =
    ConfigNotFound string
  | BadTemplate string
  | BadURL string
  | InvalidClientConfig
  | UpdateFailed string

record config_codec =
  marshalMW :: "MutatingWebhook goslice \<Rightarrow> string + string"
  unmarshalMW :: "string \<Rightarrow> string + MutatingWebhook goslice"
  marshalVW :: "ValidatingWebhook goslice \<Rightarrow> string + string"
  unmarshalVW :: "string \<Rightarrow> string + ValidatingWebhook goslice"
  urlPath :: "string \<Rightarrow> string + string"

text \<open>\<^verbatim>\<open>*clientConfig.Service.Path\<close> panics on a service without a path.\<close>

definition getPath :: "config_codec \<Rightarrow> WebhookClientConfig \<Rightarrow> (config_error, string) result" where
  "getPath cd clientConfig =
     (case cc_Service clientConfig of
        Some service \<Rightarrow> (case sr_Path service of Some p \<Rightarrow> Ok p | None \<Rightarrow> Panic)
      | None \<Rightarrow>
          (case cc_URL clientConfig of
             Some u \<Rightarrow> (case urlPath cd u of Inl err \<Rightarrow> Fail (BadURL err) | Inr p \<Rightarrow> Ok p)
           | None \<Rightarrow> Fail InvalidClientConfig))"

definition https_url :: "string \<Rightarrow> int \<Rightarrow> string \<Rightarrow> string" where
  "https_url host port path = ''https://'' @ host @ '':'' @ show_int port @ path"

definition convertClientConfig ::
  "WebhookClientConfig \<Rightarrow> string \<Rightarrow> int \<Rightarrow> (config_error, WebhookClientConfig) result" where
  "convertClientConfig clientConfig host port =
     (case cc_Service clientConfig of
        None \<Rightarrow> Panic
      | Some service \<Rightarrow>
          (case sr_Path service of
             None \<Rightarrow> Panic
           | Some p \<Rightarrow> Ok (clientConfig\<lparr>cc_URL := Some (https_url host port p), cc_Service := None\<rparr>)))"

section \<open>Templates\<close>

definition parseMutatingTemplate ::
  "config_codec \<Rightarrow> MutatingWebhookConfiguration \<Rightarrow>
   (config_error, MutatingWebhook goslice \<times> MutatingWebhookConfiguration) result" where
  "parseMutatingTemplate cd conf =
     (let templateStr = go_get [] (om_Annotations (mwc_Meta conf)) ''template'' in
      if length templateStr > 0 then
        (case unmarshalMW cd templateStr of
           Inl err \<Rightarrow> Fail (BadTemplate err)
         | Inr whs \<Rightarrow> Ok (whs, conf))
      else
        (case marshalMW cd (mwc_Webhooks conf) of
           Inl err \<Rightarrow> Fail (BadTemplate err)
         | Inr templateBytes \<Rightarrow>
             (let annotations = (if om_Annotations (mwc_Meta conf) = None then go_make
                                 else om_Annotations (mwc_Meta conf)) in
              case go_set ''template'' templateBytes annotations of
                None \<Rightarrow> Panic
              | Some a \<Rightarrow>
                  Ok (mwc_Webhooks conf, conf\<lparr>mwc_Meta := (mwc_Meta conf)\<lparr>om_Annotations := a\<rparr>\<rparr>))))"

definition parseValidatingTemplate ::
  "config_codec \<Rightarrow> ValidatingWebhookConfiguration \<Rightarrow>
   (config_error, ValidatingWebhook goslice \<times> ValidatingWebhookConfiguration) result" where
  "parseValidatingTemplate cd conf =
     (let templateStr = go_get [] (om_Annotations (vwc_Meta conf)) ''template'' in
      if length templateStr > 0 then
        (case unmarshalVW cd templateStr of
           Inl err \<Rightarrow> Fail (BadTemplate err)
         | Inr whs \<Rightarrow> Ok (whs, conf))
      else
        (case marshalVW cd (vwc_Webhooks conf) of
           Inl err \<Rightarrow> Fail (BadTemplate err)
         | Inr templateBytes \<Rightarrow>
             (let annotations = (if om_Annotations (vwc_Meta conf) = None then go_make
                                 else om_Annotations (vwc_Meta conf)) in
              case go_set ''template'' templateBytes annotations of
                None \<Rightarrow> Panic
              | Some a \<Rightarrow>
                  Ok (vwc_Webhooks conf, conf\<lparr>vwc_Meta := (vwc_Meta conf)\<lparr>om_Annotations := a\<rparr>\<rparr>))))"

section \<open>Ensure\<close>

definition go_append :: "'a goslice \<Rightarrow> 'a \<Rightarrow> 'a goslice" where
  "go_append s x = Some (items s @ [x])"

definition own_service :: "env \<Rightarrow> WebhookClientConfig \<Rightarrow> WebhookClientConfig" where
  "own_service env cc =
     cc\<lparr>cc_Service := map_option (\<lambda>s. s\<lparr>sr_Namespace := GetNamespace env,
        sr_Name := GetServiceName env\<rparr>) (cc_Service cc)\<rparr>"

fun mutating_loop ::
  "env \<Rightarrow> config_codec \<Rightarrow> 'h gomap \<Rightarrow> char goslice \<Rightarrow> MutatingWebhook list \<Rightarrow> MutatingWebhook goslice \<Rightarrow>
   (config_error, MutatingWebhook goslice) result" where
  "mutating_loop env cd handlers caBundle [] mutatingWHs = Ok mutatingWHs"
| "mutating_loop env cd handlers caBundle (wh # whs) mutatingWHs =
     (let cc = (mw_ClientConfig wh)\<lparr>cc_CABundle := caBundle\<rparr> in
      case getPath cd cc of
        Fail err \<Rightarrow> Fail err | Panic \<Rightarrow> Panic | Exit \<Rightarrow> Exit
      | Ok path \<Rightarrow>
          if \<not> go_has handlers path then mutating_loop env cd handlers caBundle whs mutatingWHs
          else
            (let cc = own_service env cc; host = GetHost env in
             if length host > 0 \<and> cc_Service cc \<noteq> None then
               (case GetPort env of
                  Fail err \<Rightarrow> Fail err | Panic \<Rightarrow> Panic | Exit \<Rightarrow> Exit
                | Ok port \<Rightarrow>
                    (case convertClientConfig cc host port of
                       Fail err \<Rightarrow> Fail err | Panic \<Rightarrow> Panic | Exit \<Rightarrow> Exit
                     | Ok cc \<Rightarrow> mutating_loop env cd handlers caBundle whs
                         (go_append mutatingWHs (wh\<lparr>mw_ClientConfig := cc\<rparr>))))
             else mutating_loop env cd handlers caBundle whs
               (go_append mutatingWHs (wh\<lparr>mw_ClientConfig := cc\<rparr>))))"

fun validating_loop ::
  "env \<Rightarrow> config_codec \<Rightarrow> 'h gomap \<Rightarrow> char goslice \<Rightarrow> ValidatingWebhook list \<Rightarrow> ValidatingWebhook goslice \<Rightarrow>
   (config_error, ValidatingWebhook goslice) result" where
  "validating_loop env cd handlers caBundle [] validatingWHs = Ok validatingWHs"
| "validating_loop env cd handlers caBundle (wh # whs) validatingWHs =
     (let cc = (vw_ClientConfig wh)\<lparr>cc_CABundle := caBundle\<rparr> in
      case getPath cd cc of
        Fail err \<Rightarrow> Fail err | Panic \<Rightarrow> Panic | Exit \<Rightarrow> Exit
      | Ok path \<Rightarrow>
          if \<not> go_has handlers path then validating_loop env cd handlers caBundle whs validatingWHs
          else
            (let cc = own_service env cc; host = GetHost env in
             if length host > 0 \<and> cc_Service cc \<noteq> None then
               (case GetPort env of
                  Fail err \<Rightarrow> Fail err | Panic \<Rightarrow> Panic | Exit \<Rightarrow> Exit
                | Ok port \<Rightarrow>
                    (case convertClientConfig cc host port of
                       Fail err \<Rightarrow> Fail err | Panic \<Rightarrow> Panic | Exit \<Rightarrow> Exit
                     | Ok cc \<Rightarrow> validating_loop env cd handlers caBundle whs
                         (go_append validatingWHs (wh\<lparr>vw_ClientConfig := cc\<rparr>))))
             else validating_loop env cd handlers caBundle whs
               (go_append validatingWHs (wh\<lparr>vw_ClientConfig := cc\<rparr>))))"

definition update_mutating ::
  "env \<Rightarrow> 'w kube \<Rightarrow> MutatingWebhookConfiguration \<Rightarrow> MutatingWebhookConfiguration \<Rightarrow> 'w \<Rightarrow>
   (config_error, unit) result \<times> 'w" where
  "update_mutating env k old conf w =
     (if conf \<noteq> old then
        (case UpdateMWC k conf w of
           (Some err, w1) \<Rightarrow> (Fail (UpdateFailed (GetMutatingWebhookName env)), w1)
         | (None, w1) \<Rightarrow> (Ok (), w1))
      else (Ok (), w))"

definition update_validating ::
  "env \<Rightarrow> 'w kube \<Rightarrow> ValidatingWebhookConfiguration \<Rightarrow> ValidatingWebhookConfiguration \<Rightarrow> 'w \<Rightarrow>
   (config_error, unit) result \<times> 'w" where
  "update_validating env k old conf w =
     (if conf \<noteq> old then
        (case UpdateVWC k conf w of
           (Some err, w1) \<Rightarrow> (Fail (UpdateFailed (GetValidatingWebhookName env)), w1)
         | (None, w1) \<Rightarrow> (Ok (), w1))
      else (Ok (), w))"

definition Ensure ::
  "env \<Rightarrow> config_codec \<Rightarrow> 'w kube \<Rightarrow> 'h gomap \<Rightarrow> char goslice \<Rightarrow> 'w \<Rightarrow> (config_error, unit) result \<times> 'w"
where
  "Ensure env cd k handlers caBundle w =
     (case GetMWC k (GetMutatingWebhookName env) w of
        (Inl err, w1) \<Rightarrow> (Fail (ConfigNotFound (GetMutatingWebhookName env)), w1)
      | (Inr oldMutatingConfig, w1) \<Rightarrow>
          (case GetVWC k (GetValidatingWebhookName env) w1 of
             (Inl err, w2) \<Rightarrow> (Fail (ConfigNotFound (GetValidatingWebhookName env)), w2)
           | (Inr oldValidatingConfig, w2) \<Rightarrow>
               on_ok (parseMutatingTemplate cd oldMutatingConfig, w2)
                 (\<lambda>(mutatingTemplate, mutatingConfig) w2.
               on_ok (parseValidatingTemplate cd oldValidatingConfig, w2)
                 (\<lambda>(validatingTemplate, validatingConfig) w2.
               on_ok (mutating_loop env cd handlers caBundle (items mutatingTemplate) None, w2)
                 (\<lambda>mutatingWHs w2.
               on_ok (validating_loop env cd handlers caBundle (items validatingTemplate) None, w2)
                 (\<lambda>validatingWHs w2.
               on_ok (update_mutating env k oldMutatingConfig
                        (mutatingConfig\<lparr>mwc_Webhooks := mutatingWHs\<rparr>) w2)
                 (\<lambda>_ w3. update_validating env k oldValidatingConfig
                        (validatingConfig\<lparr>vwc_Webhooks := validatingWHs\<rparr>) w3)))))))"

section \<open>What the loops compute\<close>

text \<open>The reference: what becomes of one client configuration, \<^const>\<open>None\<close> if it is dropped.\<close>

definition configure ::
  "env \<Rightarrow> config_codec \<Rightarrow> 'h gomap \<Rightarrow> char goslice \<Rightarrow> WebhookClientConfig \<Rightarrow>
   (config_error, WebhookClientConfig option) result" where
  "configure env cd handlers caBundle cc =
     fst (on_ok (getPath cd cc, ()) (\<lambda>path _.
       if \<not> go_has handlers path then (Ok None, ())
       else
         (let cc = own_service env (cc\<lparr>cc_CABundle := caBundle\<rparr>) in
          if GetHost env \<noteq> [] \<and> cc_Service cc \<noteq> None then
            on_ok (GetPort env, ()) (\<lambda>port _.
              (Ok (Some (cc\<lparr>cc_URL := Some (https_url (GetHost env) port path), cc_Service := None\<rparr>)), ()))
          else (Ok (Some cc), ()))))"

fun configure_all ::
  "(WebhookClientConfig \<Rightarrow> (config_error, WebhookClientConfig option) result) \<Rightarrow>
   ('wh \<Rightarrow> WebhookClientConfig) \<Rightarrow> (WebhookClientConfig \<Rightarrow> 'wh \<Rightarrow> 'wh) \<Rightarrow>
   'wh list \<Rightarrow> 'wh goslice \<Rightarrow> (config_error, 'wh goslice) result" where
  "configure_all f get put [] acc = Ok acc"
| "configure_all f get put (wh # whs) acc =
     (case f (get wh) of
        Fail err \<Rightarrow> Fail err | Panic \<Rightarrow> Panic | Exit \<Rightarrow> Exit
      | Ok None \<Rightarrow> configure_all f get put whs acc
      | Ok (Some cc) \<Rightarrow> configure_all f get put whs (go_append acc (put cc wh)))"

text \<open>
  What a list of webhooks stands for. Those of the template whose path has a handler are kept, in
  their order, and only their client configuration changes: it trusts the given CA, and it is this
  program's service, or, when a host is set, the URL of that host with the service's path. A webhook
  that the template gives by an URL keeps that URL.
\<close>

definition handled :: "config_codec \<Rightarrow> 'h gomap \<Rightarrow> WebhookClientConfig \<Rightarrow> bool" where
  "handled cd handlers cc \<longleftrightarrow> (\<exists>p. getPath cd cc = Ok p \<and> go_has handlers p)"

definition reached_as :: "env \<Rightarrow> char goslice \<Rightarrow> WebhookClientConfig \<Rightarrow> WebhookClientConfig \<Rightarrow> bool" where
  "reached_as env ca cc cc' \<longleftrightarrow>
     cc_CABundle cc' = ca \<and>
     (case cc_Service cc of
        None \<Rightarrow> cc_Service cc' = None \<and> cc_URL cc' = cc_URL cc
      | Some s \<Rightarrow>
          if GetHost env = [] then
            cc_Service cc' = Some (s\<lparr>sr_Namespace := GetNamespace env, sr_Name := GetServiceName env\<rparr>) \<and>
            cc_URL cc' = cc_URL cc
          else
            cc_Service cc' = None \<and>
            (\<exists>port p. GetPort env = (Ok port :: (config_error, int) result) \<and> sr_Path s = Some p \<and>
               cc_URL cc' = Some (https_url (GetHost env) port p)))"

definition registers ::
  "env \<Rightarrow> config_codec \<Rightarrow> 'h gomap \<Rightarrow> char goslice \<Rightarrow> ('wh \<Rightarrow> WebhookClientConfig) \<Rightarrow>
   (WebhookClientConfig \<Rightarrow> 'wh \<Rightarrow> 'wh) \<Rightarrow> 'wh list \<Rightarrow> 'wh list \<Rightarrow> bool" where
  "registers env cd handlers ca get put template whs \<longleftrightarrow>
     list_all2 (\<lambda>wh wh'. wh' = put (get wh') wh \<and> reached_as env ca (get wh) (get wh'))
       (filter (\<lambda>wh. handled cd handlers (get wh)) template) whs"

lemma own_service_CABundle [simp]: "cc_CABundle (own_service env cc) = cc_CABundle cc"
  by (simp add: own_service_def)

lemma fst_on_ok_Ok:
  "fst (on_ok (r, ()) f) = Ok y \<longleftrightarrow> (\<exists>x. r = Ok x \<and> fst (f x ()) = Ok y)"
  by (cases r) auto

lemma configure_reached:
  assumes "configure env cd handlers ca cc = Ok r"
  shows "handled cd handlers cc \<longleftrightarrow> r \<noteq> None" and "r = Some cc' \<Longrightarrow> reached_as env ca cc cc'"
  using assms unfolding configure_def fst_on_ok_Ok
  by (auto simp: handled_def own_service_def getPath_def reached_as_def Let_def fst_on_ok_Ok
      split: option.splits sum.splits if_splits)

locale webhook_kind =
  fixes loop :: "env \<Rightarrow> config_codec \<Rightarrow> 'h gomap \<Rightarrow> char goslice \<Rightarrow> 'wh list \<Rightarrow> 'wh goslice \<Rightarrow>
      (config_error, 'wh goslice) result"
    and get :: "'wh \<Rightarrow> WebhookClientConfig"
    and put :: "WebhookClientConfig \<Rightarrow> 'wh \<Rightarrow> 'wh"
  assumes loop_law: "loop env cd handlers ca whs acc =
      configure_all (configure env cd handlers ca) get put whs acc"
    and get_put: "get (put cc wh) = cc"
begin

lemma loop_registers:
  assumes "loop env cd handlers ca whs acc = Ok out"
  shows "\<exists>new. items out = items acc @ new \<and> registers env cd handlers ca get put whs new"
  using assms unfolding loop_law
proof (induction whs arbitrary: acc)
  case Nil
  then show ?case by (auto simp: registers_def)
next
  case (Cons wh whs)
  from Cons.prems obtain r where r: "configure env cd handlers ca (get wh) = Ok r"
    by (auto split: result.splits)
  note R = configure_reached [OF r]
  show ?case
  proof (cases r)
    case None
    with r R Cons.prems Cons.IH [of acc] show ?thesis by (simp add: registers_def)
  next
    case (Some cc)
    with r Cons.prems Cons.IH [of "go_append acc (put cc wh)"] obtain new where
      "items out = items (go_append acc (put cc wh)) @ new" "registers env cd handlers ca get put whs new"
      by auto
    with R Some show ?thesis
      by (intro exI [of _ "put cc wh # new"]) (simp add: registers_def go_append_def items_def get_put)
  qed
qed

end

lemma getPath_bundle [simp]: "getPath cd (cc\<lparr>cc_CABundle := b\<rparr>) = getPath cd cc"
  by (simp add: getPath_def split: option.splits)

lemma convert_own_service:
  assumes "getPath cd cc = Ok path" and "cc_Service cc \<noteq> None"
  shows "convertClientConfig (own_service env (cc\<lparr>cc_CABundle := b\<rparr>)) host port =
     Ok ((own_service env (cc\<lparr>cc_CABundle := b\<rparr>))\<lparr>cc_URL := Some (https_url host port path), cc_Service := None\<rparr>)"
  using assms
  by (auto simp: getPath_def convertClientConfig_def own_service_def split: option.splits)

lemma configure_step:
  "configure env cd handlers ca cc =
     (case getPath cd cc of
        Fail err \<Rightarrow> Fail err | Panic \<Rightarrow> Panic | Exit \<Rightarrow> Exit
      | Ok path \<Rightarrow>
          if \<not> go_has handlers path then Ok None
          else
            (let cc = own_service env (cc\<lparr>cc_CABundle := ca\<rparr>) in
             if length (GetHost env) > 0 \<and> cc_Service cc \<noteq> None then
               (case GetPort env of
                  Fail err \<Rightarrow> Fail err | Panic \<Rightarrow> Panic | Exit \<Rightarrow> Exit
                | Ok port \<Rightarrow>
                    (case convertClientConfig cc (GetHost env) port of
                       Fail err \<Rightarrow> Fail err | Panic \<Rightarrow> Panic | Exit \<Rightarrow> Exit
                     | Ok cc \<Rightarrow> Ok (Some cc)))
             else Ok (Some cc)))"
proof (cases "getPath cd cc")
  case (Ok path)
  have "cc_Service (own_service env (cc\<lparr>cc_CABundle := ca\<rparr>)) \<noteq> None \<longleftrightarrow> cc_Service cc \<noteq> None"
    by (simp add: own_service_def)
  with Ok convert_own_service [OF Ok, of env ca] show ?thesis
    by (auto simp: configure_def Let_def split: result.splits)
qed (simp_all add: configure_def)

interpretation mutating_kind: webhook_kind
  mutating_loop mw_ClientConfig "\<lambda>cc wh. wh\<lparr>mw_ClientConfig := cc\<rparr>"
proof unfold_locales
  fix env cd and handlers :: "'h gomap" and ca whs acc
  show "mutating_loop env cd handlers ca whs acc =
    configure_all (configure env cd handlers ca) mw_ClientConfig
      (\<lambda>cc wh. wh\<lparr>mw_ClientConfig := cc\<rparr>) whs acc"
    by (induction whs arbitrary: acc)
      (auto simp: configure_step Let_def split: result.splits)
qed simp

interpretation validating_kind: webhook_kind
  validating_loop vw_ClientConfig "\<lambda>cc wh. wh\<lparr>vw_ClientConfig := cc\<rparr>"
proof unfold_locales
  fix env cd and handlers :: "'h gomap" and ca whs acc
  show "validating_loop env cd handlers ca whs acc =
    configure_all (configure env cd handlers ca) vw_ClientConfig
      (\<lambda>cc wh. wh\<lparr>vw_ClientConfig := cc\<rparr>) whs acc"
    by (induction whs arbitrary: acc)
      (auto simp: configure_step Let_def split: result.splits)
qed simp

section \<open>What Ensure stores\<close>

definition mutating_desired ::
  "env \<Rightarrow> config_codec \<Rightarrow> 'h gomap \<Rightarrow> char goslice \<Rightarrow> MutatingWebhookConfiguration \<Rightarrow>
   (config_error, MutatingWebhookConfiguration) result" where
  "mutating_desired env cd handlers ca conf =
     fst (on_ok (parseMutatingTemplate cd conf, ()) (\<lambda>(t, c) _.
       on_ok (mutating_loop env cd handlers ca (items t) None, ()) (\<lambda>whs _.
         (Ok (c\<lparr>mwc_Webhooks := whs\<rparr>), ()))))"

definition validating_desired ::
  "env \<Rightarrow> config_codec \<Rightarrow> 'h gomap \<Rightarrow> char goslice \<Rightarrow> ValidatingWebhookConfiguration \<Rightarrow>
   (config_error, ValidatingWebhookConfiguration) result" where
  "validating_desired env cd handlers ca conf =
     fst (on_ok (parseValidatingTemplate cd conf, ()) (\<lambda>(t, c) _.
       on_ok (validating_loop env cd handlers ca (items t) None, ()) (\<lambda>whs _.
         (Ok (c\<lparr>vwc_Webhooks := whs\<rparr>), ()))))"

text \<open>The webhooks of a template survive \<^verbatim>\<open>json.Marshal\<close> and \<^verbatim>\<open>json.Unmarshal\<close>.\<close>

definition json_stable :: "('a \<Rightarrow> string + string) \<Rightarrow> (string \<Rightarrow> string + 'a) \<Rightarrow> 'a \<Rightarrow> bool" where
  "json_stable marshal unmarshal x \<longleftrightarrow>
     (\<forall>b. marshal x = Inr b \<longrightarrow> b \<noteq> [] \<and> unmarshal b = Inr x)"

text \<open>A stored configuration is settled when \<open>desired\<close> gives it back.\<close>

lemma mutating_desired_meta:
  assumes "mutating_desired env cd handlers ca c = Ok c'"
  shows "om_Name (mwc_Meta c') = om_Name (mwc_Meta c)"
    "om_ResourceVersion (mwc_Meta c') = om_ResourceVersion (mwc_Meta c)"
  using assms
  by (auto simp: mutating_desired_def fst_on_ok_Ok parseMutatingTemplate_def Let_def go_make_def
      split: if_splits sum.splits option.splits prod.splits)

lemma validating_desired_meta:
  assumes "validating_desired env cd handlers ca c = Ok c'"
  shows "om_Name (vwc_Meta c') = om_Name (vwc_Meta c)"
    "om_ResourceVersion (vwc_Meta c') = om_ResourceVersion (vwc_Meta c)"
  using assms
  by (auto simp: validating_desired_def fst_on_ok_Ok parseValidatingTemplate_def Let_def go_make_def
      split: if_splits sum.splits option.splits prod.splits)

text \<open>
  From the stored configuration to the next: the template is the one kept in the annotation, or,
  when there is none yet, the webhooks themselves, which are then put there.
\<close>

definition mutating_registered ::
  "env \<Rightarrow> config_codec \<Rightarrow> 'h gomap \<Rightarrow> char goslice \<Rightarrow> MutatingWebhookConfiguration \<Rightarrow>
   MutatingWebhookConfiguration \<Rightarrow> bool" where
  "mutating_registered env cd handlers ca old new \<longleftrightarrow>
     (\<exists>t. registers env cd handlers ca mw_ClientConfig (\<lambda>cc wh. wh\<lparr>mw_ClientConfig := cc\<rparr>)
         (items t) (items (mwc_Webhooks new)) \<and>
       (let kept = go_get [] (om_Annotations (mwc_Meta old)) ''template'' in
        if kept \<noteq> [] then unmarshalMW cd kept = Inr t \<and> om_Annotations (mwc_Meta new) = om_Annotations (mwc_Meta old)
        else t = mwc_Webhooks old \<and>
          marshalMW cd t = Inr (go_get [] (om_Annotations (mwc_Meta new)) ''template'')))"

definition validating_registered ::
  "env \<Rightarrow> config_codec \<Rightarrow> 'h gomap \<Rightarrow> char goslice \<Rightarrow> ValidatingWebhookConfiguration \<Rightarrow>
   ValidatingWebhookConfiguration \<Rightarrow> bool" where
  "validating_registered env cd handlers ca old new \<longleftrightarrow>
     (\<exists>t. registers env cd handlers ca vw_ClientConfig (\<lambda>cc wh. wh\<lparr>vw_ClientConfig := cc\<rparr>)
         (items t) (items (vwc_Webhooks new)) \<and>
       (let kept = go_get [] (om_Annotations (vwc_Meta old)) ''template'' in
        if kept \<noteq> [] then unmarshalVW cd kept = Inr t \<and> om_Annotations (vwc_Meta new) = om_Annotations (vwc_Meta old)
        else t = vwc_Webhooks old \<and>
          marshalVW cd t = Inr (go_get [] (om_Annotations (vwc_Meta new)) ''template'')))"

lemma mutating_desired_registered:
  assumes "mutating_desired env cd handlers ca c = Ok c'"
    and "mwc_Webhooks d = mwc_Webhooks c'" and "om_Annotations (mwc_Meta d) = om_Annotations (mwc_Meta c')"
  shows "mutating_registered env cd handlers ca c d"
proof -
  from assms(1) obtain t c1 whs where 1: "parseMutatingTemplate cd c = Ok (t, c1)" "c' = c1\<lparr>mwc_Webhooks := whs\<rparr>"
    and 2: "mutating_loop env cd handlers ca (items t) None = Ok whs"
    by (auto simp: mutating_desired_def fst_on_ok_Ok split: prod.splits)
  have "registers env cd handlers ca mw_ClientConfig (\<lambda>cc wh. wh\<lparr>mw_ClientConfig := cc\<rparr>) (items t) (items whs)"
    using mutating_kind.loop_registers [OF 2] by (simp add: items_def)
  moreover have "mwc_Webhooks d = whs" "om_Annotations (mwc_Meta d) = om_Annotations (mwc_Meta c1)"
    using assms(2,3) 1(2) by simp_all
  ultimately show ?thesis
    using 1(1) unfolding mutating_registered_def
    by (intro exI [of _ t])
      (auto simp: parseMutatingTemplate_def Let_def go_make_def split: if_splits sum.splits option.splits)
qed

lemma validating_desired_registered:
  assumes "validating_desired env cd handlers ca c = Ok c'"
    and "vwc_Webhooks d = vwc_Webhooks c'" and "om_Annotations (vwc_Meta d) = om_Annotations (vwc_Meta c')"
  shows "validating_registered env cd handlers ca c d"
proof -
  from assms(1) obtain t c1 whs where 1: "parseValidatingTemplate cd c = Ok (t, c1)" "c' = c1\<lparr>vwc_Webhooks := whs\<rparr>"
    and 2: "validating_loop env cd handlers ca (items t) None = Ok whs"
    by (auto simp: validating_desired_def fst_on_ok_Ok split: prod.splits)
  have "registers env cd handlers ca vw_ClientConfig (\<lambda>cc wh. wh\<lparr>vw_ClientConfig := cc\<rparr>) (items t) (items whs)"
    using validating_kind.loop_registers [OF 2] by (simp add: items_def)
  moreover have "vwc_Webhooks d = whs" "om_Annotations (vwc_Meta d) = om_Annotations (vwc_Meta c1)"
    using assms(2,3) 1(2) by simp_all
  ultimately show ?thesis
    using 1(1) unfolding validating_registered_def
    by (intro exI [of _ t])
      (auto simp: parseValidatingTemplate_def Let_def go_make_def split: if_splits sum.splits option.splits)
qed

lemma mutating_desired_fix:
  assumes "mutating_desired env cd handlers ca c = Ok c'"
    and "json_stable (marshalMW cd) (unmarshalMW cd) (mwc_Webhooks c)"
    and "stored_as (mwc_Meta c') (mwc_Meta d)" and "mwc_Webhooks d = mwc_Webhooks c'"
  shows "mutating_desired env cd handlers ca d = Ok d"
proof -
  from assms(1) obtain t c1 whs where
    1: "parseMutatingTemplate cd c = Ok (t, c1)" "c' = c1\<lparr>mwc_Webhooks := whs\<rparr>"
    and 2: "mutating_loop env cd handlers ca (items t) None = Ok whs"
    by (auto simp: mutating_desired_def fst_on_ok_Ok split: prod.splits)
  have "om_Annotations (mwc_Meta d) = om_Annotations (mwc_Meta c1)"
    using assms(3) 1(2) by (simp add: stored_as_def)
  then have "parseMutatingTemplate cd d = Ok (t, d)"
    using 1(1) assms(2)
    by (auto simp: parseMutatingTemplate_def json_stable_def Let_def go_make_def
        intro: go_get_nonzero split: if_splits sum.splits option.splits)
  moreover have "d\<lparr>mwc_Webhooks := whs\<rparr> = d"
    using assms(4) 1(2) by simp
  ultimately show ?thesis using 2 by (simp add: mutating_desired_def)
qed

lemma validating_desired_fix:
  assumes "validating_desired env cd handlers ca c = Ok c'"
    and "json_stable (marshalVW cd) (unmarshalVW cd) (vwc_Webhooks c)"
    and "stored_as (vwc_Meta c') (vwc_Meta d)" and "vwc_Webhooks d = vwc_Webhooks c'"
  shows "validating_desired env cd handlers ca d = Ok d"
proof -
  from assms(1) obtain t c1 whs where
    1: "parseValidatingTemplate cd c = Ok (t, c1)" "c' = c1\<lparr>vwc_Webhooks := whs\<rparr>"
    and 2: "validating_loop env cd handlers ca (items t) None = Ok whs"
    by (auto simp: validating_desired_def fst_on_ok_Ok split: prod.splits)
  have "om_Annotations (vwc_Meta d) = om_Annotations (vwc_Meta c1)"
    using assms(3) 1(2) by (simp add: stored_as_def)
  then have "parseValidatingTemplate cd d = Ok (t, d)"
    using 1(1) assms(2)
    by (auto simp: parseValidatingTemplate_def json_stable_def Let_def go_make_def
        intro: go_get_nonzero split: if_splits sum.splits option.splits)
  moreover have "d\<lparr>vwc_Webhooks := whs\<rparr> = d"
    using assms(4) 1(2) by simp
  ultimately show ?thesis using 2 by (simp add: validating_desired_def)
qed

lemma update_mutating_ok:
  assumes "kube_ok k v" and "kv_MWC v w n = Some c" and "om_Name (mwc_Meta c') = om_Name (mwc_Meta c)"
    and "om_ResourceVersion (mwc_Meta c') = om_ResourceVersion (mwc_Meta c)"
  obtains w' d where "update_mutating env k c c' w = (Ok (), w')"
    "kv_MWC v w' = (kv_MWC v w)(n \<mapsto> d)" "mwc_Webhooks d = mwc_Webhooks c'"
    "stored_as (mwc_Meta c') (mwc_Meta d)" "kv_VWC v w' = kv_VWC v w" "kv_Secret v w' = kv_Secret v w"
    "c' = c \<Longrightarrow> w' = w"
proof (cases "c' = c")
  case True
  with assms(2) that [of w c] show ?thesis
    by (simp add: update_mutating_def stored_as_def fun_upd_idem)
next
  case False
  have n: "om_Name (mwc_Meta c') = n" using kube_keys(1) [OF assms(1,2)] assms(3) by simp
  with assms(2) have "kv_MWC v w (om_Name (mwc_Meta c')) = Some c" by simp
  with assms(1) show ?thesis
    by (rule kube_updateMWC) (use assms(4) n False that in \<open>auto simp: update_mutating_def\<close>)
qed

lemma update_validating_ok:
  assumes "kube_ok k v" and "kv_VWC v w n = Some c" and "om_Name (vwc_Meta c') = om_Name (vwc_Meta c)"
    and "om_ResourceVersion (vwc_Meta c') = om_ResourceVersion (vwc_Meta c)"
  obtains w' d where "update_validating env k c c' w = (Ok (), w')"
    "kv_VWC v w' = (kv_VWC v w)(n \<mapsto> d)" "vwc_Webhooks d = vwc_Webhooks c'"
    "stored_as (vwc_Meta c') (vwc_Meta d)" "kv_MWC v w' = kv_MWC v w" "kv_Secret v w' = kv_Secret v w"
    "c' = c \<Longrightarrow> w' = w"
proof (cases "c' = c")
  case True
  with assms(2) that [of w c] show ?thesis
    by (simp add: update_validating_def stored_as_def fun_upd_idem)
next
  case False
  have n: "om_Name (vwc_Meta c') = n" using kube_keys(2) [OF assms(1,2)] assms(3) by simp
  with assms(2) have "kv_VWC v w (om_Name (vwc_Meta c')) = Some c" by simp
  with assms(1) show ?thesis
    by (rule kube_updateVWC) (use assms(4) n False that in \<open>auto simp: update_validating_def\<close>)
qed

text \<open>
  Against a server that answers, Ensure is: compute both configurations, and when both can be
  computed, write each that differs.
\<close>

lemma Ensure_computed:
  assumes "kube_ok k v" and "kv_MWC v w (GetMutatingWebhookName env) = Some mc"
    and "kv_VWC v w (GetValidatingWebhookName env) = Some vc"
    and "mutating_desired env cd handlers ca mc = Ok mc'"
    and "validating_desired env cd handlers ca vc = Ok vc'"
  shows "Ensure env cd k handlers ca w =
     on_ok (update_mutating env k mc mc' w) (\<lambda>_ w3. update_validating env k vc vc' w3)"
  using assms
  by (auto simp: Ensure_def mutating_desired_def validating_desired_def fst_on_ok_Ok split: prod.splits)

lemma Ensure_not_computed:
  assumes "kube_ok k v"
    and "\<not> (\<exists>mc vc mc' vc'. kv_MWC v w (GetMutatingWebhookName env) = Some mc \<and>
       kv_VWC v w (GetValidatingWebhookName env) = Some vc \<and>
       mutating_desired env cd handlers ca mc = Ok mc' \<and>
       validating_desired env cd handlers ca vc = Ok vc')"
  shows "\<exists>r. Ensure env cd k handlers ca w = (r, w) \<and> r \<noteq> Ok ()"
proof (cases "kv_MWC v w (GetMutatingWebhookName env)")
  case None
  with assms(1) show ?thesis by (simp add: Ensure_def)
next
  case mc: (Some mc)
  show ?thesis
  proof (cases "kv_VWC v w (GetValidatingWebhookName env)")
    case None
    with assms(1) mc show ?thesis by (simp add: Ensure_def)
  next
    case (Some vc)
    with assms mc have no: "\<not> ((\<exists>mc'. mutating_desired env cd handlers ca mc = Ok mc') \<and>
        (\<exists>vc'. validating_desired env cd handlers ca vc = Ok vc'))" by blast
    show ?thesis
      using assms(1) mc Some
      apply (simp add: Ensure_def)
      apply (rule on_ok_not_ok, simp split: prod.split, intro allI impI)+
      apply (rule on_ok_not_ok)+
      using no apply (auto simp: mutating_desired_def validating_desired_def)
      done
  qed
qed

lemma Ensure_stored:
  assumes h: "kube_ok k v" and w1: "Ensure env cd k handlers ca w = (Ok (), w1)"
  obtains mc vc mc' vc' md vd where
    "kv_MWC v w (GetMutatingWebhookName env) = Some mc" "mutating_desired env cd handlers ca mc = Ok mc'"
    "kv_VWC v w (GetValidatingWebhookName env) = Some vc" "validating_desired env cd handlers ca vc = Ok vc'"
    "kv_MWC v w1 = (kv_MWC v w)(GetMutatingWebhookName env \<mapsto> md)"
    "mwc_Webhooks md = mwc_Webhooks mc'" "stored_as (mwc_Meta mc') (mwc_Meta md)"
    "kv_VWC v w1 = (kv_VWC v w)(GetValidatingWebhookName env \<mapsto> vd)"
    "vwc_Webhooks vd = vwc_Webhooks vc'" "stored_as (vwc_Meta vc') (vwc_Meta vd)"
    "kv_Secret v w1 = kv_Secret v w" "mc' = mc \<Longrightarrow> vc' = vc \<Longrightarrow> w1 = w"
proof -
  from Ensure_not_computed [OF h, of w env cd handlers ca] w1 obtain mc vc mc' vc' where
    m: "kv_MWC v w (GetMutatingWebhookName env) = Some mc" "mutating_desired env cd handlers ca mc = Ok mc'"
    and vv: "kv_VWC v w (GetValidatingWebhookName env) = Some vc"
      "validating_desired env cd handlers ca vc = Ok vc'"
    by auto
  obtain w2 md where u: "update_mutating env k mc mc' w = (Ok (), w2)"
    "kv_MWC v w2 = (kv_MWC v w)(GetMutatingWebhookName env \<mapsto> md)" "mwc_Webhooks md = mwc_Webhooks mc'"
    "stored_as (mwc_Meta mc') (mwc_Meta md)" "kv_VWC v w2 = kv_VWC v w" "kv_Secret v w2 = kv_Secret v w"
    "mc' = mc \<Longrightarrow> w2 = w"
    using update_mutating_ok [OF h m(1) mutating_desired_meta [OF m(2)]] by metis
  from vv(1) u(5) have v2: "kv_VWC v w2 (GetValidatingWebhookName env) = Some vc" by simp
  obtain w3 vd where x: "update_validating env k vc vc' w2 = (Ok (), w3)"
    "kv_VWC v w3 = (kv_VWC v w2)(GetValidatingWebhookName env \<mapsto> vd)" "vwc_Webhooks vd = vwc_Webhooks vc'"
    "stored_as (vwc_Meta vc') (vwc_Meta vd)" "kv_MWC v w3 = kv_MWC v w2" "kv_Secret v w3 = kv_Secret v w2"
    "vc' = vc \<Longrightarrow> w3 = w2"
    using update_validating_ok [OF h v2 validating_desired_meta [OF vv(2)]] by metis
  from Ensure_computed [OF h m(1) vv(1) m(2) vv(2)] w1 u(1) x(1) have "w3 = w1" by simp
  with m vv u x show thesis by (intro that) auto
qed

lemma ensured:
  assumes h: "kube_ok k v"
    and m: "kv_MWC v w (GetMutatingWebhookName env) = Some mc"
    and vv: "kv_VWC v w (GetValidatingWebhookName env) = Some vc"
    and d: "mutating_desired env cd handlers ca mc = Ok mc'" "validating_desired env cd handlers ca vc = Ok vc'"
  shows "\<exists>w1. Ensure env cd k handlers ca w = (Ok (), w1)"
proof -
  obtain w2 where u: "update_mutating env k mc mc' w = (Ok (), w2)" "kv_VWC v w2 = kv_VWC v w"
    using update_mutating_ok [OF h m mutating_desired_meta [OF d(1)]] by metis
  from vv u(2) have "kv_VWC v w2 (GetValidatingWebhookName env) = Some vc" by simp
  then obtain w3 where "update_validating env k vc vc' w2 = (Ok (), w3)"
    using update_validating_ok [OF h _ validating_desired_meta [OF d(2)]] by metis
  with Ensure_computed [OF h m vv d] u(1) show ?thesis by simp
qed

lemma Ensure_registered:
  assumes "kube_ok k v" and "Ensure env cd k handlers ca w = (Ok (), w1)"
  shows "(\<exists>old new. kv_MWC v w (GetMutatingWebhookName env) = Some old \<and>
        kv_MWC v w1 (GetMutatingWebhookName env) = Some new \<and> mutating_registered env cd handlers ca old new) \<and>
     (\<exists>old new. kv_VWC v w (GetValidatingWebhookName env) = Some old \<and>
        kv_VWC v w1 (GetValidatingWebhookName env) = Some new \<and> validating_registered env cd handlers ca old new)"
proof -
  from assms obtain mc vc mc' vc' md vd where
    m: "kv_MWC v w (GetMutatingWebhookName env) = Some mc" "mutating_desired env cd handlers ca mc = Ok mc'"
      "kv_MWC v w1 = (kv_MWC v w)(GetMutatingWebhookName env \<mapsto> md)"
      "mwc_Webhooks md = mwc_Webhooks mc'" "stored_as (mwc_Meta mc') (mwc_Meta md)"
    and vv: "kv_VWC v w (GetValidatingWebhookName env) = Some vc" "validating_desired env cd handlers ca vc = Ok vc'"
      "kv_VWC v w1 = (kv_VWC v w)(GetValidatingWebhookName env \<mapsto> vd)"
      "vwc_Webhooks vd = vwc_Webhooks vc'" "stored_as (vwc_Meta vc') (vwc_Meta vd)"
    by (rule Ensure_stored)
  have "mutating_registered env cd handlers ca mc md"
    using mutating_desired_registered [OF m(2,4)] m(5) by (simp add: stored_as_def)
  moreover have "validating_registered env cd handlers ca vc vd"
    using validating_desired_registered [OF vv(2,4)] vv(5) by (simp add: stored_as_def)
  ultimately show ?thesis using m(1,3) vv(1,3) by simp
qed

lemma Ensure_again:
  assumes h: "kube_ok k v" and w1: "Ensure env cd k handlers ca w = (Ok (), w1)"
    and "\<And>mc. kv_MWC v w (GetMutatingWebhookName env) = Some mc \<Longrightarrow>
       json_stable (marshalMW cd) (unmarshalMW cd) (mwc_Webhooks mc)"
    and "\<And>vc. kv_VWC v w (GetValidatingWebhookName env) = Some vc \<Longrightarrow>
       json_stable (marshalVW cd) (unmarshalVW cd) (vwc_Webhooks vc)"
  shows "Ensure env cd k handlers ca w1 = (Ok (), w1)"
proof -
  from h w1 obtain mc vc mc' vc' md vd where
    m: "kv_MWC v w (GetMutatingWebhookName env) = Some mc" "mutating_desired env cd handlers ca mc = Ok mc'"
      "kv_MWC v w1 = (kv_MWC v w)(GetMutatingWebhookName env \<mapsto> md)"
      "mwc_Webhooks md = mwc_Webhooks mc'" "stored_as (mwc_Meta mc') (mwc_Meta md)"
    and vv: "kv_VWC v w (GetValidatingWebhookName env) = Some vc"
      "validating_desired env cd handlers ca vc = Ok vc'"
      "kv_VWC v w1 = (kv_VWC v w)(GetValidatingWebhookName env \<mapsto> vd)"
      "vwc_Webhooks vd = vwc_Webhooks vc'" "stored_as (vwc_Meta vc') (vwc_Meta vd)"
    by (rule Ensure_stored)
  have "mutating_desired env cd handlers ca md = Ok md"
    using mutating_desired_fix [OF m(2) assms(3) [OF m(1)] m(5) m(4)] .
  moreover have "validating_desired env cd handlers ca vd = Ok vd"
    using validating_desired_fix [OF vv(2) assms(4) [OF vv(1)] vv(5) vv(4)] .
  ultimately show ?thesis
    using Ensure_computed [OF h, of w1 env md vd cd handlers ca md vd] m(3) vv(3)
    by (simp add: update_mutating_def update_validating_def)
qed

text \<open>
  C19. After a successful Ensure each stored configuration lists exactly the webhooks of its template
  (the one kept in its annotation, or, the first time, its webhooks, which are then kept there) that
  have a path with a handler, in their order and changed in the client configuration only. Each
  carries the given CA bundle; one that the template gives by a service is reached through this
  program's service, or, when WEBHOOK_HOST is set, through the URL of that host and port with the
  service's path; one that the template gives by an URL keeps it.
\<close>

theorem ensure_registers:
  assumes "kube_ok k v" and "Ensure env cd k handlers ca w = (Ok (), w1)"
  shows "(\<exists>old new. kv_MWC v w (GetMutatingWebhookName env) = Some old \<and>
        kv_MWC v w1 (GetMutatingWebhookName env) = Some new \<and> mutating_registered env cd handlers ca old new) \<and>
     (\<exists>old new. kv_VWC v w (GetValidatingWebhookName env) = Some old \<and>
        kv_VWC v w1 (GetValidatingWebhookName env) = Some new \<and> validating_registered env cd handlers ca old new)"
  using assms by (rule Ensure_registered)

text \<open>
  C20. Against a server that accepts updates Ensure writes both configurations or neither. It
  succeeds exactly when both exist and both new versions can be computed, and then both are stored,
  webhooks and annotations, and nothing else is changed. On every other result (a missing configuration, a
  broken template, a webhook without service and URL, a service without a path, a malformed port) the
  cluster is as before.
\<close>

theorem ensure_all_or_nothing:
  assumes "kube_ok k v" and "Ensure env cd k handlers ca w = (r, w1)"
  shows "if r = Ok () then
       \<exists>mc vc mc' vc' md vd. kv_MWC v w (GetMutatingWebhookName env) = Some mc \<and>
         kv_VWC v w (GetValidatingWebhookName env) = Some vc \<and>
         mutating_desired env cd handlers ca mc = Ok mc' \<and> validating_desired env cd handlers ca vc = Ok vc' \<and>
         kv_MWC v w1 = (kv_MWC v w)(GetMutatingWebhookName env \<mapsto> md) \<and>
         mwc_Webhooks md = mwc_Webhooks mc' \<and> om_Annotations (mwc_Meta md) = om_Annotations (mwc_Meta mc') \<and>
         kv_VWC v w1 = (kv_VWC v w)(GetValidatingWebhookName env \<mapsto> vd) \<and>
         vwc_Webhooks vd = vwc_Webhooks vc' \<and> om_Annotations (vwc_Meta vd) = om_Annotations (vwc_Meta vc') \<and>
         kv_Secret v w1 = kv_Secret v w
     else
       w1 = w \<and> \<not> (\<exists>mc vc mc' vc'. kv_MWC v w (GetMutatingWebhookName env) = Some mc \<and>
         kv_VWC v w (GetValidatingWebhookName env) = Some vc \<and>
         mutating_desired env cd handlers ca mc = Ok mc' \<and> validating_desired env cd handlers ca vc = Ok vc')"
proof (cases "r = Ok ()")
  case True
  with assms(2) have run: "Ensure env cd k handlers ca w = (Ok (), w1)" by simp
  from assms(1) run obtain mc vc mc' vc' md vd where
    m: "kv_MWC v w (GetMutatingWebhookName env) = Some mc" "mutating_desired env cd handlers ca mc = Ok mc'"
      "kv_MWC v w1 = (kv_MWC v w)(GetMutatingWebhookName env \<mapsto> md)"
      "mwc_Webhooks md = mwc_Webhooks mc'" "stored_as (mwc_Meta mc') (mwc_Meta md)"
    and vv: "kv_VWC v w (GetValidatingWebhookName env) = Some vc" "validating_desired env cd handlers ca vc = Ok vc'"
      "kv_VWC v w1 = (kv_VWC v w)(GetValidatingWebhookName env \<mapsto> vd)"
      "vwc_Webhooks vd = vwc_Webhooks vc'" "stored_as (vwc_Meta vc') (vwc_Meta vd)"
      "kv_Secret v w1 = kv_Secret v w"
    by (rule Ensure_stored)
  then have "om_Annotations (mwc_Meta md) = om_Annotations (mwc_Meta mc')"
    "om_Annotations (vwc_Meta vd) = om_Annotations (vwc_Meta vc')" by (simp_all add: stored_as_def)
  with True m vv show ?thesis unfolding if_P [OF True]
    by (intro exI [of _ mc] exI [of _ vc] exI [of _ mc'] exI [of _ vc'] exI [of _ md] exI [of _ vd]) blast
next
  case False
  have no: "\<not> (\<exists>mc vc mc' vc'. kv_MWC v w (GetMutatingWebhookName env) = Some mc \<and>
       kv_VWC v w (GetValidatingWebhookName env) = Some vc \<and>
       mutating_desired env cd handlers ca mc = Ok mc' \<and> validating_desired env cd handlers ca vc = Ok vc')"
    using ensured [OF assms(1)] assms(2) False by force
  with Ensure_not_computed [OF assms(1) no] assms(2) False show ?thesis by auto
qed

end
