(* ===== verification/Cert_Generator.thy ===== *)
theory Cert_Generator
  imports Prelude
begin

text \<open>
  \<^verbatim>\<open>internal/webhook/util/generator\<close>: certificates for the webhook server, signed by a CA that is
  kept or made. The cryptography (packages \<^verbatim>\<open>crypto/*\<close>, \<^verbatim>\<open>encoding/pem\<close>, client-go's \<^verbatim>\<open>cert\<close> and
  \<^verbatim>\<open>keyutil\<close>) is a parameter, the record \<open>crypto\<close> over keys \<open>'k\<close>, certificates \<open>'c\<close> and the state
  \<open>'r\<close> of the random source; \<open>crypto_ok\<close> names the documented behaviour the theorems rely on.
  Times are seconds, and \<open>now\<close> is the reading of the clock.
\<close>

section \<open>Cryptography\<close>

record Artifacts =
  art_Key :: "char goslice"
  art_Cert :: "char goslice"
  art_CAKey :: "char goslice"
  art_CACert :: "char goslice"
  art_ResourceVersion :: string

definition bytes :: "char goslice \<Rightarrow> string" where
  "bytes b = (case b of None \<Rightarrow> [] | Some s \<Rightarrow> s)"

datatype usage = ServerAuth | KeyEncipherment | DigitalSignature

record cert_config =
  cfg_CommonName :: string
  cfg_Organization :: "string goslice"
  cfg_DNSNames :: "string goslice"
  cfg_IPs :: "string goslice"
  cfg_Usages :: "usage list"

record cert_template =
  ct_CommonName :: string
  ct_Organization :: "string goslice"
  ct_DNSNames :: "string goslice"
  ct_IPAddresses :: "string goslice"
  ct_SerialNumber :: int
  ct_NotBefore :: int
  ct_NotAfter :: int
  ct_KeyUsage :: "usage list"
  ct_ExtKeyUsage :: "usage list"

record ('k, 'c, 'r) crypto =
  GenerateKey :: "nat \<Rightarrow> 'r \<Rightarrow> (string + 'k) \<times> 'r"
  RandInt :: "int \<Rightarrow> 'r \<Rightarrow> (string + int) \<times> 'r"
  CreateCertificate :: "cert_template \<Rightarrow> 'c \<Rightarrow> 'k \<Rightarrow> 'k \<Rightarrow> 'r \<Rightarrow> (string + string) \<times> 'r"
  NewSelfSignedCACert :: "int \<Rightarrow> string \<Rightarrow> 'k \<Rightarrow> 'r \<Rightarrow> (string + 'c) \<times> 'r"
  ParseCertificate :: "string \<Rightarrow> string + 'c"
  ParseCertsPEM :: "string \<Rightarrow> string + 'c list"
  ParsePrivateKeyPEM :: "string \<Rightarrow> string + 'k option"
  CertRaw :: "'c \<Rightarrow> string"
  CertNotBefore :: "'c \<Rightarrow> int"
  MarshalPKCS1PrivateKey :: "'k \<Rightarrow> string"
  PemEncode :: "string \<Rightarrow> string \<Rightarrow> string"
  PemDecode :: "string \<Rightarrow> string option"
  RSAPrivateKeyBlockType :: string
  CertificateBlockType :: string
  X509KeyPair :: "string \<Rightarrow> string \<Rightarrow> bool"
  AppendCertsFromPEM :: "string \<Rightarrow> 'c list option"
  VerifyCert :: "'c \<Rightarrow> string \<Rightarrow> 'c list \<Rightarrow> int \<Rightarrow> bool"
  ParseIP :: "string \<Rightarrow> string option"
  To4 :: "string \<Rightarrow> string option"
  AddDate :: "int \<Rightarrow> nat \<Rightarrow> nat \<Rightarrow> nat \<Rightarrow> int"

text \<open>
  The verification of a chain that \<^verbatim>\<open>validCert\<close> and \<^verbatim>\<open>ValidCACert\<close> share: every step of the two
  functions after their tests of the arguments.
\<close>

definition verify_pem ::
  "('k, 'c, 'r) crypto \<Rightarrow> string \<Rightarrow> string \<Rightarrow> string \<Rightarrow> string \<Rightarrow> int \<Rightarrow> bool" where
  "verify_pem C key cert caCert dnsName time =
     (X509KeyPair C cert key \<and>
      (case AppendCertsFromPEM C caCert of
         None \<Rightarrow> False
       | Some pool \<Rightarrow>
           (case PemDecode C cert of
              None \<Rightarrow> False
            | Some block \<Rightarrow>
                (case ParseCertificate C block of
                   Inl err \<Rightarrow> False
                 | Inr c \<Rightarrow> VerifyCert C c dnsName pool time))))"

definition ValidCACert ::
  "('k, 'c, 'r) crypto \<Rightarrow> char goslice \<Rightarrow> char goslice \<Rightarrow> char goslice \<Rightarrow> string \<Rightarrow> int \<Rightarrow> bool" where
  "ValidCACert C key cert caCert dnsName time =
     (if length (bytes key) = 0 \<or> length (bytes cert) = 0 \<or> length (bytes caCert) = 0 then False
      else verify_pem C (bytes key) (bytes cert) (bytes caCert) dnsName time)"

section \<open>The self-signed generator\<close>

datatype gen_error = CAKeyFailed string | CACertFailed string | KeyFailed string | CertFailed string

definition rsaKeySize :: nat where
  "rsaKeySize = 2048"

definition ServiceToCommonName :: "string \<Rightarrow> string \<Rightarrow> string" where
  "ServiceToCommonName serviceNamespace serviceName = serviceName @ ''.'' @ serviceNamespace @ ''.svc''"

record SelfSignedCertGenerator =
  gen_caKey :: "char goslice"
  gen_caCert :: "char goslice"

definition SetCA :: "char goslice \<Rightarrow> char goslice \<Rightarrow> SelfSignedCertGenerator \<Rightarrow> SelfSignedCertGenerator" where
  "SetCA key cert cp = cp\<lparr>gen_caKey := key, gen_caCert := cert\<rparr>"

definition validCACert :: "('k, 'c, 'r) crypto \<Rightarrow> int \<Rightarrow> SelfSignedCertGenerator \<Rightarrow> ('k \<times> 'c) option" where
  "validCACert C now cp =
     (if \<not> ValidCACert C (gen_caKey cp) (gen_caCert cp) (gen_caCert cp) [] (AddDate C now 1 0 0) then None
      else
        (case ParsePrivateKeyPEM C (bytes (gen_caKey cp)) of
           Inl err \<Rightarrow> None
         | Inr None \<Rightarrow> None
         | Inr (Some privateKey) \<Rightarrow>
             (case ParseCertsPEM C (bytes (gen_caCert cp)) of
                Inl err \<Rightarrow> None
              | Inr certs \<Rightarrow> if length certs \<noteq> 1 then None else Some (privateKey, hd certs))))"

definition NewPrivateKey :: "('k, 'c, 'r) crypto \<Rightarrow> 'r \<Rightarrow> (string + 'k) \<times> 'r" where
  "NewPrivateKey C = GenerateKey C rsaKeySize"

definition NewSignedCert ::
  "('k, 'c, 'r) crypto \<Rightarrow> int \<Rightarrow> cert_config \<Rightarrow> 'k \<Rightarrow> 'c \<Rightarrow> 'k \<Rightarrow> 'r \<Rightarrow> (string + 'c) \<times> 'r" where
  "NewSignedCert C now cfg key caCert caKey r =
     (case RandInt C (2 ^ 63 - 1) r of
        (Inl err, r1) \<Rightarrow> (Inl err, r1)
      | (Inr serial, r1) \<Rightarrow>
          if length (cfg_CommonName cfg) = 0 then (Inl ''must specify a CommonName'', r1)
          else if length (cfg_Usages cfg) = 0 then (Inl ''must specify at least one ExtKeyUsage'', r1)
          else
            (let certTmpl =
               \<lparr>ct_CommonName = cfg_CommonName cfg, ct_Organization = cfg_Organization cfg,
                ct_DNSNames = cfg_DNSNames cfg, ct_IPAddresses = cfg_IPs cfg,
                ct_SerialNumber = serial, ct_NotBefore = CertNotBefore C caCert,
                ct_NotAfter = now + 3600 * 24 * 365 * 10,
                ct_KeyUsage = [KeyEncipherment, DigitalSignature], ct_ExtKeyUsage = cfg_Usages cfg\<rparr>
             in case CreateCertificate C certTmpl caCert key caKey r1 of
                  (Inl err, r2) \<Rightarrow> (Inl err, r2)
                | (Inr certDERBytes, r2) \<Rightarrow> (ParseCertificate C certDERBytes, r2)))"

definition EncodePrivateKeyPEM :: "('k, 'c, 'r) crypto \<Rightarrow> 'k \<Rightarrow> string" where
  "EncodePrivateKeyPEM C key = PemEncode C (RSAPrivateKeyBlockType C) (MarshalPKCS1PrivateKey C key)"

definition EncodeCertPEM :: "('k, 'c, 'r) crypto \<Rightarrow> 'c \<Rightarrow> string" where
  "EncodeCertPEM C ct = PemEncode C (CertificateBlockType C) (CertRaw C ct)"

text \<open>The key and the certificate that sign: those of the generator if they are valid, else new ones.\<close>

definition signing_pair ::
  "('k, 'c, 'r) crypto \<Rightarrow> int \<Rightarrow> SelfSignedCertGenerator \<Rightarrow> 'r \<Rightarrow> (gen_error + 'k \<times> 'c) \<times> 'r" where
  "signing_pair C now cp r =
     (case validCACert C now cp of
        Some pair \<Rightarrow> (Inr pair, r)
      | None \<Rightarrow>
          (case NewPrivateKey C r of
             (Inl err, r1) \<Rightarrow> (Inl (CAKeyFailed err), r1)
           | (Inr signingKey, r1) \<Rightarrow>
               (case NewSelfSignedCACert C now ''webhook-cert-ca'' signingKey r1 of
                  (Inl err, r2) \<Rightarrow> (Inl (CACertFailed err), r2)
                | (Inr signingCert, r2) \<Rightarrow> (Inr (signingKey, signingCert), r2))))"

definition server_config :: "('k, 'c, 'r) crypto \<Rightarrow> string \<Rightarrow> cert_config" where
  "server_config C commonName =
     (let ip4 = (case ParseIP C commonName of None \<Rightarrow> None | Some ip \<Rightarrow> To4 C ip) in
      \<lparr>cfg_CommonName = commonName, cfg_Organization = None,
       cfg_DNSNames = Some (if ip4 \<noteq> None then [''localhost''] else [''localhost'', commonName]),
       cfg_IPs = (case ip4 of None \<Rightarrow> None | Some ip \<Rightarrow> Some [ip]),
       cfg_Usages = [ServerAuth]\<rparr>)"

definition Generate ::
  "('k, 'c, 'r) crypto \<Rightarrow> int \<Rightarrow> SelfSignedCertGenerator \<Rightarrow> string \<Rightarrow> 'r \<Rightarrow> (gen_error + Artifacts) \<times> 'r" where
  "Generate C now cp commonName r =
     (case signing_pair C now cp r of
        (Inl err, r1) \<Rightarrow> (Inl err, r1)
      | (Inr (signingKey, signingCert), r1) \<Rightarrow>
          (case NewPrivateKey C r1 of
             (Inl err, r2) \<Rightarrow> (Inl (KeyFailed err), r2)
           | (Inr key, r2) \<Rightarrow>
               (case NewSignedCert C now (server_config C commonName) key signingCert signingKey r2 of
                  (Inl err, r3) \<Rightarrow> (Inl (CertFailed err), r3)
                | (Inr signedCert, r3) \<Rightarrow>
                    (Inr \<lparr>art_Key = Some (EncodePrivateKeyPEM C key),
                      art_Cert = Some (EncodeCertPEM C signedCert),
                      art_CAKey = Some (EncodePrivateKeyPEM C signingKey),
                      art_CACert = Some (EncodeCertPEM C signingCert),
                      art_ResourceVersion = []\<rparr>, r3))))"

section \<open>What is relied on\<close>

text \<open>
  The public key of a certificate, as the private key it belongs to, its end, and whether it is a CA
  that may sign a certificate for any name.
\<close>

record ('k, 'c) cert_view =
  cv_key :: "'c \<Rightarrow> 'k"
  cv_NotAfter :: "'c \<Rightarrow> int"
  cv_isCA :: "'c \<Rightarrow> bool"

text \<open>
  What the documentation of \<^verbatim>\<open>VerifyHostname\<close> says of a host name. An address may stand in square
  brackets, and is compared with the addresses of the certificate only, up to \<^verbatim>\<open>IP.Equal\<close> (an
  address and its four byte form are equal). A well-formed DNS name is accepted when it is among the
  DNS names. Nothing is assumed of other hosts, of a change of case or of wildcards.
\<close>

definition bare_host :: "string \<Rightarrow> string" where
  "bare_host h =
     (if 3 \<le> length h \<and> hd h = CHR ''['' \<and> last h = CHR '']'' then butlast (tl h) else h)"

definition host_chars :: string where
  "host_chars = ''abcdefghijklmnopqrstuvwxyzABCDEFGHIJKLMNOPQRSTUVWXYZ0123456789-_''"

definition dns_name :: "string \<Rightarrow> bool" where
  "dns_name h \<longleftrightarrow>
     (\<forall>l \<in> set (Split CHR ''.'' h). l \<noteq> [] \<and> hd l \<noteq> CHR ''-'' \<and> (\<forall>c \<in> set l. c \<in> set host_chars))"

definition ip_equal :: "('k, 'c, 'r) crypto \<Rightarrow> string \<Rightarrow> string \<Rightarrow> bool" where
  "ip_equal C a b \<longleftrightarrow> a = b \<or> To4 C a \<noteq> None \<and> To4 C a = To4 C b"

text \<open>Whether a certificate of the template is one for the host: yes, no, or no claim.\<close>

definition host_verdict :: "('k, 'c, 'r) crypto \<Rightarrow> cert_template \<Rightarrow> string \<Rightarrow> bool option" where
  "host_verdict C t h =
     (case ParseIP C (bare_host h) of
        Some ip \<Rightarrow> Some (\<exists>x \<in> set (items (ct_IPAddresses t)). ip_equal C ip x)
      | None \<Rightarrow> if dns_name h \<and> h \<in> set (items (ct_DNSNames t)) then Some True else None)"

text \<open>\<^verbatim>\<open>net\<close>: an address in brackets does not parse, and a four byte form is its own.\<close>

definition net_ok :: "('k, 'c, 'r) crypto \<Rightarrow> bool" where
  "net_ok C \<longleftrightarrow>
     (\<forall>h ip. ParseIP C h = Some ip \<longrightarrow> bare_host h = h) \<and> (\<forall>a b. To4 C a = Some b \<longrightarrow> To4 C b = Some b)"

text \<open>
  The hosts that the generator can make a certificate for: well-formed DNS names, and addresses
  that have a four byte form and stand without brackets.
\<close>

definition host_supported :: "('k, 'c, 'r) crypto \<Rightarrow> string \<Rightarrow> bool" where
  "host_supported C host \<longleftrightarrow>
     (case ParseIP C host of
        Some ip \<Rightarrow> To4 C ip \<noteq> None
      | None \<Rightarrow> dns_name host)"

definition pem_ok :: "('k, 'c, 'r) crypto \<Rightarrow> ('k, 'c) cert_view \<Rightarrow> bool" where
  "pem_ok C V \<longleftrightarrow>
     (\<forall>ty b. PemDecode C (PemEncode C ty b) = Some b) \<and>
     (\<forall>c. ParseCertificate C (CertRaw C c) = Inr c) \<and>
     (\<forall>c. AppendCertsFromPEM C (EncodeCertPEM C c) = Some [c]) \<and>
     (\<forall>c k. cv_key V c = k \<longrightarrow> X509KeyPair C (EncodeCertPEM C c) (EncodePrivateKeyPEM C k)) \<and>
     (\<forall>p k c key. X509KeyPair C p k \<longrightarrow> ParseCertsPEM C p = Inr [c] \<longrightarrow>
        ParsePrivateKeyPEM C k = Inr (Some key) \<longrightarrow> cv_key V c = key) \<and>
     (\<forall>p b c d. PemDecode C p = Some b \<longrightarrow> ParseCertificate C b = Inr c \<longrightarrow> ParseCertsPEM C p = Inr [d] \<longrightarrow> c = d)"

definition in_force :: "('k, 'c, 'r) crypto \<Rightarrow> ('k, 'c) cert_view \<Rightarrow> 'c \<Rightarrow> int \<Rightarrow> bool" where
  "in_force C V c t \<longleftrightarrow> CertNotBefore C c \<le> t \<and> t \<le> cv_NotAfter V c"

text \<open>
  A certificate made by \<^verbatim>\<open>CreateCertificate\<close> passes \<^verbatim>\<open>Verify\<close> with a pool that holds the CA that signed it
  (a CA without constraints, \<open>cv_isCA\<close>) exactly when it is one for servers, is one for the host, and
  both are in force; for the hosts on which \<open>host_verdict\<close> decides.
\<close>

definition signing_ok :: "('k, 'c, 'r) crypto \<Rightarrow> ('k, 'c) cert_view \<Rightarrow> bool" where
  "signing_ok C V \<longleftrightarrow>
     (\<forall>t ca pub key r der r' c. CreateCertificate C t ca pub key r = (Inr der, r') \<longrightarrow>
        ParseCertificate C der = Inr c \<longrightarrow>
        cv_key V c = pub \<and> CertNotBefore C c = ct_NotBefore t \<and> cv_NotAfter V c = ct_NotAfter t \<and>
        (\<forall>h time match. h \<noteq> [] \<longrightarrow> cv_key V ca = key \<longrightarrow> cv_isCA V ca \<longrightarrow> host_verdict C t h = Some match \<longrightarrow>
           VerifyCert C c h [ca] time \<longleftrightarrow>
             ServerAuth \<in> set (ct_ExtKeyUsage t) \<and> match \<and> in_force C V c time \<and> in_force C V ca time)) \<and>
     (\<forall>c h pool time. VerifyCert C c h pool time \<longrightarrow> in_force C V c time)"

text \<open>\<^verbatim>\<open>NewSelfSignedCACert\<close> makes a CA for ten years; \<^verbatim>\<open>AddDate\<close> moves by months and years.\<close>

definition clock_ok :: "('k, 'c, 'r) crypto \<Rightarrow> ('k, 'c) cert_view \<Rightarrow> int \<Rightarrow> bool" where
  "clock_ok C V now \<longleftrightarrow>
     (\<forall>n k r ca r'. NewSelfSignedCACert C now n k r = (Inr ca, r') \<longrightarrow>
        cv_key V ca = k \<and> cv_isCA V ca \<and> CertNotBefore C ca \<le> now \<and>
        cv_NotAfter V ca = now + 3600 * 24 * 365 * 10) \<and>
     now \<le> AddDate C now 0 6 0 \<and> AddDate C now 0 6 0 \<le> AddDate C now 1 0 0 \<and>
     AddDate C now 1 0 0 \<le> now + 3600 * 24 * 366"

definition crypto_ok :: "('k, 'c, 'r) crypto \<Rightarrow> ('k, 'c) cert_view \<Rightarrow> int \<Rightarrow> bool" where
  "crypto_ok C V now \<longleftrightarrow> pem_ok C V \<and> net_ok C \<and> signing_ok C V \<and> clock_ok C V now"

text \<open>The CA that the generator was given: nothing usable, or a CA certificate that is already in force.\<close>

definition given_ca_ok :: "('k, 'c, 'r) crypto \<Rightarrow> ('k, 'c) cert_view \<Rightarrow> int \<Rightarrow> SelfSignedCertGenerator \<Rightarrow> bool" where
  "given_ca_ok C V now cp \<longleftrightarrow>
     (\<forall>k ca. validCACert C now cp = Some (k, ca) \<longrightarrow> cv_isCA V ca \<and> CertNotBefore C ca \<le> now)"

section \<open>Generated certificates\<close>

lemma validCACert_Some:
  assumes ok: "crypto_ok C V now" and v: "validCACert C now cp = Some (k, ca)"
  shows "cv_key V ca = k" and "AddDate C now 1 0 0 \<le> cv_NotAfter V ca"
    and "ParsePrivateKeyPEM C (bytes (gen_caKey cp)) = Inr (Some k)"
    and "ParseCertsPEM C (bytes (gen_caCert cp)) = Inr [ca]"
proof -
  let ?p = "bytes (gen_caCert cp)" and ?k = "bytes (gen_caKey cp)"
  from v have pk: "ParsePrivateKeyPEM C ?k = Inr (Some k)" and pc: "ParseCertsPEM C ?p = Inr [ca]"
    and vc: "verify_pem C ?k ?p ?p [] (AddDate C now 1 0 0)"
    by (auto simp: validCACert_def ValidCACert_def length_Suc_conv split: if_splits sum.splits option.splits)
  from vc obtain pool b c where pair: "X509KeyPair C ?p ?k" and c: "PemDecode C ?p = Some b"
    "ParseCertificate C b = Inr c" "VerifyCert C c [] pool (AddDate C now 1 0 0)"
    by (auto simp: verify_pem_def split: option.splits sum.splits)
  have pem: "pem_ok C V" and sig: "signing_ok C V" using ok by (simp_all add: crypto_ok_def)
  from pem pair pc pk show "cv_key V ca = k" unfolding pem_ok_def by blast
  from pem c pc have "c = ca" unfolding pem_ok_def by blast
  moreover from sig c(3) have "in_force C V c (AddDate C now 1 0 0)" unfolding signing_ok_def by blast
  ultimately show "AddDate C now 1 0 0 \<le> cv_NotAfter V ca" by (simp add: in_force_def)
  show "ParsePrivateKeyPEM C (bytes (gen_caKey cp)) = Inr (Some k)"
    "ParseCertsPEM C (bytes (gen_caCert cp)) = Inr [ca]" by (rule pk, rule pc)
qed

lemma signing_pair_ok:
  assumes ok: "crypto_ok C V now" and g: "given_ca_ok C V now cp"
    and s: "signing_pair C now cp r = (Inr (k, ca), r')"
  shows "cv_key V ca = k" and "cv_isCA V ca" and "in_force C V ca (AddDate C now 0 6 0)"
    and "CertNotBefore C ca \<le> now"
proof -
  have clk: "clock_ok C V now" using ok by (simp add: crypto_ok_def)
  have "cv_key V ca = k \<and> cv_isCA V ca \<and> in_force C V ca (AddDate C now 0 6 0) \<and> CertNotBefore C ca \<le> now"
  proof (cases "validCACert C now cp")
    case None
    with s obtain r1 where "NewSelfSignedCACert C now ''webhook-cert-ca'' k r1 = (Inr ca, r')"
      by (auto simp: signing_pair_def split: prod.splits sum.splits)
    with clk have "cv_key V ca = k" "cv_isCA V ca" "CertNotBefore C ca \<le> now"
      "cv_NotAfter V ca = now + 3600 * 24 * 365 * 10" unfolding clock_ok_def by blast+
    with clk show ?thesis by (simp add: in_force_def clock_ok_def)
  next
    case (Some pair)
    with s have v: "validCACert C now cp = Some (k, ca)" by (simp add: signing_pair_def)
    note V = validCACert_Some [OF ok v]
    from g v have "cv_isCA V ca" "CertNotBefore C ca \<le> now" by (simp_all add: given_ca_ok_def)
    with V(1,2) clk show ?thesis by (simp add: in_force_def clock_ok_def)
  qed
  then show "cv_key V ca = k" "cv_isCA V ca" "in_force C V ca (AddDate C now 0 6 0)" "CertNotBefore C ca \<le> now"
    by simp_all
qed

lemma Split_chars: "c \<in> set h \<Longrightarrow> c = sep \<or> (\<exists>l \<in> set (Split sep h). c \<in> set l)"
proof (induction h)
  case (Cons x h)
  then show ?case by (cases "Split sep h") auto
qed simp

lemma dns_name_chars:
  assumes "dns_name h"
  shows "c \<in> set h \<Longrightarrow> c = CHR ''.'' \<or> c \<in> set host_chars" and "h \<noteq> []" and "bare_host h = h"
proof -
  have chars: "c = CHR ''.'' \<or> c \<in> set host_chars" if "c \<in> set h" for c
    using Split_chars [OF that, of "CHR ''.''"] assms by (auto simp: dns_name_def)
  then show "c \<in> set h \<Longrightarrow> c = CHR ''.'' \<or> c \<in> set host_chars" .
  show "h \<noteq> []" using assms by (auto simp: dns_name_def)
  then have "hd h \<in> set h" by simp
  from chars [OF this] have "hd h \<noteq> CHR ''[''" by (auto simp: host_chars_def)
  then show "bare_host h = h" by (simp add: bare_host_def)
qed

lemma host_supported_bare: "net_ok C \<Longrightarrow> host_supported C h \<Longrightarrow> bare_host h = h"
  by (auto simp: host_supported_def net_ok_def dns_name_chars(3) split: option.splits)

text \<open>What a certificate of \<open>server_config\<close> is one for: the supported hosts, and no other address.\<close>

lemma host_of_config:
  assumes net: "net_ok C" and t: "ct_DNSNames t = cfg_DNSNames (server_config C h)"
    "ct_IPAddresses t = cfg_IPs (server_config C h)"
  shows "host_supported C h \<Longrightarrow> host_verdict C t h = Some True"
    and "ParseIP C (bare_host h) = Some ip \<Longrightarrow> host_verdict C t h = Some (bare_host h = h \<and> To4 C ip \<noteq> None)"
proof -
  assume ip: "ParseIP C (bare_host h) = Some ip"
  show "host_verdict C t h = Some (bare_host h = h \<and> To4 C ip \<noteq> None)"
  proof (cases "ParseIP C h")
    case None
    with ip have "bare_host h \<noteq> h" by auto
    with None ip t show ?thesis by (simp add: host_verdict_def server_config_def items_def Let_def)
  next
    case (Some ip')
    with net have b: "bare_host h = h" by (simp add: net_ok_def)
    with Some ip have "ip' = ip" by simp
    moreover have "To4 C a = Some b \<Longrightarrow> ip_equal C a b" for a b using net by (simp add: net_ok_def ip_equal_def)
    ultimately show ?thesis
      using Some b t by (auto simp: host_verdict_def server_config_def items_def Let_def split: option.splits)
  qed
next
  assume s: "host_supported C h"
  with net have b: "bare_host h = h" by (simp add: host_supported_bare)
  have "To4 C a = Some b \<Longrightarrow> ip_equal C a b" for a b using net by (simp add: net_ok_def ip_equal_def)
  with s b t show "host_verdict C t h = Some True"
    by (auto simp: host_verdict_def host_supported_def server_config_def items_def Let_def split: option.splits)
qed

text \<open>
  A generated certificate passes the verification for its host exactly when it is one for it,
  for the hosts on which the documentation decides.
\<close>

lemma Generate_verified:
  assumes ok: "crypto_ok C V now" and g: "given_ca_ok C V now cp" and h: "h \<noteq> []"
    and verdict: "\<And>t. ct_DNSNames t = cfg_DNSNames (server_config C h) \<Longrightarrow>
      ct_IPAddresses t = cfg_IPs (server_config C h) \<Longrightarrow> host_verdict C t h = Some match"
    and gen: "Generate C now cp h r = (Inr a, r')"
  shows "verify_pem C (bytes (art_Key a)) (bytes (art_Cert a)) (bytes (art_CACert a)) h (AddDate C now 0 6 0) \<longleftrightarrow> match"
proof -
  from gen obtain sk sc r1 key r2 ct where s: "signing_pair C now cp r = (Inr (sk, sc), r1)"
    and n: "NewSignedCert C now (server_config C h) key sc sk r2 = (Inr ct, r')"
    and a: "a = \<lparr>art_Key = Some (EncodePrivateKeyPEM C key), art_Cert = Some (EncodeCertPEM C ct),
        art_CAKey = Some (EncodePrivateKeyPEM C sk), art_CACert = Some (EncodeCertPEM C sc),
        art_ResourceVersion = []\<rparr>"
    by (auto simp: Generate_def split: prod.splits sum.splits)
  from n obtain t r3 der where t: "CreateCertificate C t sc key sk r3 = (Inr der, r')" "ParseCertificate C der = Inr ct"
    and names: "ct_DNSNames t = cfg_DNSNames (server_config C h)" "ct_IPAddresses t = cfg_IPs (server_config C h)"
    and win: "ct_NotBefore t = CertNotBefore C sc" "ct_NotAfter t = now + 3600 * 24 * 365 * 10"
    and use: "ct_ExtKeyUsage t = [ServerAuth]"
    by (auto simp: NewSignedCert_def Let_def server_config_def split: prod.splits sum.splits if_splits)
  note S = signing_pair_ok [OF ok g s]
  have pem: "pem_ok C V" and sig: "signing_ok C V" and clk: "clock_ok C V now"
    using ok by (simp_all add: crypto_ok_def)
  from sig [unfolded signing_ok_def, THEN conjunct1, rule_format, OF t] have
    ct: "cv_key V ct = key" "CertNotBefore C ct = ct_NotBefore t" "cv_NotAfter V ct = ct_NotAfter t"
    and ver: "VerifyCert C ct h [sc] time \<longleftrightarrow> ServerAuth \<in> set (ct_ExtKeyUsage t) \<and> match \<and>
        in_force C V ct time \<and> in_force C V sc time" for time
    using h S(1,2) verdict [OF names] by blast+
  have "in_force C V ct (AddDate C now 0 6 0)"
    using ct win S(4) clk by (simp add: in_force_def clock_ok_def)
  with ver use S(3) have v: "VerifyCert C ct h [sc] (AddDate C now 0 6 0) \<longleftrightarrow> match" by simp
  have dec: "PemDecode C (EncodeCertPEM C ct) = Some (CertRaw C ct)" "ParseCertificate C (CertRaw C ct) = Inr ct"
    "AppendCertsFromPEM C (EncodeCertPEM C sc) = Some [sc]" "X509KeyPair C (EncodeCertPEM C ct) (EncodePrivateKeyPEM C key)"
    using pem ct(1) unfolding pem_ok_def EncodeCertPEM_def by auto
  with v a show ?thesis by (simp add: verify_pem_def bytes_def)
qed

end
