(* ===== verification/Go_Path.thy ===== *)
theory Go_Path
  imports Prelude
begin

text \<open>
  The lexical part of Go's packages \<^verbatim>\<open>path\<close> and \<^verbatim>\<open>path/filepath\<close> on a Unix system, as far as
  the certificate writer uses it: \<^verbatim>\<open>Clean\<close>, \<^verbatim>\<open>Join\<close>, \<^verbatim>\<open>IsAbs\<close>, \<^verbatim>\<open>Split\<close> and \<^verbatim>\<open>Base\<close>.
\<close>

section \<open>Definitions\<close>

abbreviation slash :: char where
  "slash \<equiv> CHR ''/''"

fun join_path :: "string list \<Rightarrow> string" where
  "join_path [] = []"
| "join_path [x] = x"
| "join_path (x # y # ys) = x @ slash # join_path (y # ys)"

definition IsAbs :: "string \<Rightarrow> bool" where
  "IsAbs p = (p \<noteq> [] \<and> hd p = slash)"

text \<open>
  One element of the path, with the elements kept so far in reverse: empty elements and \<^verbatim>\<open>.\<close> go,
  \<^verbatim>\<open>..\<close> removes the element before it, is dropped at the root, and is kept where nothing precedes it.
\<close>

definition clean_step :: "bool \<Rightarrow> string \<Rightarrow> string list \<Rightarrow> string list" where
  "clean_step rooted c st =
     (if c = [] \<or> c = ''.'' then st
      else if c = ''..'' then
        (case st of
           [] \<Rightarrow> if rooted then [] else [''..'']
         | x # xs \<Rightarrow> if x = ''..'' then ''..'' # st else xs)
      else c # st)"

definition clean_elems :: "bool \<Rightarrow> string list \<Rightarrow> string list" where
  "clean_elems rooted cs = rev (fold (clean_step rooted) cs [])"

definition Clean :: "string \<Rightarrow> string" where
  "Clean p =
     (let out = (if IsAbs p then [slash] else []) @ join_path (clean_elems (IsAbs p) (Split slash p))
      in if out = [] then ''.'' else out)"

definition Join :: "string list \<Rightarrow> string" where
  "Join elems =
     (case dropWhile (\<lambda>e. e = []) elems of [] \<Rightarrow> [] | es \<Rightarrow> Clean (join_path es))"

text \<open>\<^verbatim>\<open>filepath.Split\<close>: the directory keeps its final slash.\<close>

definition SplitFile :: "string \<Rightarrow> string \<times> string" where
  "SplitFile p =
     (case LastIndex p slash of
        None \<Rightarrow> ([], p)
      | Some i \<Rightarrow> (take (Suc i) p, drop (Suc i) p))"

definition Base :: "string \<Rightarrow> string" where
  "Base p =
     (if p = [] then ''.''
      else
        (let q = rev (dropWhile (\<lambda>c. c = slash) (rev p)) in
         if q = [] then [slash] else snd (SplitFile q)))"

section \<open>Ordinary names\<close>

definition name_ok :: "string \<Rightarrow> bool" where
  "name_ok n \<longleftrightarrow> n \<noteq> [] \<and> slash \<notin> set n \<and> n \<noteq> ''.'' \<and> n \<noteq> ''..''"

definition names_ok :: "string list \<Rightarrow> bool" where
  "names_ok ns \<longleftrightarrow> (\<forall>n \<in> set ns. name_ok n)"

definition abs_path :: "string list \<Rightarrow> string" where
  "abs_path ns = slash # join_path ns"

lemma names_ok_simps [simp]:
  "names_ok []" "names_ok (n # ns) \<longleftrightarrow> name_ok n \<and> names_ok ns"
  "names_ok (ms @ ns) \<longleftrightarrow> names_ok ms \<and> names_ok ns"
  by (auto simp: names_ok_def)

lemma name_okD: "name_ok n \<Longrightarrow> n \<noteq> []" "name_ok n \<Longrightarrow> slash \<notin> set n"
  by (auto simp: name_ok_def)

lemma Split_join:
  "ns \<noteq> [] \<Longrightarrow> (\<And>n. n \<in> set ns \<Longrightarrow> slash \<notin> set n) \<Longrightarrow> Split slash (join_path ns) = ns"
  by (induction ns rule: join_path.induct) (auto simp: Split_no_sep Split_append_sep)

lemma join_path_not_Nil: "names_ok ns \<Longrightarrow> join_path ns = [] \<longleftrightarrow> ns = []"
  by (cases ns rule: join_path.cases) (auto simp: name_ok_def)

lemma join_path_snoc:
  "ns \<noteq> [] \<Longrightarrow> join_path (ns @ [n]) = join_path ns @ slash # n"
  by (induction ns rule: join_path.induct) auto

lemma join_path_append:
  "ms \<noteq> [] \<Longrightarrow> ns \<noteq> [] \<Longrightarrow> join_path (ms @ ns) = join_path ms @ slash # join_path ns"
proof (induction ms rule: join_path.induct)
  case (2 x)
  then show ?case by (cases ns) auto
qed auto

lemma Split_append_slash: "Split slash (p @ slash # q) = Split slash p @ Split slash q"
proof (induction p)
  case (Cons x p)
  have "Split slash p \<noteq> []" by simp
  then obtain y ys where "Split slash p = y # ys" by (meson neq_Nil_conv)
  with Cons show ?case by auto
qed simp

lemma Split_abs_path:
  "names_ok ns \<Longrightarrow> Split slash (abs_path ns) = [] # (if ns = [] then [[]] else ns)"
  by (auto simp: abs_path_def names_ok_def name_ok_def intro!: Split_join)

lemma fold_clean_step:
  "names_ok cs \<Longrightarrow> fold (clean_step r) cs st = rev cs @ st"
  by (induction cs arbitrary: st) (auto simp: clean_step_def name_ok_def)

lemma clean_elems_names: "names_ok cs \<Longrightarrow> clean_elems r cs = cs"
  by (simp add: clean_elems_def fold_clean_step)

lemma clean_step_empty [simp]: "clean_step r [] st = st"
  by (simp add: clean_step_def)

lemma Clean_abs_path:
  assumes "names_ok ns" shows "Clean (abs_path ns) = abs_path ns"
proof -
  have "clean_elems True ([] # (if ns = [] then [[]] else ns)) = ns"
    using assms clean_elems_names [of ns True] by (auto simp: clean_elems_def)
  with assms show ?thesis
    using Split_abs_path [OF assms] by (simp add: Clean_def IsAbs_def abs_path_def Let_def)
qed

lemma Clean_rel_path:
  assumes "names_ok ns" and "ns \<noteq> []" shows "Clean (join_path ns) = join_path ns"
proof -
  have "\<not> IsAbs (join_path ns)"
    using assms by (cases ns rule: join_path.cases) (auto simp: IsAbs_def name_ok_def hd_append dest: hd_in_set)
  moreover have "Split slash (join_path ns) = ns"
    using assms by (intro Split_join) (auto simp: names_ok_def name_ok_def)
  ultimately show ?thesis
    using assms join_path_not_Nil [of ns] by (simp add: Clean_def clean_elems_names Let_def)
qed

lemma Clean_name: "name_ok n \<Longrightarrow> Clean n = n"
  using Clean_rel_path [of "[n]"] by simp

lemma Join_abs_path:
  assumes "names_ok ns" and "name_ok n"
  shows "Join [abs_path ns, n] = abs_path (ns @ [n])"
proof -
  have "clean_elems True ([] # (if ns = [] then [[]] else ns) @ [n]) = ns @ [n]"
    using assms clean_elems_names [of "ns @ [n]" True] by (auto simp: clean_elems_def)
  moreover have "Split slash (abs_path ns @ slash # n) = [] # (if ns = [] then [[]] else ns) @ [n]"
    using assms by (simp add: Split_append_slash Split_abs_path Split_no_sep name_okD)
  ultimately have "Clean (abs_path ns @ slash # n) = abs_path (ns @ [n])"
    by (simp add: Clean_def IsAbs_def abs_path_def Let_def)
  then show ?thesis by (simp add: Join_def abs_path_def)
qed

lemma Join_abs_empty:
  assumes "names_ok ns" shows "Join [abs_path ns, []] = abs_path ns"
proof -
  have "clean_elems True ([] # (if ns = [] then [[]] else ns) @ [[]]) = ns"
    using assms clean_elems_names [of ns True] by (auto simp: clean_elems_def)
  moreover have "Split slash (abs_path ns @ [slash]) = [] # (if ns = [] then [[]] else ns) @ [[]]"
    using assms Split_append_slash [of "abs_path ns" "[]"] by (simp add: Split_abs_path)
  ultimately have "Clean (abs_path ns @ [slash]) = abs_path ns"
    by (simp add: Clean_def IsAbs_def abs_path_def Let_def)
  then show ?thesis by (simp add: Join_def abs_path_def)
qed

lemma Join_names: "name_ok m \<Longrightarrow> name_ok n \<Longrightarrow> Join [m, n] = m @ slash # n"
  using Clean_rel_path [of "[m, n]"] by (simp add: Join_def name_okD)

lemma SplitFile_abs:
  assumes "name_ok n"
  shows "SplitFile (abs_path (ns @ [n])) = ((if ns = [] then [slash] else abs_path ns @ [slash]), n)"
proof (cases "ns = []")
  case True
  then show ?thesis
    using name_okD [OF assms] LastIndex_append [of slash n "[]"] by (simp add: SplitFile_def abs_path_def)
next
  case False
  then have "abs_path (ns @ [n]) = abs_path ns @ slash # n"
    by (simp add: abs_path_def join_path_snoc)
  with False name_okD [OF assms] LastIndex_append [of slash n "abs_path ns"] show ?thesis
    by (simp add: SplitFile_def)
qed

lemma Base_abs:
  assumes "name_ok n" shows "Base (abs_path (ns @ [n])) = n"
proof -
  have "\<exists>p. abs_path (ns @ [n]) = p @ n"
    by (cases "ns = []") (auto simp: abs_path_def join_path_snoc)
  then obtain p where p: "abs_path (ns @ [n]) = p @ n" ..
  from assms obtain m x where n: "n = m @ [x]" "x \<noteq> slash"
    unfolding name_ok_def by (metis append_butlast_last_id last_in_set)
  with p SplitFile_abs [OF assms, of ns] show ?thesis
    by (simp add: Base_def Let_def abs_path_def)
qed

text \<open>The directory above a path, without the slash that \<^verbatim>\<open>filepath.Split\<close> leaves.\<close>

lemma TrimSuffix_SplitFile:
  "TrimSuffix (fst (SplitFile p)) [slash] =
     (case LastIndex p slash of None \<Rightarrow> [] | Some i \<Rightarrow> take i p)"
proof (cases "LastIndex p slash")
  case None
  then show ?thesis by (simp add: SplitFile_def TrimSuffix_def)
next
  case (Some i)
  from LastIndex_Some [OF this] have "i < length p" "p = take i p @ slash # drop (Suc i) p" by auto
  then have "take (Suc i) p = take i p @ [slash]"
    by (metis append_take_drop_id nth_via_drop take_Suc_conv_app_nth Cons_nth_drop_Suc
        append_same_eq list.inject same_append_eq)
  with Some show ?thesis by (simp add: SplitFile_def)
qed

end
