(* ===== verification/File_System.thy ===== *)
theory File_System
  imports Go_Path
begin

text \<open>
  A Unix file system as package \<^verbatim>\<open>os\<close> shows it to the certificate writer. The state holds the
  nodes by their path from the root, the working directory and the umask. Every call consumes one
  entry of \<open>fs_faults\<close> and fails without effect where it is \<^const>\<open>True\<close>, so a theorem that does not
  restrict the faults holds whatever fails. Every change is recorded in \<open>fs_history\<close>: what a
  concurrent reader, or the program after a crash, may see is the last entry of some prefix of it.

  Path resolution follows symbolic links component by component, at most 40 of them, as Linux does.
\<close>

section \<open>State\<close>

type_synonym fpath = "string list"

datatype node = Dir "32 word" | File string "32 word" | Link string

datatype errno = ENOENT | EEXIST | ENOTDIR | EISDIR | EINVAL | ENOTEMPTY | ELOOP | EIO

type_synonym nodes = "(fpath \<times> node) list"

record fs =
  fs_nodes :: nodes
  fs_cwd :: fpath
  fs_umask :: "32 word"
  fs_faults :: "bool list"
  fs_history :: "nodes list"

definition IsNotExist :: "errno \<Rightarrow> bool" where
  "IsNotExist e = (e = ENOENT)"

definition look :: "nodes \<Rightarrow> fpath \<Rightarrow> node option" where
  "look ns p = (if p = [] then Some (Dir 493) else map_of ns p)"

definition set_node :: "fpath \<Rightarrow> node \<Rightarrow> nodes \<Rightarrow> nodes" where
  "set_node p n ns = (p, n) # filter (\<lambda>(q, _). q \<noteq> p) ns"

text \<open>
  A node that comes into being starts without entries. In a tree the filter removes nothing; it
  saves an invariant on the list.
\<close>

definition is_under :: "fpath \<Rightarrow> fpath \<Rightarrow> bool" where
  "is_under p q \<longleftrightarrow> take (length p) q = p"

definition new_node :: "fpath \<Rightarrow> node \<Rightarrow> nodes \<Rightarrow> nodes" where
  "new_node p n ns = (p, n) # filter (\<lambda>(q, _). \<not> is_under p q) ns"

definition del_node :: "fpath \<Rightarrow> nodes \<Rightarrow> nodes" where
  "del_node p ns = filter (\<lambda>(q, _). q \<noteq> p) ns"

definition commit :: "nodes \<Rightarrow> fs \<Rightarrow> fs" where
  "commit ns f = f\<lparr>fs_nodes := ns, fs_history := ns # fs_history f\<rparr>"

definition syscall :: "(fs \<Rightarrow> (errno + 'a) \<times> fs) \<Rightarrow> fs \<Rightarrow> (errno + 'a) \<times> fs" where
  "syscall g f =
     (case fs_faults f of
        [] \<Rightarrow> g f
      | b # bs \<Rightarrow> if b then (Inl EIO, f\<lparr>fs_faults := bs\<rparr>) else g (f\<lparr>fs_faults := bs\<rparr>))"

section \<open>Path resolution\<close>

function (sequential) walk :: "nat \<Rightarrow> nodes \<Rightarrow> fpath \<Rightarrow> string list \<Rightarrow> bool \<Rightarrow> errno + fpath" where
  "walk k ns cur [] follow = Inr cur"
| "walk k ns cur (c # cs) follow =
     (if c = [] \<or> c = ''.'' then walk k ns cur cs follow
      else if c = ''..'' then walk k ns (butlast cur) cs follow
      else
        (case look ns (cur @ [c]) of
           None \<Rightarrow> if cs = [] then Inr (cur @ [c]) else Inl ENOENT
         | Some (Dir m) \<Rightarrow> walk k ns (cur @ [c]) cs follow
         | Some (File d m) \<Rightarrow> if cs = [] then Inr (cur @ [c]) else Inl ENOTDIR
         | Some (Link t) \<Rightarrow>
             if cs = [] \<and> \<not> follow then Inr (cur @ [c])
             else if k = 0 then Inl ELOOP
             else walk (k - 1) ns (if IsAbs t then [] else cur) (Split slash t @ cs) follow))"
  by pat_completeness auto
termination
  by (relation "measures [\<lambda>(k, _). k, \<lambda>(_, _, _, cs, _). length cs]") auto

declare walk.simps [simp del]

definition resolve :: "bool \<Rightarrow> fs \<Rightarrow> string \<Rightarrow> errno + fpath" where
  "resolve follow f p =
     walk 40 (fs_nodes f) (if IsAbs p then [] else fs_cwd f) (Split slash p) follow"

text \<open>A call on the node a path leads to; \<open>follow\<close> tells whether a final link is followed.\<close>

definition at_node :: "bool \<Rightarrow> string \<Rightarrow> (fpath \<Rightarrow> fs \<Rightarrow> (errno + 'a) \<times> fs) \<Rightarrow> fs \<Rightarrow> (errno + 'a) \<times> fs" where
  "at_node follow p g =
     syscall (\<lambda>f. case resolve follow f p of Inl e \<Rightarrow> (Inl e, f) | Inr q \<Rightarrow> g q f)"

section \<open>Package os\<close>

text \<open>
  The guard on the length in \<open>MkdirAll\<close> always holds, the parent being a proper prefix; it is there
  for the termination proof only.
\<close>

definition Stat :: "string \<Rightarrow> fs \<Rightarrow> (errno + node) \<times> fs" where
  "Stat p = at_node True p (\<lambda>q f.
     (case look (fs_nodes f) q of None \<Rightarrow> Inl ENOENT | Some n \<Rightarrow> Inr n, f))"

definition Lstat :: "string \<Rightarrow> fs \<Rightarrow> (errno + node) \<times> fs" where
  "Lstat p = at_node False p (\<lambda>q f.
     (case look (fs_nodes f) q of None \<Rightarrow> Inl ENOENT | Some n \<Rightarrow> Inr n, f))"

definition Readlink :: "string \<Rightarrow> fs \<Rightarrow> (errno + string) \<times> fs" where
  "Readlink p = at_node False p (\<lambda>q f.
     (case look (fs_nodes f) q of
        None \<Rightarrow> Inl ENOENT | Some (Link t) \<Rightarrow> Inr t | Some _ \<Rightarrow> Inl EINVAL, f))"

definition ReadFile :: "string \<Rightarrow> fs \<Rightarrow> (errno + string) \<times> fs" where
  "ReadFile p = at_node True p (\<lambda>q f.
     (case look (fs_nodes f) q of
        None \<Rightarrow> Inl ENOENT | Some (File d m) \<Rightarrow> Inr d | Some (Dir m) \<Rightarrow> Inl EISDIR
      | Some (Link t) \<Rightarrow> Inl ELOOP, f))"

definition Symlink :: "string \<Rightarrow> string \<Rightarrow> fs \<Rightarrow> (errno + unit) \<times> fs" where
  "Symlink target p = at_node False p (\<lambda>q f.
     case look (fs_nodes f) q of
       Some _ \<Rightarrow> (Inl EEXIST, f)
     | None \<Rightarrow> (Inr (), commit (new_node q (Link target) (fs_nodes f)) f))"

definition Mkdir :: "string \<Rightarrow> 32 word \<Rightarrow> fs \<Rightarrow> (errno + unit) \<times> fs" where
  "Mkdir p mode = at_node False p (\<lambda>q f.
     case look (fs_nodes f) q of
       Some _ \<Rightarrow> (Inl EEXIST, f)
     | None \<Rightarrow>
         (Inr (), commit (new_node q (Dir (Bit_Operations.and mode (Bit_Operations.not (fs_umask f)))) (fs_nodes f)) f))"

definition Chmod :: "string \<Rightarrow> 32 word \<Rightarrow> fs \<Rightarrow> (errno + unit) \<times> fs" where
  "Chmod p mode = at_node True p (\<lambda>q f.
     case look (fs_nodes f) q of
       None \<Rightarrow> (Inl ENOENT, f)
     | Some (Dir m) \<Rightarrow> (Inr (), commit (set_node q (Dir mode) (fs_nodes f)) f)
     | Some (File d m) \<Rightarrow> (Inr (), commit (set_node q (File d mode) (fs_nodes f)) f)
     | Some (Link t) \<Rightarrow> (Inl ELOOP, f))"

definition Remove :: "string \<Rightarrow> fs \<Rightarrow> (errno + unit) \<times> fs" where
  "Remove p = at_node False p (\<lambda>q f.
     case look (fs_nodes f) q of
       None \<Rightarrow> (Inl ENOENT, f)
     | Some (Dir m) \<Rightarrow>
         if \<exists>(r, _) \<in> set (fs_nodes f). is_under q r \<and> r \<noteq> q then (Inl ENOTEMPTY, f)
         else (Inr (), commit (del_node q (fs_nodes f)) f)
     | Some _ \<Rightarrow> (Inr (), commit (del_node q (fs_nodes f)) f))"

definition move :: "fpath \<Rightarrow> fpath \<Rightarrow> nodes \<Rightarrow> nodes" where
  "move p q ns =
     map (\<lambda>(r, n). (if is_under p r then q @ drop (length p) r else r, n)) (del_node q ns)"

definition Rename :: "string \<Rightarrow> string \<Rightarrow> fs \<Rightarrow> (errno + unit) \<times> fs" where
  "Rename old new = at_node False old (\<lambda>p f.
     case resolve False f new of
       Inl e \<Rightarrow> (Inl e, f)
     | Inr q \<Rightarrow>
         (case look (fs_nodes f) p of
            None \<Rightarrow> (Inl ENOENT, f)
          | Some n \<Rightarrow>
              (case look (fs_nodes f) q of
                 Some (Dir m) \<Rightarrow> (Inl EEXIST, f)
               | _ \<Rightarrow> (Inr (), commit (move p q (fs_nodes f)) f))))"

text \<open>\<^verbatim>\<open>os.WriteFile\<close> opens with truncation and then writes; a failed write leaves the empty file.\<close>

definition open_trunc :: "string \<Rightarrow> 32 word \<Rightarrow> fs \<Rightarrow> (errno + fpath) \<times> fs" where
  "open_trunc p mode = at_node True p (\<lambda>q f.
     case look (fs_nodes f) q of
       None \<Rightarrow>
         (Inr q, commit (new_node q (File [] (Bit_Operations.and mode (Bit_Operations.not (fs_umask f)))) (fs_nodes f)) f)
     | Some (File d m) \<Rightarrow> (Inr q, commit (set_node q (File [] m) (fs_nodes f)) f)
     | Some (Dir m) \<Rightarrow> (Inl EISDIR, f)
     | Some (Link t) \<Rightarrow> (Inl ELOOP, f))"

definition write_open :: "fpath \<Rightarrow> string \<Rightarrow> fs \<Rightarrow> (errno + unit) \<times> fs" where
  "write_open q data = syscall (\<lambda>f.
     case look (fs_nodes f) q of
       Some (File d m) \<Rightarrow> (Inr (), commit (set_node q (File data m) (fs_nodes f)) f)
     | _ \<Rightarrow> (Inr (), f))"

definition WriteFile :: "string \<Rightarrow> string \<Rightarrow> 32 word \<Rightarrow> fs \<Rightarrow> (errno + unit) \<times> fs" where
  "WriteFile p data mode f =
     (case open_trunc p mode f of
        (Inl e, f1) \<Rightarrow> (Inl e, f1)
      | (Inr q, f1) \<Rightarrow> write_open q data f1)"

text \<open>\<^verbatim>\<open>os.RemoveAll\<close> removes the entries one by one, the deepest first, and stops at an error.\<close>

fun remove_each :: "fpath list \<Rightarrow> fs \<Rightarrow> (errno + unit) \<times> fs" where
  "remove_each [] f = (Inr (), f)"
| "remove_each (r # rs) f =
     (case syscall (\<lambda>f. (Inr (), commit (del_node r (fs_nodes f)) f)) f of
        (Inl e, f1) \<Rightarrow> (Inl e, f1)
      | (Inr u, f1) \<Rightarrow> remove_each rs f1)"

definition RemoveAll :: "string \<Rightarrow> fs \<Rightarrow> (errno + unit) \<times> fs" where
  "RemoveAll p f =
     (case resolve False f p of
        Inl e \<Rightarrow> (if e = ENOENT then Inr () else Inl e, f)
      | Inr q \<Rightarrow> remove_each (rev (sort_key length (filter (is_under q) (map fst (fs_nodes f))))) f)"

function MkdirAll :: "string \<Rightarrow> 32 word \<Rightarrow> fs \<Rightarrow> (errno + unit) \<times> fs" where
  "MkdirAll p mode f =
     (case Stat p f of
        (Inr (Dir m), f1) \<Rightarrow> (Inr (), f1)
      | (Inr n, f1) \<Rightarrow> (Inl ENOTDIR, f1)
      | (Inl e, f1) \<Rightarrow>
          (let q = rev (dropWhile (\<lambda>c. c = slash) (rev p));
               parent = fst (SplitFile q) in
           case (if parent \<noteq> [] \<and> length parent < length p then MkdirAll parent mode f1 else (Inr (), f1)) of
             (Inl e, f2) \<Rightarrow> (Inl e, f2)
           | (Inr u, f2) \<Rightarrow>
               (case Mkdir p mode f2 of
                  (Inr u, f3) \<Rightarrow> (Inr (), f3)
                | (Inl e, f3) \<Rightarrow>
                    (case Lstat p f3 of
                       (Inr (Dir m), f4) \<Rightarrow> (Inr (), f4)
                     | (_, f4) \<Rightarrow> (Inl e, f4)))))"
  by pat_completeness auto
termination
  by (relation "measure (\<lambda>(p, _, _). length p)") auto

declare MkdirAll.simps [simp del]

text \<open>\<^verbatim>\<open>os.MkdirTemp\<close>: random names are tried until one is free; \<open>rands\<close> are those of this call.\<close>

definition joinDir :: "string \<Rightarrow> string \<Rightarrow> string" where
  "joinDir dir n = (if dir \<noteq> [] \<and> last dir = slash then dir @ n else dir @ slash # n)"

fun mkdir_temp :: "string \<Rightarrow> string list \<Rightarrow> fs \<Rightarrow> (errno + string) \<times> fs" where
  "mkdir_temp pre [] f = (Inl EEXIST, f)"
| "mkdir_temp pre (r # rs) f =
     (case Mkdir (pre @ r) 448 f of
        (Inr u, f1) \<Rightarrow> (Inr (pre @ r), f1)
      | (Inl e, f1) \<Rightarrow> if e = EEXIST then mkdir_temp pre rs f1 else (Inl e, f1))"

definition MkdirTemp :: "string \<Rightarrow> string \<Rightarrow> string list \<Rightarrow> fs \<Rightarrow> (errno + string) \<times> fs" where
  "MkdirTemp dir pattern rands = mkdir_temp (joinDir dir pattern) rands"

text \<open>\<^verbatim>\<open>filepath.Walk\<close>: the paths given to the visitor, the root first.\<close>

definition Walk :: "string \<Rightarrow> fs \<Rightarrow> (errno + string list) \<times> fs" where
  "Walk root = at_node False root (\<lambda>q f.
     (case look (fs_nodes f) q of
        None \<Rightarrow> Inl ENOENT
      | Some (Dir m) \<Rightarrow>
          Inr (root # map (\<lambda>(r, _). Join [root, join_path (drop (length q) r)])
            (filter (\<lambda>(r, _). is_under q r \<and> r \<noteq> q) (fs_nodes f)))
      | Some _ \<Rightarrow> Inr [root], f))"

section \<open>Nodes\<close>

lemma map_of_filter_key: "map_of (filter (\<lambda>(q, _). q \<noteq> p) ns) r = (if r = p then None else map_of ns r)"
  by (induction ns) auto

lemma look_set [simp]: "look (set_node p n ns) q = (if q = p \<and> p \<noteq> [] then Some n else look ns q)"
  by (auto simp: look_def set_node_def map_of_filter_key)

lemma look_new [simp]:
  "p \<noteq> [] \<Longrightarrow> look (new_node p n ns) q =
     (if q = p then Some n else if is_under p q then None else look ns q)"
proof -
  have "map_of (filter (\<lambda>(q, _). \<not> is_under p q) ms) q = (if is_under p q then None else map_of ms q)"
    for ms :: nodes
    by (induction ms) auto
  then show "p \<noteq> [] \<Longrightarrow> look (new_node p n ns) q =
     (if q = p then Some n else if is_under p q then None else look ns q)"
    by (auto simp: look_def new_node_def is_under_def)
qed

lemma look_del [simp]: "look (del_node p ns) q = (if q = p \<and> p \<noteq> [] then None else look ns q)"
  by (auto simp: look_def del_node_def map_of_filter_key)

lemma look_root [simp]: "look ns [] = Some (Dir 493)"
  by (simp add: look_def)

lemma look_move:
  assumes "\<And>r n. (r, n) \<in> set ns \<Longrightarrow> is_under p r \<Longrightarrow> r = p" and "p \<noteq> []" "q \<noteq> []" "p \<noteq> q"
  shows "look (move p q ns) r = (if r = q then look ns p else if r = p then None else look ns r)"
proof -
  have "map_of (map (\<lambda>(r, n). (if is_under p r then q @ drop (length p) r else r, n)) (del_node q ms)) r =
      (if r = q then map_of ms p else if r = p then None else map_of ms r)"
    if "set ms \<subseteq> set ns" for ms
    using that
  proof (induction ms)
    case (Cons x ms)
    obtain s n where x: "x = (s, n)" by fastforce
    have "is_under p s \<Longrightarrow> s = p" using assms(1) [of s n] Cons.prems x by simp
    moreover have "is_under p p" by (simp add: is_under_def)
    ultimately show ?case
      using Cons x assms(4) by (auto simp: del_node_def)
  qed (simp add: del_node_def)
  from this [of ns] assms(2-) show ?thesis by (auto simp: look_def move_def)
qed

lemma is_under_append [simp]: "is_under p (p @ q)"
  by (simp add: is_under_def)

lemma is_under_refl [simp]: "is_under p p"
  by (simp add: is_under_def)

lemma is_under_iff: "is_under p q \<longleftrightarrow> (\<exists>r. q = p @ r)"
  unfolding is_under_def by (metis append_eq_conv_conj append_take_drop_id)

section \<open>What a call may touch\<close>

text \<open>
  \<open>touches P f f'\<close>: from \<open>f\<close> to \<open>f'\<close>, and at every moment between, the nodes agree with those of
  \<open>f\<close> at each path outside \<open>P\<close>.
\<close>

definition agree :: "(fpath \<Rightarrow> bool) \<Rightarrow> nodes \<Rightarrow> nodes \<Rightarrow> bool" where
  "agree P ns ns' \<longleftrightarrow> (\<forall>p. \<not> P p \<longrightarrow> look ns' p = look ns p)"

definition touches :: "(fpath \<Rightarrow> bool) \<Rightarrow> fs \<Rightarrow> fs \<Rightarrow> bool" where
  "touches P f f' \<longleftrightarrow>
     (\<exists>hs. fs_history f' = hs @ fs_history f \<and> (\<forall>s \<in> set hs. agree P (fs_nodes f) s)) \<and>
     agree P (fs_nodes f) (fs_nodes f') \<and> fs_cwd f' = fs_cwd f \<and> fs_umask f' = fs_umask f"

lemma agree_refl [simp]: "agree P ns ns"
  by (simp add: agree_def)

lemma agree_trans: "agree P ns ns1 \<Longrightarrow> agree P ns1 ns2 \<Longrightarrow> agree P ns ns2"
  by (simp add: agree_def)

lemma touches_refl [simp]: "touches P f f"
  by (simp add: touches_def)

lemma touches_faults [simp]: "touches P f (f\<lparr>fs_faults := bs\<rparr>)"
  by (simp add: touches_def)

lemma touches_trans [trans]:
  assumes "touches P f f1" and "touches P f1 f2" shows "touches P f f2"
proof -
  from assms obtain hs1 hs2 where
    "fs_history f2 = (hs2 @ hs1) @ fs_history f" "\<forall>s \<in> set hs1. agree P (fs_nodes f) s"
    "\<forall>s \<in> set hs2. agree P (fs_nodes f1) s" "agree P (fs_nodes f) (fs_nodes f1)"
    unfolding touches_def by auto
  moreover from this have "\<forall>s \<in> set (hs2 @ hs1). agree P (fs_nodes f) s"
    using agree_trans by (metis Un_iff set_append)
  moreover have "agree P (fs_nodes f) (fs_nodes f2)" "fs_cwd f2 = fs_cwd f" "fs_umask f2 = fs_umask f"
    using assms agree_trans unfolding touches_def by (blast, simp_all)
  ultimately show ?thesis unfolding touches_def by blast
qed

lemma touches_mono: "touches P f f1 \<Longrightarrow> (\<And>p. P p \<Longrightarrow> Q p) \<Longrightarrow> touches Q f f1"
  unfolding touches_def agree_def by blast

lemma touches_look: "touches P f f1 \<Longrightarrow> \<not> P p \<Longrightarrow> look (fs_nodes f1) p = look (fs_nodes f) p"
  by (simp add: touches_def agree_def)

lemma touches_commit: "agree P (fs_nodes f) ns \<Longrightarrow> touches P f (commit ns f)"
  by (auto simp: touches_def commit_def)

lemma syscall_cases:
  obtains (fault) bs where "syscall g f = (Inl EIO, f\<lparr>fs_faults := bs\<rparr>)"
  | (run) bs where "syscall g f = g (f\<lparr>fs_faults := bs\<rparr>)"
proof (cases "fs_faults f")
  case Nil
  then have "syscall g f = g f" by (simp add: syscall_def)
  moreover have "f\<lparr>fs_faults := fs_faults f\<rparr> = f" by simp
  ultimately show thesis using run [of "fs_faults f"] by metis
next
  case (Cons b bs)
  then show thesis
    using fault [of bs] run [of bs] by (cases b) (simp_all add: syscall_def)
qed

lemma resolve_faults [simp]: "resolve follow (f\<lparr>fs_faults := bs\<rparr>) p = resolve follow f p"
  by (simp add: resolve_def)

text \<open>A call on a path that leads to \<open>q\<close>: it fails without effect, or it runs on \<open>q\<close>.\<close>

lemma at_node_cases:
  assumes "resolve follow f p = Inr q"
  obtains (fault) bs where "at_node follow p g f = (Inl EIO, f\<lparr>fs_faults := bs\<rparr>)"
  | (run) bs where "at_node follow p g f = g q (f\<lparr>fs_faults := bs\<rparr>)"
  unfolding at_node_def
  by (rule syscall_cases [where f = f]) (use assms fault run in \<open>auto simp: at_node_def\<close>)

lemma at_node_dest:
  assumes "resolve follow f p = Inr q" and "at_node follow p g f = (r, f1)"
  shows "\<exists>bs. (r = Inl EIO \<and> f1 = f\<lparr>fs_faults := bs\<rparr>) \<or> g q (f\<lparr>fs_faults := bs\<rparr>) = (r, f1)"
  by (rule at_node_cases [OF assms(1), of g]) (use assms(2) in auto)

section \<open>Plain directories\<close>

text \<open>A path of ordinary names that leads through directories only.\<close>

definition plain :: "nodes \<Rightarrow> fpath \<Rightarrow> bool" where
  "plain ns T \<longleftrightarrow> names_ok T \<and> (\<forall>q r. T = q @ r \<longrightarrow> (\<exists>m. look ns q = Some (Dir m)))"

lemma plain_names: "plain ns T \<Longrightarrow> names_ok T"
  by (simp add: plain_def)

lemma plain_snoc [simp]:
  "plain ns (T @ [n]) \<longleftrightarrow> plain ns T \<and> name_ok n \<and> (\<exists>m. look ns (T @ [n]) = Some (Dir m))"
proof
  assume a: "plain ns (T @ [n])"
  have "\<exists>m. look ns q = Some (Dir m)" if "T = q @ r" for q r
    using a that unfolding plain_def by (metis append.assoc)
  with a show "plain ns T \<and> name_ok n \<and> (\<exists>m. look ns (T @ [n]) = Some (Dir m))"
    unfolding plain_def by (metis append_Nil2 names_ok_simps(2,3))
next
  assume a: "plain ns T \<and> name_ok n \<and> (\<exists>m. look ns (T @ [n]) = Some (Dir m))"
  have "\<exists>m. look ns q = Some (Dir m)" if "T @ [n] = q @ r" for q r
  proof (cases r rule: rev_cases)
    case Nil
    with that a show ?thesis by auto
  next
    case (snoc r' x)
    with that have "T = q @ r'" by simp
    with a show ?thesis by (auto simp: plain_def)
  qed
  with a show "plain ns (T @ [n])" by (auto simp: plain_def)
qed

lemma plain_agree:
  assumes "plain ns T" and "agree P ns ns'" and "\<And>q r. T = q @ r \<Longrightarrow> \<not> P q"
  shows "plain ns' T"
  using assms unfolding plain_def agree_def by metis

lemma walk_names:
  assumes "names_ok T" and "\<And>q r. T = q @ r \<Longrightarrow> q \<noteq> [] \<Longrightarrow> \<exists>m. look ns (cur @ q) = Some (Dir m)"
  shows "walk k ns cur (T @ cs) follow = walk k ns (cur @ T) cs follow"
  using assms
proof (induction T arbitrary: cur)
  case (Cons n T)
  from Cons.prems(2) [of "[n]" T] obtain m where "look ns (cur @ [n]) = Some (Dir m)" by auto
  moreover have "\<exists>m. look ns ((cur @ [n]) @ q) = Some (Dir m)" if "T = q @ r" "q \<noteq> []" for q r
    using Cons.prems(2) [of "n # q" r] that by simp
  ultimately show ?case
    using Cons.prems(1) Cons.IH [of "cur @ [n]"] by (simp add: walk.simps name_ok_def)
qed simp

lemma walk_plain:
  assumes "plain ns T" shows "walk k ns [] (T @ cs) follow = walk k ns T cs follow"
  using walk_names [of T ns "[]" k cs follow] assms by (auto simp: plain_def)

lemma walk_skip [simp]: "walk k ns cur ([] # cs) follow = walk k ns cur cs follow"
  by (simp add: walk.simps)

lemma resolve_plain:
  assumes "plain (fs_nodes f) T"
  shows "resolve follow f (abs_path T) = Inr T" and "resolve follow f (abs_path T @ [slash]) = Inr T"
proof -
  have n: "names_ok T" using assms by (rule plain_names)
  have w: "walk k (fs_nodes f) [] T follow = Inr T" for k
    using walk_plain [OF assms, of k "[]" follow] by (simp add: walk.simps)
  show "resolve follow f (abs_path T) = Inr T"
    using n w by (simp add: resolve_def Split_abs_path IsAbs_def abs_path_def [symmetric])
      (simp add: abs_path_def walk.simps)
  have "Split slash (abs_path T @ [slash]) = Split slash (abs_path T) @ [[]]"
    using Split_append_slash [of "abs_path T" "[]"] by simp
  with n w walk_plain [OF assms, of 40 "[[]]" follow] show "resolve follow f (abs_path T @ [slash]) = Inr T"
    by (simp add: resolve_def Split_abs_path IsAbs_def) (simp add: abs_path_def walk.simps)
qed

lemma resolve_abs_entry:
  assumes "plain (fs_nodes f) T" and "name_ok n"
  shows "resolve follow f (abs_path (T @ [n])) = walk 40 (fs_nodes f) T [n] follow"
proof -
  have "Split slash (abs_path (T @ [n])) = [] # T @ [n]"
    using assms plain_names [OF assms(1)] by (simp add: Split_abs_path)
  moreover have "IsAbs (abs_path (T @ [n]))" by (simp add: IsAbs_def abs_path_def)
  ultimately show ?thesis using walk_plain [OF assms(1)] by (simp add: resolve_def)
qed

lemma resolve_entry:
  assumes "plain (fs_nodes f) T" and "name_ok n"
  shows "resolve False f (abs_path (T @ [n])) = Inr (T @ [n])"
    and "(\<And>t. look (fs_nodes f) (T @ [n]) \<noteq> Some (Link t)) \<Longrightarrow>
      resolve True f (abs_path (T @ [n])) = Inr (T @ [n])"
proof -
  note w = resolve_abs_entry [OF assms]
  show "resolve False f (abs_path (T @ [n])) = Inr (T @ [n])"
    using assms(2) by (simp add: w walk.simps name_ok_def split: option.splits node.splits)
  assume "\<And>t. look (fs_nodes f) (T @ [n]) \<noteq> Some (Link t)"
  with assms(2) show "resolve True f (abs_path (T @ [n])) = Inr (T @ [n])"
    by (simp add: w walk.simps name_ok_def split: option.splits node.splits)
qed

text \<open>Reading through a link into a directory that is itself reached through a link.\<close>

lemma resolve_through:
  assumes "plain (fs_nodes f) T" and "name_ok n" "name_ok d" "name_ok ts"
    and "look (fs_nodes f) (T @ [n]) = Some (Link (d @ slash # n))"
    and "look (fs_nodes f) (T @ [d]) = Some (Link ts)"
    and "look (fs_nodes f) (T @ [ts]) = Some (Dir m)"
    and "\<And>t. look (fs_nodes f) (T @ [ts, n]) \<noteq> Some (Link t)"
  shows "resolve True f (abs_path (T @ [n])) = Inr (T @ [ts, n])"
proof -
  let ?ns = "fs_nodes f"
  have s: "Split slash (d @ slash # n) = [d, n]" "Split slash ts = [ts]"
    using assms(2-4) by (simp_all add: Split_append_sep Split_no_sep name_okD)
  have r: "\<not> IsAbs (d @ slash # n)" "\<not> IsAbs ts"
    using assms(3,4) by (auto simp: IsAbs_def name_ok_def hd_append dest: hd_in_set)
  have "resolve True f (abs_path (T @ [n])) = walk 40 ?ns T [n] True"
    by (rule resolve_abs_entry [OF assms(1,2)])
  also have "\<dots> = walk 39 ?ns T [d, n] True"
    using assms(2,5) s r by (simp add: walk.simps name_ok_def)
  also have "\<dots> = walk 38 ?ns T [ts, n] True"
    using assms(3,6) s r by (simp add: walk.simps name_ok_def)
  also have "\<dots> = walk 38 ?ns (T @ [ts]) [n] True"
    using assms(4,7) by (simp add: walk.simps name_ok_def)
  also have "\<dots> = Inr (T @ [ts, n])"
    using assms(2,8) by (simp add: walk.simps name_ok_def split: option.splits node.splits)
  finally show ?thesis .
qed

lemma at_node_touches:
  assumes "resolve follow f p = Inr q"
    and "\<And>bs. touches P (f\<lparr>fs_faults := bs\<rparr>) (snd (g q (f\<lparr>fs_faults := bs\<rparr>)))"
  shows "touches P f (snd (at_node follow p g f))"
  by (rule at_node_cases [OF assms(1), where g = g])
    (use touches_trans [OF touches_faults assms(2)] in auto)

section \<open>Calls on the entries of a plain directory\<close>

text \<open>A call that only reads consumes a fault and changes nothing else.\<close>

definition reads :: "fs \<Rightarrow> fs \<Rightarrow> bool" where
  "reads f f' \<longleftrightarrow> (\<exists>bs. f' = f\<lparr>fs_faults := bs\<rparr>)"

lemma reads_refl [simp]: "reads f f"
  unfolding reads_def by (rule exI [of _ "fs_faults f"]) simp

lemma reads_faults [simp]: "reads f (f\<lparr>fs_faults := bs\<rparr>)"
  by (auto simp: reads_def)

lemma reads_trans [trans]: "reads f f1 \<Longrightarrow> reads f1 f2 \<Longrightarrow> reads f f2"
  by (auto simp: reads_def)

lemma reads_touches: "reads f f1 \<Longrightarrow> touches P f f1"
  by (auto simp: reads_def)

lemma reads_nodes: "reads f f1 \<Longrightarrow> fs_nodes f1 = fs_nodes f"
  by (auto simp: reads_def)

lemma reads_then: "reads f f0 \<Longrightarrow> touches P f0 f1 \<Longrightarrow> touches P f f1"
  using reads_touches touches_trans by blast

lemma syscall_reads: "(\<And>f. snd (g f) = f) \<Longrightarrow> reads f (snd (syscall g f))"
  by (rule syscall_cases [where g = g and f = f]) (auto simp: reads_def)

lemma at_node_reads:
  "(\<And>q f. snd (g q f) = f) \<Longrightarrow> reads f (snd (at_node follow p g f))"
  unfolding at_node_def by (rule syscall_reads) (simp split: sum.split)

lemma read_calls [simp]:
  "reads f (snd (Stat p f))" "reads f (snd (Lstat p f))" "reads f (snd (Readlink p f))"
  "reads f (snd (ReadFile p f))" "reads f (snd (Walk p f))"
  unfolding Stat_def Lstat_def Readlink_def ReadFile_def Walk_def
  by (rule at_node_reads, simp)+

text \<open>With no fault ahead a call on a path that leads to \<open>q\<close> runs on \<open>q\<close>.\<close>

lemma at_node_run:
  "fs_faults f = [] \<Longrightarrow> resolve follow f p = Inr q \<Longrightarrow> at_node follow p g f = g q f"
  by (simp add: at_node_def syscall_def)

lemma read_faultless: "reads f f1 \<Longrightarrow> fs_faults f = [] \<Longrightarrow> fs_faults f1 = [] \<Longrightarrow> f1 = f"
  by (auto simp: reads_def)

lemma Readlink_entry:
  assumes "plain (fs_nodes f) T" and "name_ok n" and "Readlink (abs_path (T @ [n])) f = (r, f1)"
  shows "reads f f1"
    and "r = Inr t \<Longrightarrow> look (fs_nodes f) (T @ [n]) = Some (Link t)"
    and "r = Inl ENOENT \<Longrightarrow> look (fs_nodes f) (T @ [n]) = None"
    and "fs_faults f = [] \<Longrightarrow> f1 = f \<and>
      (look (fs_nodes f) (T @ [n]) = None \<longrightarrow> r = Inl ENOENT) \<and>
      (\<forall>t. look (fs_nodes f) (T @ [n]) = Some (Link t) \<longrightarrow> r = Inr t)"
proof -
  note q = resolve_entry(1) [OF assms(1,2)]
  show "reads f f1" using read_calls(3) [of f "abs_path (T @ [n])"] assms(3) by simp
  show "r = Inr t \<Longrightarrow> look (fs_nodes f) (T @ [n]) = Some (Link t)"
    "r = Inl ENOENT \<Longrightarrow> look (fs_nodes f) (T @ [n]) = None"
    using at_node_dest [OF q assms(3) [unfolded Readlink_def]]
    by (auto split: option.splits node.splits)
  show "fs_faults f = [] \<Longrightarrow> f1 = f \<and>
      (look (fs_nodes f) (T @ [n]) = None \<longrightarrow> r = Inl ENOENT) \<and>
      (\<forall>t. look (fs_nodes f) (T @ [n]) = Some (Link t) \<longrightarrow> r = Inr t)"
    using assms(3) by (auto simp: Readlink_def at_node_run [OF _ q])
qed

text \<open>The two outcomes of a call that makes a new entry.\<close>

definition made :: "fpath \<Rightarrow> node \<Rightarrow> fs \<Rightarrow> (errno + 'a) \<Rightarrow> fs \<Rightarrow> bool" where
  "made p n f r f1 \<longleftrightarrow>
     (if isl r then reads f f1
      else look (fs_nodes f) p = None \<and> (\<exists>bs. f1 = commit (new_node p n (fs_nodes f)) (f\<lparr>fs_faults := bs\<rparr>)))"

lemma made_touches: "p \<noteq> [] \<Longrightarrow> made p n f r f1 \<Longrightarrow> touches (is_under p) f f1"
proof (cases "isl r")
  case False
  assume "made p n f r f1" and p: "p \<noteq> []"
  with False obtain bs where f1: "f1 = commit (new_node p n (fs_nodes f)) (f\<lparr>fs_faults := bs\<rparr>)"
    by (auto simp: made_def)
  have "agree (is_under p) (fs_nodes (f\<lparr>fs_faults := bs\<rparr>)) (new_node p n (fs_nodes f))"
    using p by (auto simp: agree_def)
  from touches_trans [OF touches_faults touches_commit [OF this]] f1 show ?thesis by simp
qed (simp add: made_def reads_touches)

lemma Symlink_entry:
  assumes "plain (fs_nodes f) T" and "name_ok n" and "Symlink t (abs_path (T @ [n])) f = (r, f1)"
  shows "made (T @ [n]) (Link t) f r f1"
    and "fs_faults f = [] \<Longrightarrow> look (fs_nodes f) (T @ [n]) = None \<Longrightarrow>
      r = Inr () \<and> f1 = commit (new_node (T @ [n]) (Link t) (fs_nodes f)) f"
proof -
  note q = resolve_entry(1) [OF assms(1,2)]
  show "made (T @ [n]) (Link t) f r f1"
    using at_node_dest [OF q assms(3) [unfolded Symlink_def]]
    by (auto simp: made_def split: option.splits)
  show "fs_faults f = [] \<Longrightarrow> look (fs_nodes f) (T @ [n]) = None \<Longrightarrow>
      r = Inr () \<and> f1 = commit (new_node (T @ [n]) (Link t) (fs_nodes f)) f"
    using assms(3) by (auto simp: Symlink_def at_node_run [OF _ q])
qed

lemma Mkdir_entry:
  assumes "plain (fs_nodes f) T" and "name_ok n" and "Mkdir (abs_path (T @ [n])) mode f = (r, f1)"
  shows "\<exists>m. made (T @ [n]) (Dir m) f r f1"
    and "r = Inl EEXIST \<Longrightarrow> look (fs_nodes f) (T @ [n]) \<noteq> None"
    and "fs_faults f = [] \<Longrightarrow> look (fs_nodes f) (T @ [n]) = None \<Longrightarrow> r = Inr () \<and> fs_faults f1 = []"
    and "fs_faults f = [] \<Longrightarrow> look (fs_nodes f) (T @ [n]) \<noteq> None \<Longrightarrow> r = Inl EEXIST \<and> f1 = f"
proof -
  note q = resolve_entry(1) [OF assms(1,2)]
  show "\<exists>m. made (T @ [n]) (Dir m) f r f1"
    using at_node_dest [OF q assms(3) [unfolded Mkdir_def]]
    by (auto simp: made_def split: option.splits)
  show "r = Inl EEXIST \<Longrightarrow> look (fs_nodes f) (T @ [n]) \<noteq> None"
    using at_node_dest [OF q assms(3) [unfolded Mkdir_def]] by (auto split: option.splits)
  show "fs_faults f = [] \<Longrightarrow> look (fs_nodes f) (T @ [n]) = None \<Longrightarrow> r = Inr () \<and> fs_faults f1 = []"
    "fs_faults f = [] \<Longrightarrow> look (fs_nodes f) (T @ [n]) \<noteq> None \<Longrightarrow> r = Inl EEXIST \<and> f1 = f"
    using assms(3) by (auto simp: Mkdir_def commit_def at_node_run [OF _ q])
qed

lemma touches_commit_at:
  assumes "\<And>x. x \<noteq> q \<Longrightarrow> look ns x = look (fs_nodes f) x"
  shows "touches (\<lambda>x. x = q) f (commit ns (f\<lparr>fs_faults := bs\<rparr>))"
  using touches_trans [OF touches_faults touches_commit] assms by (auto simp: agree_def)

lemma commit_simps [simp]:
  "fs_nodes (commit ns f) = ns" "fs_faults (commit ns f) = fs_faults f"
  by (simp_all add: commit_def)

lemma touched:
  "((\<And>bs. A bs) \<Longrightarrow> touches P f (snd x)) \<Longrightarrow> x = (r, f1) \<Longrightarrow> (\<And>bs. A bs) \<Longrightarrow> touches P f f1"
  by auto

lemma Remove_entry:
  assumes "plain (fs_nodes f) T" and "name_ok n" and "Remove (abs_path (T @ [n])) f = (r, f1)"
  shows "touches (\<lambda>x. x = T @ [n]) f f1"
    and "fs_faults f = [] \<Longrightarrow> look (fs_nodes f) (T @ [n]) = Some (Link t) \<Longrightarrow>
      r = Inr () \<and> f1 = commit (del_node (T @ [n]) (fs_nodes f)) f"
proof -
  note q = resolve_entry(1) [OF assms(1,2)]
  show "touches (\<lambda>x. x = T @ [n]) f f1"
    using at_node_touches [OF q, of "\<lambda>x. x = T @ [n]"] assms(3) unfolding Remove_def
    by (rule touched) (auto split: option.split node.split intro!: touches_commit simp: agree_def)
  show "fs_faults f = [] \<Longrightarrow> look (fs_nodes f) (T @ [n]) = Some (Link t) \<Longrightarrow>
      r = Inr () \<and> f1 = commit (del_node (T @ [n]) (fs_nodes f)) f"
    using assms(3) by (auto simp: Remove_def at_node_run [OF _ q])
qed

lemma Chmod_at:
  assumes "resolve True f p = Inr q" and "q \<noteq> []" and "Chmod p mode f = (r, f1)"
  shows "touches (\<lambda>x. x = q) f f1"
    and "look (fs_nodes f) q = Some (File d m) \<Longrightarrow> \<exists>m'. look (fs_nodes f1) q = Some (File d m')"
    and "look (fs_nodes f) q = Some (Dir m) \<Longrightarrow> \<exists>m'. look (fs_nodes f1) q = Some (Dir m')"
    and "fs_faults f = [] \<Longrightarrow> look (fs_nodes f) q = Some (File d m) \<Longrightarrow>
      r = Inr () \<and> fs_faults f1 = [] \<and> look (fs_nodes f1) q = Some (File d mode)"
    and "fs_faults f = [] \<Longrightarrow> look (fs_nodes f) q = Some (Dir m) \<Longrightarrow> r = Inr () \<and> fs_faults f1 = []"
proof -
  note dest = at_node_dest [OF assms(1) assms(3) [unfolded Chmod_def]]
  show "touches (\<lambda>x. x = q) f f1"
    using at_node_touches [OF assms(1), of "\<lambda>x. x = q"] assms(3) unfolding Chmod_def
    by (rule touched) (auto split: option.split node.split intro!: touches_commit simp: agree_def)
  show "look (fs_nodes f) q = Some (File d m) \<Longrightarrow> \<exists>m'. look (fs_nodes f1) q = Some (File d m')"
    "look (fs_nodes f) q = Some (Dir m) \<Longrightarrow> \<exists>m'. look (fs_nodes f1) q = Some (Dir m')"
    using dest assms(2) by auto
  show "fs_faults f = [] \<Longrightarrow> look (fs_nodes f) q = Some (File d m) \<Longrightarrow>
      r = Inr () \<and> fs_faults f1 = [] \<and> look (fs_nodes f1) q = Some (File d mode)"
    "fs_faults f = [] \<Longrightarrow> look (fs_nodes f) q = Some (Dir m) \<Longrightarrow> r = Inr () \<and> fs_faults f1 = []"
    using assms(2,3) by (auto simp: Chmod_def at_node_run [OF _ assms(1)])
qed

lemma write_open_cases:
  assumes "look (fs_nodes f) q = Some (File d m)" and "q \<noteq> []" and "write_open q data f = (r, f1)"
  shows "touches (\<lambda>x. x = q) f f1"
    and "r = Inr () \<Longrightarrow> look (fs_nodes f1) q = Some (File data m)"
    and "fs_faults f = [] \<Longrightarrow> r = Inr () \<and> fs_faults f1 = []"
  by (rule syscall_cases [of "\<lambda>f. case look (fs_nodes f) q of
       Some (File d m) \<Rightarrow> (Inr (), commit (set_node q (File data m) (fs_nodes f)) f)
     | _ \<Rightarrow> (Inr (), f)" f];
      use assms in \<open>auto simp: write_open_def syscall_def intro: touches_commit_at\<close>)+

lemma WriteFile_at:
  assumes q: "resolve True f p = Inr q" "q \<noteq> []"
    and n: "look (fs_nodes f) q = None \<or> (\<exists>d m. look (fs_nodes f) q = Some (File d m))"
    and w: "WriteFile p data mode f = (r, f1)"
  shows "touches (is_under q) f f1"
    and "r = Inr () \<Longrightarrow> \<exists>m. look (fs_nodes f1) q = Some (File data m)"
    and "fs_faults f = [] \<Longrightarrow> r = Inr () \<and> fs_faults f1 = []"
    and "x \<noteq> q \<Longrightarrow> look (fs_nodes f) x = None \<Longrightarrow> look (fs_nodes f1) x = None"
proof -
  obtain r0 f0 where o: "open_trunc p mode f = (r0, f0)" by fastforce
  from at_node_dest [OF q(1) o [unfolded open_trunc_def]] n q(2) have o0:
    "\<forall>x. r0 = Inr x \<longrightarrow> x = q \<and> (\<exists>m. look (fs_nodes f0) q = Some (File [] m))"
    by auto
  have "touches (is_under q) f f0"
    using at_node_touches [OF q(1), of "is_under q"] o unfolding open_trunc_def
    by (rule touched) (use q(2) in \<open>auto split: option.split node.split intro!: touches_commit simp: agree_def\<close>)
  with o0 have o1: "touches (is_under q) f f0 \<and>
      (\<forall>x. r0 = Inr x \<longrightarrow> x = q \<and> (\<exists>m. look (fs_nodes f0) q = Some (File [] m)))" by blast
  have o3: "look (fs_nodes f0) x = None" if "x \<noteq> q" "look (fs_nodes f) x = None" for x
    using at_node_dest [OF q(1) o [unfolded open_trunc_def]] n q(2) that by auto
  from o n have o2: "fs_faults f = [] \<Longrightarrow> r0 = Inr q \<and> fs_faults f0 = []"
    by (auto simp: open_trunc_def at_node_run [OF _ q(1)])
  have "touches (is_under q) f f1 \<and> (r = Inr () \<longrightarrow> (\<exists>m. look (fs_nodes f1) q = Some (File data m))) \<and>
      (fs_faults f = [] \<longrightarrow> r = Inr () \<and> fs_faults f1 = []) \<and>
      (\<forall>x. x \<noteq> q \<longrightarrow> look (fs_nodes f) x = None \<longrightarrow> look (fs_nodes f1) x = None)"
  proof (cases r0)
    case (Inl e)
    with w o o1 o2 o3 show ?thesis by (auto simp: WriteFile_def)
  next
    case (Inr x)
    with o1 obtain m where x: "x = q" "look (fs_nodes f0) q = Some (File [] m)" by auto
    from w o Inr x(1) have "write_open q data f0 = (r, f1)" by (simp add: WriteFile_def)
    note wo = write_open_cases [OF x(2) q(2) this]
    have "touches (is_under q) f0 f1" by (rule touches_mono [OF wo(1)]) simp
    then have "touches (is_under q) f f1" using o1 touches_trans by blast
    moreover have "look (fs_nodes f1) x = None" if "x \<noteq> q" "look (fs_nodes f) x = None" for x
      using touches_look [OF wo(1), of x] o3 [OF that] that by simp
    ultimately show ?thesis using o1 o2 wo by blast
  qed
  then show "touches (is_under q) f f1" "r = Inr () \<Longrightarrow> \<exists>m. look (fs_nodes f1) q = Some (File data m)"
    "fs_faults f = [] \<Longrightarrow> r = Inr () \<and> fs_faults f1 = []"
    "x \<noteq> q \<Longrightarrow> look (fs_nodes f) x = None \<Longrightarrow> look (fs_nodes f1) x = None" by auto
qed

lemma remove_each_touches:
  assumes "\<And>r. r \<in> set rs \<Longrightarrow> P r" and "remove_each rs f = (e, f1)"
  shows "touches P f f1"
    and "fs_faults f = [] \<Longrightarrow> e = Inr () \<and> fs_faults f1 = [] \<and>
      (\<forall>x. look (fs_nodes f1) x = (if x \<in> set rs \<and> x \<noteq> [] then None else look (fs_nodes f) x))"
proof -
  let ?g = "\<lambda>r f. (Inr () :: errno + unit, commit (del_node r (fs_nodes f)) f)"
  show "touches P f f1"
    using assms
  proof (induction rs arbitrary: f)
    case (Cons r rs)
    obtain y f0 where y: "syscall (?g r) f = (y, f0)" by fastforce
    have "touches (\<lambda>x. x = r) f f0"
      by (rule syscall_cases [of "?g r" f]) (use y in \<open>auto intro: touches_commit_at\<close>)
    then have "touches P f f0" by (rule touches_mono) (use Cons.prems in auto)
    with Cons y show ?case
      by (cases y) (auto intro: touches_trans)
  qed simp
  show "fs_faults f = [] \<Longrightarrow> e = Inr () \<and> fs_faults f1 = [] \<and>
      (\<forall>x. look (fs_nodes f1) x = (if x \<in> set rs \<and> x \<noteq> [] then None else look (fs_nodes f) x))"
    using assms(2)
  proof (induction rs arbitrary: f)
    case (Cons r rs)
    then show ?case
      by (auto simp: syscall_def dest!: Cons.IH [rotated] split: if_splits)
  qed auto
qed

lemma RemoveAll_at:
  assumes "resolve False f p = Inr q" and "q \<noteq> []" and "RemoveAll p f = (r, f1)"
  shows "touches (is_under q) f f1"
    and "fs_faults f = [] \<Longrightarrow> r = Inr () \<and> fs_faults f1 = [] \<and>
      (\<forall>x. look (fs_nodes f1) x = (if is_under q x then None else look (fs_nodes f) x))"
proof -
  let ?rs = "rev (sort_key length (filter (is_under q) (map fst (fs_nodes f))))"
  have e: "remove_each ?rs f = (r, f1)" using assms(1,3) by (simp add: RemoveAll_def)
  show "touches (is_under q) f f1" by (rule remove_each_touches(1) [OF _ e]) auto
  assume "fs_faults f = []"
  from remove_each_touches(2) [OF _ e this, of "\<lambda>_. True"]
  have "r = Inr ()" "fs_faults f1 = []"
    and l: "\<And>x. look (fs_nodes f1) x = (if x \<in> set ?rs \<and> x \<noteq> [] then None else look (fs_nodes f) x)"
    by auto
  moreover have "look (fs_nodes f1) x = (if is_under q x then None else look (fs_nodes f) x)" for x
  proof (cases "is_under q x")
    case True
    with assms(2) have "x \<noteq> []" by (auto simp: is_under_def)
    moreover have "look (fs_nodes f) x = None" if "x \<notin> fst ` set (fs_nodes f)"
      using that \<open>x \<noteq> []\<close> by (simp add: look_def map_of_eq_None_iff)
    ultimately show ?thesis using True by (auto simp: l)
  qed (simp add: l)
  ultimately show "r = Inr () \<and> fs_faults f1 = [] \<and>
      (\<forall>x. look (fs_nodes f1) x = (if is_under q x then None else look (fs_nodes f) x))" by simp
qed

lemma Rename_entry:
  assumes pl: "plain (fs_nodes f) T" and n: "name_ok a" "name_ok b" "a \<noteq> b"
    and leaf: "\<And>q. q \<noteq> [] \<Longrightarrow> look (fs_nodes f) (T @ a # q) = None"
    and w: "Rename (abs_path (T @ [a])) (abs_path (T @ [b])) f = (r, f1)"
  shows "isl r \<Longrightarrow> reads f f1"
    and "\<not> isl r \<Longrightarrow> touches (\<lambda>x. x = T @ [a] \<or> x = T @ [b]) f f1 \<and>
      fs_history f1 = fs_nodes f1 # fs_history f \<and> look (fs_nodes f1) (T @ [a]) = None \<and>
      look (fs_nodes f1) (T @ [b]) = look (fs_nodes f) (T @ [a])"
    and "fs_faults f = [] \<Longrightarrow> look (fs_nodes f) (T @ [a]) = Some (Link t) \<Longrightarrow>
      (\<And>m. look (fs_nodes f) (T @ [b]) \<noteq> Some (Dir m)) \<Longrightarrow> \<not> isl r \<and> fs_faults f1 = []"
proof -
  note qa = resolve_entry(1) [OF pl n(1)] and qb = resolve_entry(1) [OF pl n(2)]
  note dest = at_node_dest [OF qa w [unfolded Rename_def]]
  show "isl r \<Longrightarrow> reads f f1"
    using dest qb by (auto split: option.splits node.splits)
  have only: "x = T @ [a]" if "(x, y) \<in> set (fs_nodes f)" "is_under (T @ [a]) x" for x y
  proof (rule ccontr)
    assume "x \<noteq> T @ [a]"
    with that(2) obtain q where "x = T @ a # q" "q \<noteq> []" by (auto simp: is_under_iff)
    with leaf [of q] that(1) show False
      by (auto simp: look_def map_of_eq_None_iff image_iff split: if_splits)
  qed
  note mv = look_move [where p = "T @ [a]" and q = "T @ [b]" and ns = "fs_nodes f"]
  show "\<not> isl r \<Longrightarrow> touches (\<lambda>x. x = T @ [a] \<or> x = T @ [b]) f f1 \<and>
      fs_history f1 = fs_nodes f1 # fs_history f \<and> look (fs_nodes f1) (T @ [a]) = None \<and> look (fs_nodes f1) (T @ [b]) = look (fs_nodes f) (T @ [a])"
  proof -
    assume "\<not> isl r"
    with dest qb obtain bs where f1: "f1 = commit (move (T @ [a]) (T @ [b]) (fs_nodes f)) (f\<lparr>fs_faults := bs\<rparr>)"
      by (auto split: option.splits node.splits)
    have l: "look (move (T @ [a]) (T @ [b]) (fs_nodes f)) x =
        (if x = T @ [b] then look (fs_nodes f) (T @ [a]) else if x = T @ [a] then None
         else look (fs_nodes f) x)" for x
      using only n(3) by (intro mv) auto
    have "touches (\<lambda>x. x = T @ [a] \<or> x = T @ [b]) f f1"
      unfolding f1 by (intro touches_trans [OF touches_faults touches_commit]) (auto simp: agree_def l)
    with l n(3) f1 show ?thesis by (simp add: commit_def)
  qed
  show "fs_faults f = [] \<Longrightarrow> look (fs_nodes f) (T @ [a]) = Some (Link t) \<Longrightarrow>
      (\<And>m. look (fs_nodes f) (T @ [b]) \<noteq> Some (Dir m)) \<Longrightarrow> \<not> isl r \<and> fs_faults f1 = []"
    using w qb by (auto simp: Rename_def at_node_run [OF _ qa] split: option.splits node.splits)
qed

lemma ReadFile_at:
  assumes "resolve True f p = Inr q" and "ReadFile p f = (r, f1)"
  shows "r = Inr d \<Longrightarrow> \<exists>m. look (fs_nodes f) q = Some (File d m)"
    and "fs_faults f = [] \<Longrightarrow> look (fs_nodes f) q = Some (File d m) \<Longrightarrow> r = Inr d \<and> f1 = f"
proof -
  show "r = Inr d \<Longrightarrow> \<exists>m. look (fs_nodes f) q = Some (File d m)"
    using at_node_dest [OF assms(1) assms(2) [unfolded ReadFile_def]]
    by (auto split: option.splits node.splits)
  show "fs_faults f = [] \<Longrightarrow> look (fs_nodes f) q = Some (File d m) \<Longrightarrow> r = Inr d \<and> f1 = f"
    using assms(2) by (auto simp: ReadFile_def at_node_run [OF _ assms(1)])
qed

lemma Lstat_at:
  assumes "resolve False f p = Inr q" and "Lstat p f = (r, f1)"
  shows "r = Inl ENOENT \<Longrightarrow> look (fs_nodes f) q = None"
    and "fs_faults f = [] \<Longrightarrow> look (fs_nodes f) q = Some n \<Longrightarrow> r = Inr n \<and> f1 = f"
proof -
  show "r = Inl ENOENT \<Longrightarrow> look (fs_nodes f) q = None"
    using at_node_dest [OF assms(1) assms(2) [unfolded Lstat_def]] by (auto split: option.splits)
  show "fs_faults f = [] \<Longrightarrow> look (fs_nodes f) q = Some n \<Longrightarrow> r = Inr n \<and> f1 = f"
    using assms(2) by (auto simp: Lstat_def at_node_run [OF _ assms(1)])
qed

lemma Walk_at:
  assumes "resolve False f p = Inr q" and "look (fs_nodes f) q = Some (Dir m)" and "Walk p f = (r, f1)"
  shows "r = Inr ps \<Longrightarrow> ps = p # map (\<lambda>(r, _). Join [p, join_path (drop (length q) r)])
            (filter (\<lambda>(r, _). is_under q r \<and> r \<noteq> q) (fs_nodes f))"
    and "r \<noteq> Inl ENOENT"
    and "fs_faults f = [] \<Longrightarrow> f1 = f \<and> \<not> isl r"
proof -
  note dest = at_node_dest [OF assms(1) assms(3) [unfolded Walk_def]]
  show "r = Inr ps \<Longrightarrow> ps = p # map (\<lambda>(r, _). Join [p, join_path (drop (length q) r)])
            (filter (\<lambda>(r, _). is_under q r \<and> r \<noteq> q) (fs_nodes f))"
    using dest assms(2) by auto
  show "r \<noteq> Inl ENOENT" using dest assms(2) by auto
  show "fs_faults f = [] \<Longrightarrow> f1 = f \<and> \<not> isl r"
    using assms(2,3) by (auto simp: Walk_def at_node_run [OF _ assms(1)])
qed

section \<open>MkdirAll on a directory that exists\<close>

definition dir_slash :: "fpath \<Rightarrow> string" where
  "dir_slash D = (if D = [] then [slash] else abs_path D @ [slash])"

lemma fst_SplitFile_abs: "name_ok n \<Longrightarrow> fst (SplitFile (abs_path (D @ [n]))) = dir_slash D"
  by (simp add: SplitFile_abs dir_slash_def)

lemma resolve_dir_slash:
  assumes "plain (fs_nodes f) D" shows "resolve follow f (dir_slash D) = Inr D"
  using resolve_plain [OF assms] by (auto simp: dir_slash_def abs_path_def)

lemma strip_dir_slash:
  assumes "names_ok D"
  shows "rev (dropWhile (\<lambda>c. c = slash) (rev (dir_slash D))) = (if D = [] then [] else abs_path D)"
proof (cases D rule: rev_cases)
  case (snoc D' n)
  with assms have "name_ok n" by simp
  then obtain m x where n: "n = m @ [x]" "x \<noteq> slash"
    unfolding name_ok_def by (metis append_butlast_last_id last_in_set)
  have "\<exists>p. abs_path D = p @ n"
    using snoc by (cases "D' = []") (auto simp: abs_path_def join_path_snoc)
  then obtain p where "abs_path D = p @ n" ..
  with snoc n show ?thesis by (simp add: dir_slash_def)
qed (simp add: dir_slash_def)

lemma Mkdir_reads:
  assumes "resolve False f p = Inr q" and "look (fs_nodes f) q \<noteq> None"
  shows "reads f (snd (Mkdir p mode f))"
proof -
  obtain r f1 where m: "Mkdir p mode f = (r, f1)" by fastforce
  from at_node_dest [OF assms(1) m [unfolded Mkdir_def]] assms(2) have "reads f f1" by auto
  with m show ?thesis by simp
qed

lemma MkdirAll_step:
  assumes res: "\<And>follow. resolve follow f p = Inr q" and q: "look (fs_nodes f) q \<noteq> None"
    and rec: "\<And>g par. par = fst (SplitFile (rev (dropWhile (\<lambda>c. c = slash) (rev p)))) \<Longrightarrow> par \<noteq> [] \<Longrightarrow>
       reads f g \<Longrightarrow> reads g (snd (MkdirAll par mode g))"
  shows "reads f (snd (MkdirAll p mode f))"
proof -
  let ?par = "fst (SplitFile (rev (dropWhile (\<lambda>c. c = slash) (rev p))))"
  obtain r0 f0 where s: "Stat p f = (r0, f0)" by fastforce
  then have f0: "reads f f0" using read_calls(1) [of f p] by simp
  show ?thesis
  proof (cases r0)
    case (Inr n)
    with s f0 show ?thesis by (cases n) (simp_all add: MkdirAll.simps)
  next
    case (Inl e)
    obtain r1 f1 where r1: "(if ?par \<noteq> [] \<and> length ?par < length p then MkdirAll ?par mode f0
        else (Inr (), f0)) = (r1, f1)" by fastforce
    then have "reads f0 f1" using rec [OF refl _ f0] by (auto split: if_splits)
    with f0 have f1: "reads f f1" by (rule reads_trans)
    then have "resolve False f1 p = Inr q" "fs_nodes f1 = fs_nodes f"
      using res by (auto simp: reads_def)
    with q have m: "reads f1 (snd (Mkdir p mode f1))" by (simp add: Mkdir_reads)
    obtain r2 f2 where r2: "Mkdir p mode f1 = (r2, f2)" by fastforce
    with m f1 have f2: "reads f f2" using reads_trans by fastforce
    obtain r3 f3 where r3: "Lstat p f2 = (r3, f3)" by fastforce
    with f2 read_calls(2) [of f2 p] have f3: "reads f f3" using reads_trans by fastforce
    from Inl s r1 f1 r2 f2 r3 f3 show ?thesis
      by (auto simp: MkdirAll.simps [of p] Let_def split: sum.split node.split)
  qed
qed

lemma MkdirAll_plain:
  assumes "plain (fs_nodes f) D" and "MkdirAll (dir_slash D) mode f = (r, f1)"
  shows "reads f f1" and "fs_faults f = [] \<Longrightarrow> r = Inr () \<and> f1 = f"
proof -
  have dir: "\<exists>m. look (fs_nodes g) D = Some (Dir m)" if "plain (fs_nodes g) D" for g D
    using that unfolding plain_def by (metis append_Nil2)
  have "reads f (snd (MkdirAll (dir_slash D) mode f))"
    using assms(1)
  proof (induction D arbitrary: f rule: rev_induct)
    case Nil
    show ?case
    proof (rule MkdirAll_step [OF resolve_dir_slash [OF Nil]])
      show "look (fs_nodes f) [] \<noteq> None" by simp
    next
      fix g par
      assume "par = fst (SplitFile (rev (dropWhile (\<lambda>c. c = slash) (rev (dir_slash [])))))" "par \<noteq> []"
      then show "reads g (snd (MkdirAll par mode g))"
        by (simp add: strip_dir_slash SplitFile_def)
    qed
  next
    case (snoc n D)
    have n: "names_ok (D @ [n])" "name_ok n" "plain (fs_nodes f) D"
      using plain_names [OF snoc.prems] snoc.prems by simp_all
    show ?case
    proof (rule MkdirAll_step [OF resolve_dir_slash [OF snoc.prems]])
      show "look (fs_nodes f) (D @ [n]) \<noteq> None" using dir [OF snoc.prems] by auto
    next
      fix g par
      assume "par = fst (SplitFile (rev (dropWhile (\<lambda>c. c = slash) (rev (dir_slash (D @ [n]))))))"
        and "reads f g"
      then have "par = dir_slash D" "plain (fs_nodes g) D"
        using n strip_dir_slash [OF n(1)] by (simp_all add: fst_SplitFile_abs reads_nodes)
      then show "reads g (snd (MkdirAll par mode g))" using snoc.IH by simp
    qed
  qed
  with assms(2) show "reads f f1" by simp
  assume f: "fs_faults f = []"
  from dir [OF assms(1)] obtain m where "look (fs_nodes f) D = Some (Dir m)" ..
  then have "Stat (dir_slash D) f = (Inr (Dir m), f)"
    using f by (simp add: Stat_def at_node_run [OF _ resolve_dir_slash [OF assms(1)]])
  with assms(2) show "r = Inr () \<and> f1 = f" by (simp add: MkdirAll.simps)
qed

end
