(* ===== verification/Atomic_Writer.thy ===== *)
theory Atomic_Writer
  imports File_System "HOL-Library.AList"
begin

text \<open>
  \<^verbatim>\<open>internal/webhook/util/writer/atomic/atomic_writer.go\<close>: a set of files is written into a fresh
  hidden directory and made visible by one rename of the link \<^verbatim>\<open>..data\<close>. A payload is a Go map;
  it is given as the list of its entries in the order in which the runtime iterates over it, an
  arbitrary one that is the same in every loop of a run. The time stamp and the random names of \<^verbatim>\<open>os.MkdirTemp\<close> are the arguments
  \<open>stamp\<close> and \<open>rands\<close>, \<^verbatim>\<open>runtime.GOOS\<close> is \<open>goos\<close>; sets of paths are lists. Logging is left out.
\<close>

section \<open>Payloads\<close>

record FileProjection =
  fp_Data :: "char goslice"
  fp_Mode :: "32 word"

type_synonym payload = "(string \<times> FileProjection) list"

definition content :: "FileProjection \<Rightarrow> string" where
  "content fp = (case fp_Data fp of None \<Rightarrow> [] | Some d \<Rightarrow> d)"

datatype path_error =
    EmptyPath | NotRelative | PathTooLong | ContainsDotDot | NameTooLong | StartsWithDotDot

datatype write_error = BadPath path_error | Os errno

definition maxFileNameLength :: nat where
  "maxFileNameLength = 255"

definition maxPathLength :: nat where
  "maxPathLength = 4096"

definition dataDirName :: string where
  "dataDirName = ''..data''"

definition newDataDirName :: string where
  "newDataDirName = ''..data_tmp''"

fun validate_items :: "string list \<Rightarrow> path_error option" where
  "validate_items [] = None"
| "validate_items (item # segs) =
     (if item = ''..'' then Some ContainsDotDot
      else if length item > maxFileNameLength then Some NameTooLong
      else validate_items segs)"

definition validatePath :: "string \<Rightarrow> path_error option" where
  "validatePath targetPath =
     (if targetPath = [] then Some EmptyPath
      else if IsAbs targetPath then Some NotRelative
      else if length targetPath > maxPathLength then Some PathTooLong
      else
        (let segs = Split slash targetPath in
         case validate_items segs of
           Some e \<Rightarrow> Some e
         | None \<Rightarrow>
             if HasPrefix (hd segs) ''..'' \<and> length (hd segs) > 2 then Some StartsWithDotDot
             else None))"

fun validate_entries :: "payload \<Rightarrow> payload \<Rightarrow> path_error + payload" where
  "validate_entries [] cleanPayload = Inr cleanPayload"
| "validate_entries ((k, fp) # rest) cleanPayload =
     (case validatePath k of
        Some e \<Rightarrow> Inl e
      | None \<Rightarrow> validate_entries rest (AList.update (Clean k) fp cleanPayload))"

definition validatePayload :: "payload \<Rightarrow> path_error + payload" where
  "validatePayload payload = validate_entries payload []"

section \<open>What has to be written and removed\<close>

definition shouldWriteFile :: "string \<Rightarrow> string \<Rightarrow> fs \<Rightarrow> (errno + bool) \<times> fs" where
  "shouldWriteFile p data f =
     (case Lstat p f of
        (r, f1) \<Rightarrow>
          if (case r of Inl e \<Rightarrow> IsNotExist e | Inr _ \<Rightarrow> False) then (Inr True, f1)
          else
            (case ReadFile p f1 of
               (Inl e, f2) \<Rightarrow> (Inl e, f2)
             | (Inr contentOnFs, f2) \<Rightarrow> (Inr (data \<noteq> contentOnFs), f2)))"

fun shouldWritePayload :: "payload \<Rightarrow> string \<Rightarrow> fs \<Rightarrow> (errno + bool) \<times> fs" where
  "shouldWritePayload [] oldTsDir f = (Inr False, f)"
| "shouldWritePayload ((p, fp) # rest) oldTsDir f =
     (case shouldWriteFile (Join [oldTsDir, p]) (content fp) f of
        (Inl e, f1) \<Rightarrow> (Inl e, f1)
      | (Inr shouldWrite, f1) \<Rightarrow>
          if shouldWrite then (Inr True, f1) else shouldWritePayload rest oldTsDir f1)"

text \<open>The loop that adds a path and every directory above it to the set of new paths.\<close>

function subPaths :: "string \<Rightarrow> string list" where
  "subPaths subPath =
     (if subPath = [] then []
      else subPath # subPaths (TrimSuffix (fst (SplitFile subPath)) [slash]))"
  by pat_completeness auto
termination
proof (relation "measure length")
  fix p :: string
  assume "p \<noteq> []"
  then have "length (TrimSuffix (fst (SplitFile p)) [slash]) < length p"
    using LastIndex_Some [of p slash] by (auto simp: TrimSuffix_SplitFile split: option.splits)
  then show "(TrimSuffix (fst (SplitFile p)) [slash], p) \<in> measure length" by simp
qed simp

declare subPaths.simps [simp del]

definition relative_paths :: "string \<Rightarrow> string list \<Rightarrow> string list" where
  "relative_paths oldTsDir paths =
     filter (\<lambda>p. p \<noteq> [])
       (map (\<lambda>p. TrimPrefix (TrimPrefix p oldTsDir) [slash]) paths)"

definition pathsToRemove :: "payload \<Rightarrow> string \<Rightarrow> fs \<Rightarrow> (errno + string list) \<times> fs" where
  "pathsToRemove payload oldTsDir f =
     (case Walk oldTsDir f of
        (Inl e, f1) \<Rightarrow> if IsNotExist e then (Inr [], f1) else (Inl e, f1)
      | (Inr visited, f1) \<Rightarrow>
          (let paths = relative_paths oldTsDir visited;
               newPaths = concat (map (\<lambda>(file, _). subPaths file) payload)
           in (Inr (remdups (filter (\<lambda>p. p \<notin> set newPaths) paths)), f1)))"

section \<open>Writing\<close>

definition newTimestampDir :: "string \<Rightarrow> string \<Rightarrow> string list \<Rightarrow> fs \<Rightarrow> (errno + string) \<times> fs" where
  "newTimestampDir targetDir stamp rands f =
     (case MkdirTemp targetDir stamp rands f of
        (Inl e, f1) \<Rightarrow> (Inl e, f1)
      | (Inr tsDir, f1) \<Rightarrow>
          (case Chmod tsDir 493 f1 of
             (Inl e, f2) \<Rightarrow> (Inl e, f2)
           | (Inr _, f2) \<Rightarrow> (Inr tsDir, f2)))"

fun writePayloadToDir :: "payload \<Rightarrow> string \<Rightarrow> fs \<Rightarrow> (errno + unit) \<times> fs" where
  "writePayloadToDir [] dir f = (Inr (), f)"
| "writePayloadToDir ((userVisiblePath, fp) # rest) dir f =
     (let fullPath = Join [dir, userVisiblePath];
          baseDir = fst (SplitFile fullPath) in
      case MkdirAll baseDir 511 f of
        (Inl e, f1) \<Rightarrow> (Inl e, f1)
      | (Inr _, f1) \<Rightarrow>
          (case WriteFile fullPath (content fp) (fp_Mode fp) f1 of
             (Inl e, f2) \<Rightarrow> (Inl e, f2)
           | (Inr _, f2) \<Rightarrow>
               (case Chmod fullPath (fp_Mode fp) f2 of
                  (_, f3) \<Rightarrow> writePayloadToDir rest dir f3)))"

fun createUserVisibleFiles :: "payload \<Rightarrow> string \<Rightarrow> fs \<Rightarrow> (errno + unit) \<times> fs" where
  "createUserVisibleFiles [] targetDir f = (Inr (), f)"
| "createUserVisibleFiles ((userVisiblePath, fp) # rest) targetDir f =
     (let slashpos = (case Index userVisiblePath slash of
                        None \<Rightarrow> length userVisiblePath | Some i \<Rightarrow> i);
          linkname = take slashpos userVisiblePath in
      case Readlink (Join [targetDir, linkname]) f of
        (r, f1) \<Rightarrow>
          if (case r of Inl e \<Rightarrow> IsNotExist e | Inr _ \<Rightarrow> False) then
            (let visibleFile = Join [targetDir, linkname];
                 dataDirFile = Join [dataDirName, linkname] in
             case Symlink dataDirFile visibleFile f1 of
               (Inl e, f2) \<Rightarrow> (Inl e, f2)
             | (Inr _, f2) \<Rightarrow> createUserVisibleFiles rest targetDir f2)
          else createUserVisibleFiles rest targetDir f1)"

fun removeUserVisiblePaths :: "string list \<Rightarrow> string \<Rightarrow> errno option \<Rightarrow> fs \<Rightarrow> errno option \<times> fs" where
  "removeUserVisiblePaths [] targetDir lasterr f = (lasterr, f)"
| "removeUserVisiblePaths (p # paths) targetDir lasterr f =
     (if Contains p [slash] then removeUserVisiblePaths paths targetDir lasterr f
      else
        (case Remove (Join [targetDir, p]) f of
           (Inl e, f1) \<Rightarrow> removeUserVisiblePaths paths targetDir (Some e) f1
         | (Inr _, f1) \<Rightarrow> removeUserVisiblePaths paths targetDir lasterr f1))"

section \<open>Write\<close>

text \<open>Steps 10 and 11.\<close>

definition Write_cleanup ::
  "string \<Rightarrow> string list \<Rightarrow> string \<Rightarrow> fs \<Rightarrow> (write_error + unit) \<times> fs" where
  "Write_cleanup targetDir paths oldTsDir f =
     (case removeUserVisiblePaths paths targetDir None f of
        (Some e, f1) \<Rightarrow> (Inl (Os e), f1)
      | (None, f1) \<Rightarrow>
          if length oldTsDir > 0 then
            (case RemoveAll (Join [targetDir, oldTsDir]) f1 of
               (Inl e, f2) \<Rightarrow> (Inl (Os e), f2)
             | (Inr _, f2) \<Rightarrow> (Inr (), f2))
          else (Inr (), f1))"

text \<open>Steps 8 and 9: the new directory replaces the old one.\<close>

definition Write_switch ::
  "string \<Rightarrow> string \<Rightarrow> string \<Rightarrow> string list \<Rightarrow> string \<Rightarrow> fs \<Rightarrow> (write_error + unit) \<times> fs" where
  "Write_switch goos targetDir tsDir paths oldTsDir f =
     (let tsDirName = Base tsDir;
          dataDirPath = Join [targetDir, dataDirName];
          newDataDirPath = Join [targetDir, newDataDirName] in
      case Symlink tsDirName newDataDirPath f of
        (Inl e, f1) \<Rightarrow> (case RemoveAll tsDir f1 of (_, f2) \<Rightarrow> (Inl (Os e), f2))
      | (Inr _, f1) \<Rightarrow>
          (case (if goos = ''windows'' then
                   (case Remove dataDirPath f1 of (_, f2) \<Rightarrow>
                      case Symlink tsDirName dataDirPath f2 of (r, f3) \<Rightarrow>
                        case Remove newDataDirPath f3 of (_, f4) \<Rightarrow> (r, f4))
                 else Rename newDataDirPath dataDirPath f1) of
             (Inl e, f2) \<Rightarrow>
               (case Remove newDataDirPath f2 of (_, f3) \<Rightarrow>
                  case RemoveAll tsDir f3 of (_, f4) \<Rightarrow> (Inl (Os e), f4))
           | (Inr _, f2) \<Rightarrow> Write_cleanup targetDir paths oldTsDir f2))"

text \<open>Steps 5 to 7.\<close>

definition Write_new ::
  "string \<Rightarrow> string \<Rightarrow> string list \<Rightarrow> string \<Rightarrow> payload \<Rightarrow> string list \<Rightarrow> string \<Rightarrow> fs \<Rightarrow>
   (write_error + unit) \<times> fs" where
  "Write_new goos stamp rands targetDir cleanPayload paths oldTsDir f =
     (case newTimestampDir targetDir stamp rands f of
        (Inl e, f1) \<Rightarrow> (Inl (Os e), f1)
      | (Inr tsDir, f1) \<Rightarrow>
          (case writePayloadToDir cleanPayload tsDir f1 of
             (Inl e, f2) \<Rightarrow> (Inl (Os e), f2)
           | (Inr _, f2) \<Rightarrow>
               (case createUserVisibleFiles cleanPayload targetDir f2 of
                  (Inl e, f3) \<Rightarrow> (Inl (Os e), f3)
                | (Inr _, f3) \<Rightarrow> Write_switch goos targetDir tsDir paths oldTsDir f3)))"

text \<open>Steps 3 and 4.\<close>

definition Write_update ::
  "string \<Rightarrow> string \<Rightarrow> string list \<Rightarrow> string \<Rightarrow> payload \<Rightarrow> string \<Rightarrow> fs \<Rightarrow> (write_error + unit) \<times> fs"
where
  "Write_update goos stamp rands targetDir cleanPayload oldTsDir f =
     (let oldTsPath = Join [targetDir, oldTsDir] in
      if length oldTsDir \<noteq> 0 then
        (case pathsToRemove cleanPayload oldTsPath f of
           (Inl e, f1) \<Rightarrow> (Inl (Os e), f1)
         | (Inr paths, f1) \<Rightarrow>
             (case shouldWritePayload cleanPayload oldTsPath f1 of
                (Inl e, f2) \<Rightarrow> (Inl (Os e), f2)
              | (Inr should, f2) \<Rightarrow>
                  if \<not> should \<and> length paths = 0 then (Inr (), f2)
                  else Write_new goos stamp rands targetDir cleanPayload paths oldTsDir f2))
      else Write_new goos stamp rands targetDir cleanPayload [] oldTsDir f)"

definition Write ::
  "string \<Rightarrow> string \<Rightarrow> string list \<Rightarrow> string \<Rightarrow> payload \<Rightarrow> fs \<Rightarrow> (write_error + unit) \<times> fs" where
  "Write goos stamp rands targetDir payload f =
     (case validatePayload payload of
        Inl e \<Rightarrow> (Inl (BadPath e), f)
      | Inr cleanPayload \<Rightarrow>
          (case Readlink (Join [targetDir, dataDirName]) f of
             (Inl e, f1) \<Rightarrow>
               if \<not> IsNotExist e then (Inl (Os e), f1)
               else Write_update goos stamp rands targetDir cleanPayload [] f1
           | (Inr oldTsDir, f1) \<Rightarrow>
               Write_update goos stamp rands targetDir cleanPayload oldTsDir f1))"

definition NewAtomicWriter :: "string \<Rightarrow> fs \<Rightarrow> (errno + string) \<times> fs" where
  "NewAtomicWriter targetDir f =
     (case Stat targetDir f of
        (Inl e, f1) \<Rightarrow> if IsNotExist e then (Inl e, f1) else (Inr targetDir, f1)
      | (Inr _, f1) \<Rightarrow> (Inr targetDir, f1))"

section \<open>Flat payloads\<close>

text \<open>
  The program only writes files with plain names (the certificates). For such payloads the theorems
  below cover every fault.
\<close>

definition visible_name :: "string \<Rightarrow> bool" where
  "visible_name n \<longleftrightarrow> name_ok n \<and> length n \<le> maxFileNameLength \<and> \<not> HasPrefix n ''..''"

definition flat :: "payload \<Rightarrow> bool" where
  "flat pl \<longleftrightarrow> distinct (map fst pl) \<and> (\<forall>n \<in> fst ` set pl. visible_name n)"

definition ts_name :: "string \<Rightarrow> bool" where
  "ts_name n \<longleftrightarrow> name_ok n \<and> HasPrefix n ''..'' \<and> n \<noteq> dataDirName \<and> n \<noteq> newDataDirName"

lemma flat_Nil [simp]: "flat []"
  by (simp add: flat_def)

lemma flat_Cons [simp]:
  "flat ((n, fp) # pl) \<longleftrightarrow> visible_name n \<and> n \<notin> fst ` set pl \<and> flat pl"
  by (auto simp: flat_def)

lemma visible_nameD:
  assumes "visible_name n"
  shows "name_ok n" "n \<noteq> dataDirName" "n \<noteq> newDataDirName" "\<not> ts_name n"
  using assms by (auto simp: visible_name_def ts_name_def dataDirName_def newDataDirName_def)

lemma reserved_names [simp]: "name_ok dataDirName" "name_ok newDataDirName" "dataDirName \<noteq> newDataDirName"
  by (simp_all add: dataDirName_def newDataDirName_def name_ok_def)

lemma ts_nameD:
  assumes "ts_name n" shows "name_ok n" "n \<noteq> dataDirName" "n \<noteq> newDataDirName" "\<not> visible_name n"
  using assms by (auto simp: ts_name_def visible_name_def)

lemma validatePath_visible: "visible_name n \<Longrightarrow> validatePath n = None"
  by (auto simp: validatePath_def visible_name_def name_ok_def IsAbs_def Split_no_sep
      maxFileNameLength_def maxPathLength_def Let_def dest: hd_in_set)

lemma validate_entries_flat:
  assumes "flat pl" and "fst ` set pl \<inter> fst ` set acc = {}"
  shows "validate_entries pl acc = Inr (acc @ pl)"
  using assms
proof (induction pl arbitrary: acc)
  case (Cons x pl)
  obtain n fp where x: "x = (n, fp)" by fastforce
  with Cons.prems have v: "visible_name n" "n \<notin> fst ` set acc" "n \<notin> fst ` set pl" by auto
  from v(2) have "AList.update n fp acc = acc @ [(n, fp)]"
    by (induction acc) auto
  moreover have "Clean n = n" using v(1) by (simp add: visible_name_def Clean_name)
  ultimately show ?case
    using Cons x v by (simp add: validatePath_visible)
qed simp

lemma validatePayload_flat: "flat pl \<Longrightarrow> validatePayload pl = Inr pl"
  by (simp add: validatePayload_def validate_entries_flat)

lemma subPaths_name: "name_ok n \<Longrightarrow> subPaths n = [n]"
  by (simp add: subPaths.simps [of n] subPaths.simps [of "[]"] TrimSuffix_SplitFile name_ok_def
      LastIndex_None [THEN iffD2])

lemma newPaths_flat:
  "flat pl \<Longrightarrow> concat (map (\<lambda>(file, _). subPaths file) pl) = map fst pl"
  by (induction pl) (auto simp: visible_name_def subPaths_name)

section \<open>The invariant and the view of a reader\<close>

text \<open>What the link \<^verbatim>\<open>..data\<close> shows under a name.\<close>

definition data_view :: "nodes \<Rightarrow> fpath \<Rightarrow> string \<Rightarrow> node option" where
  "data_view ns T n =
     (case look ns (T @ [dataDirName]) of Some (Link ts) \<Rightarrow> look ns (T @ [ts, n]) | _ \<Rightarrow> None)"

definition shows_exactly :: "nodes \<Rightarrow> fpath \<Rightarrow> payload \<Rightarrow> bool" where
  "shows_exactly ns T pl \<longleftrightarrow>
     (\<forall>n. case map_of pl n of
            None \<Rightarrow> data_view ns T n = None
          | Some fp \<Rightarrow> \<exists>m. data_view ns T n = Some (File (content fp) m))"

text \<open>
  The target directory as the writer leaves it: \<^verbatim>\<open>..data\<close> is missing or a link to a hidden
  directory of plain files.
\<close>

definition data_dir :: "nodes \<Rightarrow> fpath \<Rightarrow> string \<Rightarrow> bool" where
  "data_dir ns T ts \<longleftrightarrow> ts_name ts \<and> (\<exists>m. look ns (T @ [ts]) = Some (Dir m)) \<and>
     (\<forall>q. q \<noteq> [] \<longrightarrow> look ns (T @ ts # q) \<noteq> None \<longrightarrow>
        (\<exists>n d m. q = [n] \<and> visible_name n \<and> look ns (T @ [ts, n]) = Some (File d m)))"

definition writer_inv :: "nodes \<Rightarrow> fpath \<Rightarrow> bool" where
  "writer_inv ns T \<longleftrightarrow> plain ns T \<and>
     (case look ns (T @ [dataDirName]) of
        None \<Rightarrow> True | Some (Link ts) \<Rightarrow> data_dir ns T ts | _ \<Rightarrow> False)"

text \<open>Entries of the target directory that a step may touch, with all that is below them.\<close>

definition below :: "fpath \<Rightarrow> (string \<Rightarrow> bool) \<Rightarrow> fpath \<Rightarrow> bool" where
  "below T hid p \<longleftrightarrow> (\<exists>n q. p = T @ n # q \<and> hid n)"

lemma below_simps [simp]:
  "below T hid (T @ n # q) \<longleftrightarrow> hid n" "\<not> below T hid T"
  by (auto simp: below_def)

lemma below_prefix: "T = q @ r \<Longrightarrow> \<not> below T hid q"
  by (auto simp: below_def)

lemma below_mono: "below T hid p \<Longrightarrow> (\<And>n. hid n \<Longrightarrow> hid' n) \<Longrightarrow> below T hid' p"
  by (auto simp: below_def)

lemma is_under_below: "is_under (T @ [n]) p \<Longrightarrow> hid n \<Longrightarrow> below T hid p"
  by (auto simp: is_under_iff below_def)

text \<open>
  A step that stays away from \<^verbatim>\<open>..data\<close> and from the directory it points to keeps the
  invariant and what a reader sees.
\<close>

lemma agree_below:
  assumes inv: "writer_inv ns T" and ag: "agree (below T hid) ns s" and data: "\<not> hid dataDirName"
    and old: "\<And>ts. look ns (T @ [dataDirName]) = Some (Link ts) \<Longrightarrow> \<not> hid ts"
  shows "writer_inv s T" and "data_view s T = data_view ns T"
proof -
  have l: "look s (T @ n # q) = look ns (T @ n # q)" if "\<not> hid n" for n q
    using ag that by (simp add: agree_def)
  have "plain ns T" using inv by (simp add: writer_inv_def)
  then have "plain s T" using ag below_prefix by (rule plain_agree)
  moreover have "data_dir s T ts \<longleftrightarrow> data_dir ns T ts" if "look ns (T @ [dataDirName]) = Some (Link ts)" for ts
    using l [OF old [OF that]] by (simp add: data_dir_def)
  ultimately show "writer_inv s T"
    using inv l [OF data, of "[]"] by (auto simp: writer_inv_def split: option.splits node.splits)
  show "data_view s T = data_view ns T"
    using l [OF data, of "[]"] l [OF old] by (auto simp: data_view_def fun_eq_iff split: option.splits node.splits)
qed

section \<open>Looking at the old version\<close>

lemma shouldWriteFile_reads: "reads f (snd (shouldWriteFile p d f))"
proof -
  obtain r f1 where l: "Lstat p f = (r, f1)" by fastforce
  obtain r2 f2 where rf: "ReadFile p f1 = (r2, f2)" by fastforce
  have "reads f f1" using read_calls(2) [of f p] l by simp
  moreover have "reads f1 f2" using read_calls(4) [of f1 p] rf by simp
  ultimately show ?thesis
    using l rf reads_trans by (auto simp: shouldWriteFile_def split: sum.split)
qed

lemma shouldWritePayload_reads: "reads f (snd (shouldWritePayload pl d f))"
proof (induction pl d f rule: shouldWritePayload.induct)
  case (2 p fp rest d f)
  obtain r f1 where s: "shouldWriteFile (Join [d, p]) (content fp) f = (r, f1)" by fastforce
  then have "reads f f1" using shouldWriteFile_reads by (metis snd_conv)
  with 2 s show ?case by (auto split: sum.split intro: reads_trans)
qed simp

lemma pathsToRemove_reads: "reads f (snd (pathsToRemove pl d f))"
proof -
  obtain r f1 where w: "Walk d f = (r, f1)" by fastforce
  then have "reads f f1" using read_calls(5) [of f d] by simp
  with w show ?thesis by (simp add: pathsToRemove_def split: sum.split)
qed

lemma shouldWriteFile_entry:
  assumes pl: "plain (fs_nodes f) D" and n: "name_ok n"
    and nolink: "\<And>t. look (fs_nodes f) (D @ [n]) \<noteq> Some (Link t)"
    and w: "shouldWriteFile (abs_path (D @ [n])) d f = (r, f1)"
  shows "r = Inr False \<Longrightarrow> \<exists>m. look (fs_nodes f) (D @ [n]) = Some (File d m)"
    and "fs_faults f = [] \<Longrightarrow> look (fs_nodes f) (D @ [n]) = Some (File d m) \<Longrightarrow> r = Inr False \<and> f1 = f"
proof -
  obtain r0 f0 where l: "Lstat (abs_path (D @ [n])) f = (r0, f0)" by fastforce
  then have f0: "reads f f0" using read_calls(2) [of f "abs_path (D @ [n])"] by simp
  note res = resolve_entry [OF pl n]
  have res0: "resolve True f0 (abs_path (D @ [n])) = Inr (D @ [n])"
    using f0 res(2) nolink by (auto simp: reads_def)
  obtain r1 f2 where rf: "ReadFile (abs_path (D @ [n])) f0 = (r1, f2)" by fastforce
  show "r = Inr False \<Longrightarrow> \<exists>m. look (fs_nodes f) (D @ [n]) = Some (File d m)"
    using w l rf ReadFile_at(1) [OF res0 rf] reads_nodes [OF f0]
    by (auto simp: shouldWriteFile_def split: if_splits sum.splits)
  assume f: "fs_faults f = []" and d: "look (fs_nodes f) (D @ [n]) = Some (File d m)"
  from Lstat_at(2) [OF res(1) l f d] have "r0 = Inr (File d m)" "f0 = f" by auto
  with w l rf ReadFile_at(2) [OF res0 rf] f d show "r = Inr False \<and> f1 = f"
    by (auto simp: shouldWriteFile_def)
qed

lemma shouldWritePayload_flat:
  assumes "plain (fs_nodes f) D" and "flat pl"
    and "\<And>n t. n \<in> fst ` set pl \<Longrightarrow> look (fs_nodes f) (D @ [n]) \<noteq> Some (Link t)"
    and "shouldWritePayload pl (abs_path D) f = (r, f1)"
  shows "r = Inr False \<Longrightarrow> \<forall>(n, fp) \<in> set pl. \<exists>m. look (fs_nodes f) (D @ [n]) = Some (File (content fp) m)"
    and "fs_faults f = [] \<Longrightarrow> \<forall>(n, fp) \<in> set pl. \<exists>m. look (fs_nodes f) (D @ [n]) = Some (File (content fp) m)
      \<Longrightarrow> r = Inr False \<and> f1 = f"
proof -
  have "(r = Inr False \<longrightarrow> (\<forall>(n, fp) \<in> set pl. \<exists>m. look (fs_nodes f) (D @ [n]) = Some (File (content fp) m))) \<and>
    (fs_faults f = [] \<longrightarrow> (\<forall>(n, fp) \<in> set pl. \<exists>m. look (fs_nodes f) (D @ [n]) = Some (File (content fp) m))
      \<longrightarrow> r = Inr False \<and> f1 = f)"
    using assms
  proof (induction pl arbitrary: f)
    case (Cons x pl)
    obtain n fp where x: "x = (n, fp)" by fastforce
    from Cons.prems(2) x have n: "name_ok n" by (simp add: visible_nameD)
    have J: "Join [abs_path D, n] = abs_path (D @ [n])"
      by (rule Join_abs_path [OF plain_names [OF Cons.prems(1)] n])
    obtain r0 f0 where s: "shouldWriteFile (abs_path (D @ [n])) (content fp) f = (r0, f0)" by fastforce
    have f0: "reads f f0" using shouldWriteFile_reads [of f "abs_path (D @ [n])"] s by (metis snd_conv)
    from Cons.prems(3) x have nl: "\<And>t. look (fs_nodes f) (D @ [n]) \<noteq> Some (Link t)" by simp
    note e = shouldWriteFile_entry [OF Cons.prems(1) n nl s]
    have IH: "shouldWritePayload pl (abs_path D) f0 = (r, f1) \<Longrightarrow>
       (r = Inr False \<longrightarrow> (\<forall>(n, fp) \<in> set pl. \<exists>m. look (fs_nodes f0) (D @ [n]) = Some (File (content fp) m))) \<and>
       (fs_faults f0 = [] \<longrightarrow> (\<forall>(n, fp) \<in> set pl. \<exists>m. look (fs_nodes f0) (D @ [n]) = Some (File (content fp) m))
          \<longrightarrow> r = Inr False \<and> f1 = f0)"
      by (rule Cons.IH) (use Cons.prems x in \<open>auto simp: reads_nodes [OF f0]\<close>)
    show ?case
      using Cons.prems(4) x s e J IH reads_nodes [OF f0] by (auto split: sum.splits if_splits)
  qed simp
  then show "r = Inr False \<Longrightarrow> \<forall>(n, fp) \<in> set pl. \<exists>m. look (fs_nodes f) (D @ [n]) = Some (File (content fp) m)"
    "fs_faults f = [] \<Longrightarrow> \<forall>(n, fp) \<in> set pl. \<exists>m. look (fs_nodes f) (D @ [n]) = Some (File (content fp) m)
      \<Longrightarrow> r = Inr False \<and> f1 = f" by auto
qed

lemma abs_path_snoc: "D \<noteq> [] \<Longrightarrow> abs_path (D @ [n]) = abs_path D @ slash # n"
  by (simp add: abs_path_def join_path_snoc)

lemma relative_entry: "D \<noteq> [] \<Longrightarrow> TrimPrefix (TrimPrefix (abs_path (D @ [n])) (abs_path D)) [slash] = n"
  using TrimPrefix_append [of "abs_path D" "slash # n"] TrimPrefix_append [of "[slash]" n]
  by (simp add: abs_path_snoc)

lemma node_look: "(r, y) \<in> set ns \<Longrightarrow> r \<noteq> [] \<Longrightarrow> look ns r \<noteq> None"
  by (auto simp: look_def dest: weak_map_of_SomeI)

lemma look_node: "look ns r = Some y \<Longrightarrow> r \<noteq> [] \<Longrightarrow> (r, y) \<in> set ns"
  by (simp add: look_def map_of_SomeD)

lemma pathsToRemove_flat:
  assumes pl: "plain (fs_nodes f) T" and dd: "data_dir (fs_nodes f) T old" and fl: "flat pl"
    and w: "pathsToRemove pl (abs_path (T @ [old])) f = (r, f1)"
  shows "r = Inr ps \<Longrightarrow> set ps = {n. look (fs_nodes f) (T @ [old, n]) \<noteq> None \<and> n \<notin> fst ` set pl}"
    and "fs_faults f = [] \<Longrightarrow> f1 = f \<and> \<not> isl r"
proof -
  let ?D = "T @ [old]"
  from dd obtain m where m: "look (fs_nodes f) ?D = Some (Dir m)" and ts: "name_ok old"
    by (auto simp: data_dir_def ts_nameD)
  with pl have pD: "plain (fs_nodes f) ?D" by simp
  obtain r0 f0 where wk: "Walk (abs_path ?D) f = (r0, f0)" by fastforce
  note W = Walk_at [OF resolve_entry(1) [OF pl ts] m wk]
  have below_D: "\<exists>n. r = T @ [old, n] \<and> visible_name n"
    if "(r, y) \<in> set (fs_nodes f)" "is_under ?D r" "r \<noteq> ?D" for r y
  proof -
    from that obtain q where q: "r = T @ old # q" "q \<noteq> []" by (auto simp: is_under_iff)
    with that(1) node_look [of r y] have "look (fs_nodes f) (T @ old # q) \<noteq> None" by auto
    with dd q show ?thesis unfolding data_dir_def by blast
  qed
  let ?es = "filter (\<lambda>(r, _). is_under ?D r \<and> r \<noteq> ?D) (fs_nodes f)"
  have rel: "TrimPrefix (TrimPrefix (Join [abs_path ?D, join_path (drop (length ?D) (T @ [old, n]))]) (abs_path ?D)) [slash] = n"
    if "name_ok n" for n
    using relative_entry [of ?D n] Join_abs_path [OF plain_names [OF pD] that] by simp
  have root: "TrimPrefix (TrimPrefix (abs_path ?D) (abs_path ?D)) [slash] = []"
    by (simp add: TrimPrefix_def HasPrefix_def)
  have paths: "set (relative_paths (abs_path ?D) (abs_path ?D # map (\<lambda>(r, _).
      Join [abs_path ?D, join_path (drop (length ?D) r)]) ?es)) = {n. look (fs_nodes f) (T @ [old, n]) \<noteq> None}"
    (is "?L = ?R")
  proof
    show "?L \<subseteq> ?R"
    proof
      fix x assume "x \<in> ?L"
      then obtain r y where r: "(r, y) \<in> set (fs_nodes f)" "is_under ?D r" "r \<noteq> ?D"
        and x: "x = TrimPrefix (TrimPrefix (Join [abs_path ?D, join_path (drop (length ?D) r)]) (abs_path ?D)) [slash]"
        using root by (auto simp: relative_paths_def)
      from below_D [OF r] obtain n where n: "r = T @ [old, n]" "visible_name n" by auto
      with x rel [of n] have "x = n" by (simp add: visible_nameD)
      with n r(1) node_look [of r y] show "x \<in> ?R" by auto
    qed
    show "?R \<subseteq> ?L"
    proof
      fix n assume "n \<in> ?R"
      then obtain y where y: "look (fs_nodes f) (T @ [old, n]) = Some y" by auto
      then have e: "(T @ [old, n], y) \<in> set ?es" using look_node [OF y] by (auto simp: is_under_iff)
      then have "name_ok n" using below_D [of "T @ [old, n]" y] by (auto simp: visible_nameD)
      with e rel [of n] show "n \<in> ?L"
        by (force simp: relative_paths_def name_ok_def image_iff)
    qed
  qed
  show "r = Inr ps \<Longrightarrow> set ps = {n. look (fs_nodes f) (T @ [old, n]) \<noteq> None \<and> n \<notin> fst ` set pl}"
  proof -
    assume "r = Inr ps"
    with w wk W(2) obtain visited where v: "r0 = Inr visited"
      "ps = remdups (filter (\<lambda>p. p \<notin> set (map fst pl)) (relative_paths (abs_path ?D) visited))"
      by (auto simp: pathsToRemove_def IsNotExist_def Let_def newPaths_flat [OF fl]
          split: sum.splits if_splits)
    from W(1) [OF v(1)] paths
    have "set (relative_paths (abs_path ?D) visited) = {n. look (fs_nodes f) (T @ [old, n]) \<noteq> None}"
      by simp
    with v(2) show ?thesis by auto
  qed
  show "fs_faults f = [] \<Longrightarrow> f1 = f \<and> \<not> isl r"
    using w wk W(3) by (auto simp: pathsToRemove_def Let_def split: sum.splits if_splits)
qed

section \<open>Making the new version\<close>

lemma joinDir_abs:
  assumes "names_ok T" shows "joinDir (abs_path T) stamp @ r = abs_path (T @ [stamp @ r])"
proof (cases T rule: rev_cases)
  case Nil
  then show ?thesis by (simp add: joinDir_def abs_path_def)
next
  case (snoc D n)
  with assms have n: "n \<noteq> []" "last n \<noteq> slash" by (auto simp: name_ok_def dest: last_in_set)
  have "\<exists>p. abs_path T = p @ n"
    using snoc by (cases "D = []") (auto simp: abs_path_def join_path_snoc)
  with n have "last (abs_path T) \<noteq> slash" by auto
  with snoc abs_path_snoc [of T "stamp @ r"] show ?thesis by (simp add: joinDir_def)
qed

definition fresh_ts :: "nodes \<Rightarrow> fpath \<Rightarrow> string \<Rightarrow> bool" where
  "fresh_ts ns T n \<longleftrightarrow> ts_name n \<and> look ns (T @ [n]) = None"

definition ts_made :: "nodes \<Rightarrow> fpath \<Rightarrow> string \<Rightarrow> nodes \<Rightarrow> bool" where
  "ts_made ns T d ns1 \<longleftrightarrow> (\<exists>ts. d = abs_path (T @ [ts]) \<and> fresh_ts ns T ts \<and>
     (\<exists>m. look ns1 (T @ [ts]) = Some (Dir m)) \<and> (\<forall>q. q \<noteq> [] \<longrightarrow> look ns1 (T @ ts # q) = None))"

definition temp_ok :: "fs \<Rightarrow> fpath \<Rightarrow> string set \<Rightarrow> (errno + string) \<Rightarrow> fs \<Rightarrow> bool" where
  "temp_ok f T ns r f1 \<longleftrightarrow>
     touches (below T (fresh_ts (fs_nodes f) T)) f f1 \<and>
     (\<forall>d. r = Inr d \<longrightarrow> ts_made (fs_nodes f) T d (fs_nodes f1)) \<and>
     (fs_faults f = [] \<longrightarrow> fs_faults f1 = [] \<and>
        ((\<exists>n \<in> ns. look (fs_nodes f) (T @ [n]) = None) \<longrightarrow> \<not> isl r))"

lemma temp_ok_made:
  assumes "ts_name ts" and "made (T @ [ts]) (Dir md) f (Inr u :: errno + unit) f1" and "ts \<in> ns"
    and "fs_faults f = [] \<Longrightarrow> fs_faults f1 = []"
  shows "temp_ok f T ns (Inr (abs_path (T @ [ts]))) f1"
proof -
  from assms(1,2) have fresh: "fresh_ts (fs_nodes f) T ts" by (simp add: made_def fresh_ts_def)
  have "touches (is_under (T @ [ts])) f f1" by (rule made_touches [OF _ assms(2)]) simp
  then have "touches (below T (fresh_ts (fs_nodes f) T)) f f1"
    by (rule touches_mono) (use fresh in \<open>auto dest: is_under_below [where hid = "fresh_ts (fs_nodes f) T"]\<close>)
  moreover have "look (fs_nodes f1) (T @ [ts]) = Some (Dir md)"
    "\<And>q. q \<noteq> [] \<Longrightarrow> look (fs_nodes f1) (T @ ts # q) = None"
    using assms(2) by (auto simp: made_def is_under_iff)
  ultimately show ?thesis using fresh assms(4) by (auto simp: temp_ok_def ts_made_def)
qed

lemma mkdir_temp_ok:
  assumes "plain (fs_nodes f) T" and "\<And>r. r \<in> set rands \<Longrightarrow> ts_name (stamp @ r)"
    and "mkdir_temp (joinDir (abs_path T) stamp) rands f = (r, f1)"
  shows "temp_ok f T ((@) stamp ` set rands) r f1"
  using assms
proof (induction rands arbitrary: f)
  case (Cons x rands)
  let ?ts = "stamp @ x"
  have J: "joinDir (abs_path T) stamp @ x = abs_path (T @ [?ts])"
    by (rule joinDir_abs [OF plain_names [OF Cons.prems(1)]])
  have ts: "ts_name ?ts" using Cons.prems(2) by simp
  obtain r0 f0 where m: "Mkdir (abs_path (T @ [?ts])) 448 f = (r0, f0)" by fastforce
  note M = Mkdir_entry [OF Cons.prems(1) ts_nameD(1) [OF ts] m]
  from M(1) obtain md where made: "made (T @ [?ts]) (Dir md) f r0 f0" ..
  show ?case
  proof (cases r0)
    case (Inr u)
    have "temp_ok f T ((@) stamp ` set (x # rands)) (Inr (abs_path (T @ [?ts]))) f0"
    proof (rule temp_ok_made [OF ts])
      show "made (T @ [?ts]) (Dir md) f (Inr ()) f0" using made Inr by (simp add: made_def)
      show "fs_faults f = [] \<Longrightarrow> fs_faults f0 = []"
        using M(3,4) Inr by (cases "look (fs_nodes f) (T @ [?ts])") auto
    qed simp
    with Cons.prems(3) J m Inr show ?thesis by simp
  next
    case (Inl e)
    with made have f0: "reads f f0" by (simp add: made_def)
    show ?thesis
    proof (cases "e = EEXIST")
      case True
      have "mkdir_temp (joinDir (abs_path T) stamp) rands f0 = (r, f1)"
        using Cons.prems(3) J m Inl True by simp
      moreover have "plain (fs_nodes f0) T" using Cons.prems(1) reads_nodes [OF f0] by simp
      ultimately have "temp_ok f0 T ((@) stamp ` set rands) r f1" using Cons.IH Cons.prems(2) by simp
      moreover have "look (fs_nodes f) (T @ [?ts]) \<noteq> None" using M(2) Inl True by simp
      ultimately show ?thesis
        using touches_trans [OF reads_touches [OF f0]] M(4) reads_nodes [OF f0] by (auto simp: temp_ok_def)
    next
      case False
      have "fs_faults f \<noteq> []"
        using M(3,4) Inl False by (cases "look (fs_nodes f) (T @ [?ts])") auto
      with Cons.prems(3) J m Inl False f0 show ?thesis by (auto simp: temp_ok_def intro: reads_touches)
    qed
  qed
qed (auto simp: temp_ok_def)

lemma newTimestampDir_ok:
  assumes pl: "plain (fs_nodes f) T" and ts: "\<And>r. r \<in> set rands \<Longrightarrow> ts_name (stamp @ r)"
    and w: "newTimestampDir (abs_path T) stamp rands f = (r, f1)"
  shows "temp_ok f T ((@) stamp ` set rands) r f1"
proof -
  obtain r0 f0 where m: "mkdir_temp (joinDir (abs_path T) stamp) rands f = (r0, f0)" by fastforce
  have ok: "temp_ok f T ((@) stamp ` set rands) r0 f0" by (rule mkdir_temp_ok [OF pl ts m])
  show ?thesis
  proof (cases r0)
    case (Inl e)
    with w m ok show ?thesis by (auto simp: newTimestampDir_def MkdirTemp_def temp_ok_def)
  next
    case (Inr d)
    with ok obtain t md where t: "d = abs_path (T @ [t])" "fresh_ts (fs_nodes f) T t"
      "look (fs_nodes f0) (T @ [t]) = Some (Dir md)" "\<And>q. q \<noteq> [] \<Longrightarrow> look (fs_nodes f0) (T @ t # q) = None"
      by (auto simp: temp_ok_def ts_made_def)
    from ok have t0: "touches (below T (fresh_ts (fs_nodes f) T)) f f0" by (simp add: temp_ok_def)
    then have "plain (fs_nodes f0) T"
      using pl below_prefix by (intro plain_agree [OF pl]) (auto simp: touches_def)
    with t have "resolve True f0 d = Inr (T @ [t])"
      by (simp add: resolve_entry(2) ts_nameD fresh_ts_def)
    moreover obtain r2 f2 where c: "Chmod d 493 f0 = (r2, f2)" by fastforce
    ultimately have ch: "touches (\<lambda>x. x = T @ [t]) f0 f2" "\<exists>m'. look (fs_nodes f2) (T @ [t]) = Some (Dir m')"
      "fs_faults f0 = [] \<Longrightarrow> r2 = Inr () \<and> fs_faults f2 = []"
      using Chmod_at [of f0 d "T @ [t]" 493 r2 f2] t(3) by auto
    have "touches (below T (fresh_ts (fs_nodes f) T)) f f2"
      using t0 by (rule touches_trans) (rule touches_mono [OF ch(1)], simp add: t(2))
    moreover have "look (fs_nodes f2) (T @ t # q) = None" if "q \<noteq> []" for q
      using touches_look [OF ch(1), of "T @ t # q"] t(4) [OF that] that by simp
    ultimately show ?thesis
      using w m Inr c ch ok t by (cases r2) (auto simp: newTimestampDir_def MkdirTemp_def temp_ok_def ts_made_def)
  qed
qed

text \<open>What a directory holds for a payload.\<close>

definition holds :: "nodes \<Rightarrow> fpath \<Rightarrow> payload \<Rightarrow> bool" where
  "holds ns D pl \<longleftrightarrow> (\<forall>(n, fp) \<in> set pl. \<exists>m. look ns (D @ [n]) = Some (File (content fp) m))"

definition holds_modes :: "nodes \<Rightarrow> fpath \<Rightarrow> payload \<Rightarrow> bool" where
  "holds_modes ns D pl \<longleftrightarrow> (\<forall>(n, fp) \<in> set pl. look ns (D @ [n]) = Some (File (content fp) (fp_Mode fp)))"

abbreviation names :: "payload \<Rightarrow> string \<Rightarrow> bool" where
  "names pl n \<equiv> n \<in> fst ` set pl"

definition written_ok :: "fs \<Rightarrow> fpath \<Rightarrow> payload \<Rightarrow> (errno + unit) \<Rightarrow> fs \<Rightarrow> bool" where
  "written_ok f D pl r f1 \<longleftrightarrow>
     touches (below D (names pl)) f f1 \<and>
     (\<forall>n q. q \<noteq> [] \<longrightarrow> look (fs_nodes f) (D @ n # q) = None \<longrightarrow> look (fs_nodes f1) (D @ n # q) = None) \<and>
     (r = Inr () \<longrightarrow> holds (fs_nodes f1) D pl) \<and>
     (fs_faults f = [] \<longrightarrow> r = Inr () \<and> fs_faults f1 = [] \<and> holds_modes (fs_nodes f1) D pl)"

lemma write_one:
  assumes pl: "plain (fs_nodes f) D" and n: "name_ok n"
    and free: "look (fs_nodes f) (D @ [n]) = None \<or> (\<exists>d m. look (fs_nodes f) (D @ [n]) = Some (File d m))"
    and w: "WriteFile (abs_path (D @ [n])) d mode f = (Inr u, f1)"
    and c: "Chmod (abs_path (D @ [n])) mode f1 = (r, f2)"
  shows "touches (is_under (D @ [n])) f f2" and "\<exists>m. look (fs_nodes f2) (D @ [n]) = Some (File d m)"
    and "fs_faults f = [] \<Longrightarrow> fs_faults f2 = [] \<and> look (fs_nodes f2) (D @ [n]) = Some (File d mode)"
    and "x \<noteq> D @ [n] \<Longrightarrow> look (fs_nodes f) x = None \<Longrightarrow> look (fs_nodes f2) x = None"
proof -
  have r: "resolve True f (abs_path (D @ [n])) = Inr (D @ [n])"
    using free by (intro resolve_entry(2) [OF pl n]) auto
  note W = WriteFile_at [OF r _ free w]
  from W(2) obtain m where m: "look (fs_nodes f1) (D @ [n]) = Some (File d m)" by auto
  have "\<And>q s. D = q @ s \<Longrightarrow> \<not> is_under (D @ [n]) q" by (auto simp: is_under_iff)
  then have "plain (fs_nodes f1) D"
    using W(1) by (intro plain_agree [OF pl]) (auto simp: touches_def)
  then have "resolve True f1 (abs_path (D @ [n])) = Inr (D @ [n])"
    using m by (intro resolve_entry(2) [OF _ n]) auto
  note C = Chmod_at [OF this _ c]
  have "touches (is_under (D @ [n])) f1 f2" by (rule touches_mono [OF C(1)]) simp_all
  with W(1) show "touches (is_under (D @ [n])) f f2" using touches_trans by blast
  show "\<exists>m. look (fs_nodes f2) (D @ [n]) = Some (File d m)" using C(2) m by simp
  show "fs_faults f = [] \<Longrightarrow> fs_faults f2 = [] \<and> look (fs_nodes f2) (D @ [n]) = Some (File d mode)"
    using W(3) C(4) m by simp
  show "x \<noteq> D @ [n] \<Longrightarrow> look (fs_nodes f) x = None \<Longrightarrow> look (fs_nodes f2) x = None"
    using W(4) touches_look [OF C(1), of x] by simp
qed

lemma writePayloadToDir_ok:
  assumes "plain (fs_nodes f) D" and "flat pl"
    and "\<And>n. names pl n \<Longrightarrow> look (fs_nodes f) (D @ [n]) = None \<or>
      (\<exists>d m. look (fs_nodes f) (D @ [n]) = Some (File d m))"
    and "writePayloadToDir pl (abs_path D) f = (r, f1)"
  shows "written_ok f D pl r f1"
  using assms
proof (induction pl arbitrary: f)
  case (Cons x pl)
  obtain n fp where x: "x = (n, fp)" by fastforce
  from Cons.prems(2) x have n: "name_ok n" "\<not> names pl n" "flat pl" by (simp_all add: visible_nameD)
  have J: "Join [abs_path D, n] = abs_path (D @ [n])"
    by (rule Join_abs_path [OF plain_names [OF Cons.prems(1)] n(1)])
  obtain rm fm where m: "MkdirAll (dir_slash D) 511 f = (rm, fm)" by fastforce
  note M = MkdirAll_plain [OF Cons.prems(1) m]
  have fm: "fs_nodes fm = fs_nodes f" by (rule reads_nodes [OF M(1)])
  have pm: "plain (fs_nodes fm) D" using Cons.prems(1) fm by simp
  obtain rw fw where w: "WriteFile (abs_path (D @ [n])) (content fp) (fp_Mode fp) fm = (rw, fw)" by fastforce
  obtain rc fc where c: "Chmod (abs_path (D @ [n])) (fp_Mode fp) fw = (rc, fc)" by fastforce
  have free: "look (fs_nodes fm) (D @ [n]) = None \<or> (\<exists>d m. look (fs_nodes fm) (D @ [n]) = Some (File d m))"
    using Cons.prems(3) [of n] x fm by simp
  have r: "resolve True fm (abs_path (D @ [n])) = Inr (D @ [n])"
    using free by (intro resolve_entry(2) [OF pm n(1)]) auto
  have tw: "touches (below D (names (x # pl))) f fw"
    by (rule reads_then [OF M(1)], rule touches_mono [OF WriteFile_at(1) [OF r _ free w]])
      (auto simp: below_def is_under_iff x)
  show ?case
  proof (cases "\<exists>u v. rm = Inr u \<and> rw = Inr v")
    case False
    with Cons.prems(4) x J m w M WriteFile_at(3,4) [OF r _ free w] tw fm
    show ?thesis
      by (cases rm; cases rw)
        (auto simp: written_ok_def fst_SplitFile_abs [OF n(1)] Let_def intro: reads_touches)
  next
    case True
    then obtain v where rw: "rm = Inr ()" "rw = Inr v" by auto
    note W = write_one [OF pm n(1) free w [unfolded rw(2)] c]
    have run: "writePayloadToDir pl (abs_path D) fc = (r, f1)"
      using Cons.prems(4) x J m w c rw by (simp add: fst_SplitFile_abs [OF n(1)])
    have tc: "touches (below D (\<lambda>k. k = n)) f fc"
      by (rule reads_then [OF M(1)], rule touches_mono [OF W(1)]) (auto simp: below_def is_under_iff)
    have keep: "look (fs_nodes fc) (D @ [k]) = look (fs_nodes f) (D @ [k])" if "k \<noteq> n" for k
      using touches_look [OF tc, of "D @ [k]"] that by simp
    have pc: "plain (fs_nodes fc) D"
      using tc below_prefix by (intro plain_agree [OF Cons.prems(1)]) (auto simp: touches_def)
    have rest: "look (fs_nodes fc) (D @ [k]) = None \<or> (\<exists>d m. look (fs_nodes fc) (D @ [k]) = Some (File d m))"
      if "names pl k" for k
    proof -
      from that n(2) have "k \<noteq> n" by auto
      with keep Cons.prems(3) [of k] that show ?thesis by simp
    qed
    have ok: "written_ok fc D pl r f1" by (rule Cons.IH [OF pc n(3) rest run])
    have "look (fs_nodes f1) (D @ [n]) = look (fs_nodes fc) (D @ [n])"
      using ok n(2) touches_look [of "below D (names pl)" fc f1 "D @ [n]"] by (simp add: written_ok_def)
    moreover have "touches (below D (names (x # pl))) f f1"
    proof (rule touches_trans)
      show "touches (below D (names (x # pl))) f fc"
        by (rule touches_mono [OF tc]) (auto simp: below_def x)
      have "touches (below D (names pl)) fc f1" using ok by (simp add: written_ok_def)
      then show "touches (below D (names (x # pl))) fc f1" by (rule touches_mono) (auto simp: below_def)
    qed
    ultimately show ?thesis
      using ok W(2-4) M(2) x fm by (auto simp: written_ok_def holds_def holds_modes_def)
  qed
qed (simp add: written_ok_def holds_def holds_modes_def)

section \<open>The visible links\<close>

definition visible_link :: "string \<Rightarrow> node" where
  "visible_link n = Link (dataDirName @ slash # n)"

definition linked_ok :: "fs \<Rightarrow> fpath \<Rightarrow> payload \<Rightarrow> (errno + unit) \<Rightarrow> fs \<Rightarrow> bool" where
  "linked_ok f T pl r f1 \<longleftrightarrow>
     touches (below T (names pl)) f f1 \<and>
     (fs_faults f = [] \<longrightarrow> r = Inr () \<and> fs_faults f1 = [] \<and>
        (\<forall>n. names pl n \<longrightarrow> look (fs_nodes f1) (T @ [n]) =
           (if look (fs_nodes f) (T @ [n]) = None then Some (visible_link n) else look (fs_nodes f) (T @ [n]))))"

lemma createUserVisibleFiles_one:
  assumes "names_ok T" and n: "name_ok n"
  shows "createUserVisibleFiles [(n, fp)] (abs_path T) f =
     (case Readlink (abs_path (T @ [n])) f of (r, f1) \<Rightarrow>
        if r = Inl ENOENT then Symlink (dataDirName @ slash # n) (abs_path (T @ [n])) f1 else (Inr (), f1))"
proof -
  have ln: "(case Index n slash of None \<Rightarrow> length n | Some i \<Rightarrow> i) = length n"
    using n by (simp add: Index_None [THEN iffD2] name_okD)
  have "(case r of Inl e \<Rightarrow> IsNotExist e | Inr t \<Rightarrow> False) \<longleftrightarrow> r = Inl ENOENT" for r :: "errno + string"
    by (cases r) (simp_all add: IsNotExist_def)
  then show ?thesis
    by (simp add: Let_def ln Join_abs_path [OF assms] Join_names [OF reserved_names(1) n]
        split: prod.split sum.split)
qed

lemma link_one:
  assumes pl: "plain (fs_nodes f) T" and n: "name_ok n"
    and w: "createUserVisibleFiles [(n, fp)] (abs_path T) f = (r, f1)"
  shows "linked_ok f T [(n, fp)] r f1"
proof -
  note eq = createUserVisibleFiles_one [OF plain_names [OF pl] n, of fp f]
  obtain r0 f0 where rl: "Readlink (abs_path (T @ [n])) f = (r0, f0)" by fastforce
  note R = Readlink_entry [OF pl n rl]
  show ?thesis
  proof (cases "r0 = Inl ENOENT")
    case False
    then have "r = Inr ()" "f1 = f0"
      using w rl eq by simp_all
    moreover have "fs_faults f = [] \<Longrightarrow> look (fs_nodes f) (T @ [n]) \<noteq> None" using R(4) False by auto
    ultimately show ?thesis
      using reads_touches [OF R(1)] R(4) by (auto simp: linked_ok_def)
  next
    case True
    obtain r2 f2 where sl: "Symlink (dataDirName @ slash # n) (abs_path (T @ [n])) f0 = (r2, f2)" by fastforce
    have "r = r2" "f1 = f2"
      using w rl sl eq True by simp_all
    have f0: "fs_nodes f0 = fs_nodes f" by (rule reads_nodes [OF R(1)])
    then have p0: "plain (fs_nodes f0) T" using pl by simp
    note S = Symlink_entry [OF p0 n sl]
    have "touches (is_under (T @ [n])) f f1"
      using reads_then [OF R(1) made_touches [OF _ S(1)]] \<open>f1 = f2\<close> by simp
    then have t: "touches (below T (names [(n, fp)])) f f1"
      by (rule touches_mono) (auto simp: below_def is_under_iff)
    moreover have "fs_faults f = [] \<Longrightarrow> f0 = f \<and> look (fs_nodes f) (T @ [n]) = None"
      using R(3,4) True by simp
    ultimately show ?thesis
      using S(2) \<open>r = r2\<close> \<open>f1 = f2\<close> by (auto simp: linked_ok_def visible_link_def)
  qed
qed

lemma createUserVisibleFiles_Cons:
  "createUserVisibleFiles (x # pl) T f =
     (case createUserVisibleFiles [x] T f of
        (Inl e, f1) \<Rightarrow> (Inl e, f1) | (Inr u, f1) \<Rightarrow> createUserVisibleFiles pl T f1)"
  by (cases x) (auto simp: Let_def split: prod.splits sum.splits)

lemma createUserVisibleFiles_ok:
  assumes "plain (fs_nodes f) T" and "flat pl" and "createUserVisibleFiles pl (abs_path T) f = (r, f1)"
  shows "linked_ok f T pl r f1"
  using assms
proof (induction pl arbitrary: f)
  case (Cons x pl)
  obtain n fp where x: "x = (n, fp)" by fastforce
  from Cons.prems(2) x have n: "name_ok n" "\<not> names pl n" "flat pl" by (simp_all add: visible_nameD)
  obtain r0 f0 where o: "createUserVisibleFiles [(n, fp)] (abs_path T) f = (r0, f0)" by fastforce
  have run: "(r, f1) = (case (r0, f0) of
      (Inl e, f1) \<Rightarrow> (Inl e, f1) | (Inr u, f1) \<Rightarrow> createUserVisibleFiles pl (abs_path T) f1)"
    using createUserVisibleFiles_Cons [of x pl "abs_path T" f] Cons.prems(3) o x
    by (simp only:)
  have l: "linked_ok f T [(n, fp)] r0 f0" by (rule link_one [OF Cons.prems(1) n(1) o])
  then have t0: "touches (below T (names (x # pl))) f f0"
    unfolding linked_ok_def x by (auto elim!: touches_mono simp: below_def)
  show ?case
  proof (cases r0)
    case (Inl e)
    with run l t0 show ?thesis by (auto simp: linked_ok_def)
  next
    case (Inr u)
    with run have run1: "createUserVisibleFiles pl (abs_path T) f0 = (r, f1)" by simp
    have "plain (fs_nodes f0) T"
      using t0 below_prefix by (intro plain_agree [OF Cons.prems(1)]) (auto simp: touches_def)
    from Cons.IH [OF this n(3) run1] have ok: "linked_ok f0 T pl r f1" .
    then have t1: "touches (below T (names pl)) f0 f1" by (simp add: linked_ok_def)
    have "touches (below T (names (x # pl))) f f1"
      by (rule touches_trans [OF t0], rule touches_mono [OF t1]) (auto simp: below_def)
    moreover have "look (fs_nodes f1) (T @ [n]) = look (fs_nodes f0) (T @ [n])"
      using touches_look [OF t1, of "T @ [n]"] n(2) by simp
    moreover have "look (fs_nodes f0) (T @ [k]) = look (fs_nodes f) (T @ [k])" if "names pl k" for k
      using l touches_look [of "below T (names [(n, fp)])" f f0 "T @ [k]"] that n(2)
      by (auto simp: linked_ok_def)
    ultimately show ?thesis
      using ok l x by (auto simp: linked_ok_def)
  qed
qed (simp add: linked_ok_def)

end
