(* ===== verification/Atomic_Update.thy ===== *)
theory Atomic_Update
  imports Atomic_Writer
begin

text \<open>
  The correctness of \<^verbatim>\<open>AtomicWriter.Write\<close> on flat payloads: whatever calls fail, a reader who goes
  through \<^verbatim>\<open>..data\<close> sees the old version or the new one, at every moment; without faults the new
  version is visible afterwards under the names of the payload and nothing of the old one is left.
\<close>

section \<open>Cleaning up\<close>

definition removed_ok :: "fs \<Rightarrow> fpath \<Rightarrow> string list \<Rightarrow> errno option \<Rightarrow> fs \<Rightarrow> bool" where
  "removed_ok f T ps r f1 \<longleftrightarrow>
     touches (below T (\<lambda>n. n \<in> set ps)) f f1 \<and>
     (fs_faults f = [] \<longrightarrow> distinct ps \<longrightarrow> (\<forall>n \<in> set ps. \<exists>t. look (fs_nodes f) (T @ [n]) = Some (Link t)) \<longrightarrow>
        r = None \<and> fs_faults f1 = [] \<and> (\<forall>n \<in> set ps. look (fs_nodes f1) (T @ [n]) = None))"

lemma removeUserVisiblePaths_ok:
  assumes "plain (fs_nodes f) T" and "\<And>n. n \<in> set ps \<Longrightarrow> name_ok n"
    and "removeUserVisiblePaths ps (abs_path T) le f = (r, f1)"
  shows "touches (below T (\<lambda>n. n \<in> set ps)) f f1"
    and "le = None \<Longrightarrow> removed_ok f T ps r f1"
proof -
  have "touches (below T (\<lambda>n. n \<in> set ps)) f f1 \<and> (le = None \<longrightarrow> removed_ok f T ps r f1)"
    using assms
  proof (induction ps arbitrary: f le)
    case (Cons n ps)
    from Cons.prems(2) have n: "name_ok n" by simp
    have J: "Join [abs_path T, n] = abs_path (T @ [n])"
      by (rule Join_abs_path [OF plain_names [OF Cons.prems(1)] n])
    have c: "\<not> Contains n [slash]" using name_okD(2) [OF n] by (auto simp: Contains_iff)
    obtain r0 f0 where m: "Remove (abs_path (T @ [n])) f = (r0, f0)" by fastforce
    note R = Remove_entry [OF Cons.prems(1) n m]
    have t0: "touches (below T (\<lambda>k. k \<in> set (n # ps))) f f0"
      by (rule touches_mono [OF R(1)]) simp
    have p0: "plain (fs_nodes f0) T"
      using R(1) by (intro plain_agree [OF Cons.prems(1)]) (auto simp: touches_def)
    obtain le0 where run: "removeUserVisiblePaths ps (abs_path T) le0 f0 = (r, f1)"
      and le0: "\<not> isl r0 \<Longrightarrow> le0 = le"
      using Cons.prems(3) J c m by (cases r0) auto
    from Cons.IH [OF p0 _ run] Cons.prems(2)
    have IH: "touches (below T (\<lambda>k. k \<in> set ps)) f0 f1" "le0 = None \<Longrightarrow> removed_ok f0 T ps r f1" by simp_all
    have t: "touches (below T (\<lambda>k. k \<in> set (n # ps))) f f1"
      by (rule touches_trans [OF t0], rule touches_mono [OF IH(1)]) (auto simp: below_def)
    have "r = None \<and> fs_faults f1 = [] \<and> (\<forall>k \<in> set (n # ps). look (fs_nodes f1) (T @ [k]) = None)"
      if a: "le = None" "fs_faults f = []" "distinct (n # ps)"
        "\<forall>k \<in> set (n # ps). \<exists>t. look (fs_nodes f) (T @ [k]) = Some (Link t)"
    proof -
      from a(4) obtain u where "look (fs_nodes f) (T @ [n]) = Some (Link u)" by auto
      with R(2) a(2) have f0: "r0 = Inr ()" "f0 = commit (del_node (T @ [n]) (fs_nodes f)) f" by simp_all
      with a le0 have "le0 = None" "fs_faults f0 = []" by simp_all
      moreover have "\<forall>k \<in> set ps. \<exists>t. look (fs_nodes f0) (T @ [k]) = Some (Link t)"
        using a(3,4) f0 by auto
      moreover have "look (fs_nodes f1) (T @ [n]) = None"
        using touches_look [OF IH(1), of "T @ [n]"] a(3) f0 by simp
      ultimately show ?thesis using IH(2) a(3) by (simp add: removed_ok_def)
    qed
    with t show ?case by (simp add: removed_ok_def)
  qed (simp add: removed_ok_def)
  then show "touches (below T (\<lambda>n. n \<in> set ps)) f f1" "le = None \<Longrightarrow> removed_ok f T ps r f1"
    by simp_all
qed

definition cleaned_ok :: "fs \<Rightarrow> fpath \<Rightarrow> string list \<Rightarrow> string \<Rightarrow> (write_error + unit) \<Rightarrow> fs \<Rightarrow> bool" where
  "cleaned_ok f T ps old r f1 \<longleftrightarrow>
     touches (below T (\<lambda>n. n \<in> set ps \<or> (old \<noteq> [] \<and> n = old))) f f1 \<and>
     (fs_faults f = [] \<longrightarrow> distinct ps \<longrightarrow> (\<forall>n \<in> set ps. \<exists>t. look (fs_nodes f) (T @ [n]) = Some (Link t)) \<longrightarrow>
        r = Inr () \<and> fs_faults f1 = [] \<and> (\<forall>n \<in> set ps. look (fs_nodes f1) (T @ [n]) = None) \<and>
        (old \<noteq> [] \<longrightarrow> (\<forall>q. look (fs_nodes f1) (T @ old # q) = None)))"

lemma Write_cleanup_ok:
  assumes pl: "plain (fs_nodes f) T" and ps: "\<And>n. n \<in> set ps \<Longrightarrow> visible_name n"
    and old: "old = [] \<or> ts_name old" and w: "Write_cleanup (abs_path T) ps old f = (r, f1)"
  shows "cleaned_ok f T ps old r f1"
proof -
  obtain e f0 where rm: "removeUserVisiblePaths ps (abs_path T) None f = (e, f0)" by fastforce
  have ok: "removed_ok f T ps e f0"
    by (rule removeUserVisiblePaths_ok(2) [OF pl _ rm refl]) (use ps visible_nameD in blast)
  then have t0: "touches (below T (\<lambda>n. n \<in> set ps)) f f0" by (simp add: removed_ok_def)
  let ?hid = "\<lambda>n. n \<in> set ps \<or> (old \<noteq> [] \<and> n = old)"
  have t: "touches (below T ?hid) f f0" by (rule touches_mono [OF t0]) (auto simp: below_def)
  show ?thesis
  proof (cases "e = None \<and> old \<noteq> []")
    case False
    with w rm ok t show ?thesis
      by (cases e) (auto simp: Write_cleanup_def cleaned_ok_def removed_ok_def)
  next
    case True
    with old have old: "ts_name old" by simp
    have J: "Join [abs_path T, old] = abs_path (T @ [old])"
      by (rule Join_abs_path [OF plain_names [OF pl] ts_nameD(1) [OF old]])
    have p0: "plain (fs_nodes f0) T"
      using t0 below_prefix by (intro plain_agree [OF pl]) (auto simp: touches_def)
    obtain r2 f2 where ra: "RemoveAll (abs_path (T @ [old])) f0 = (r2, f2)" by fastforce
    note R = RemoveAll_at [OF resolve_entry(1) [OF p0 ts_nameD(1) [OF old]] _ ra]
    have f2: "f1 = f2" "r = Inr () \<longleftrightarrow> r2 = Inr ()"
      using w rm True J ra by (auto simp: Write_cleanup_def split: sum.splits)
    have "touches (below T ?hid) f f2"
      by (rule touches_trans [OF t], rule touches_mono [OF R(1)])
        (use True in \<open>auto simp: below_def is_under_iff\<close>)
    moreover have "look (fs_nodes f2) (T @ [n]) = look (fs_nodes f0) (T @ [n])" if "n \<in> set ps" for n
      using touches_look [OF R(1), of "T @ [n]"] ps [OF that] ts_nameD(4) [OF old]
      by (auto simp: is_under_iff)
    ultimately show ?thesis
      using ok True f2 R(2) by (auto simp: cleaned_ok_def removed_ok_def is_under_iff)
  qed
qed

section \<open>The moments of a run\<close>

text \<open>Every state of the nodes from the one after the first change on has a property.\<close>

definition along :: "(nodes \<Rightarrow> bool) \<Rightarrow> fs \<Rightarrow> fs \<Rightarrow> bool" where
  "along G f f' \<longleftrightarrow>
     (\<exists>hs. fs_history f' = hs @ fs_history f \<and> (\<forall>s \<in> set hs. G s)) \<and> G (fs_nodes f')"

lemma along_touches:
  "touches P f f1 \<Longrightarrow> (\<And>s. agree P (fs_nodes f) s \<Longrightarrow> G s) \<Longrightarrow> along G f f1"
  unfolding touches_def along_def by blast

lemma along_trans:
  assumes "along G f f1" and "along G f1 f2" shows "along G f f2"
proof -
  from assms obtain hs1 hs2 where "fs_history f2 = (hs2 @ hs1) @ fs_history f"
    "\<forall>s \<in> set hs1. G s" "\<forall>s \<in> set hs2. G s" "G (fs_nodes f2)"
    unfolding along_def by auto
  moreover from this have "\<forall>s \<in> set (hs2 @ hs1). G s" by auto
  ultimately show ?thesis unfolding along_def by blast
qed

lemma along_reads: "reads f f0 \<Longrightarrow> along G f0 f1 \<Longrightarrow> along G f f1"
  by (auto simp: reads_def along_def)

definition old_or_new :: "nodes \<Rightarrow> fpath \<Rightarrow> payload \<Rightarrow> nodes \<Rightarrow> bool" where
  "old_or_new N T pl s \<longleftrightarrow> writer_inv s T \<and> (data_view s T = data_view N T \<or> shows_exactly s T pl)"

section \<open>Before the switch\<close>

lemma flat_name: "flat pl \<Longrightarrow> names pl n \<Longrightarrow> visible_name n"
  by (auto simp: flat_def)

definition hidden :: "nodes \<Rightarrow> fpath \<Rightarrow> payload \<Rightarrow> string \<Rightarrow> bool" where
  "hidden N T pl n \<longleftrightarrow> fresh_ts N T n \<or> n = newDataDirName \<or> names pl n"

lemma hidden_simps [simp]:
  "hidden N T pl newDataDirName" "fresh_ts N T n \<Longrightarrow> hidden N T pl n" "names pl n \<Longrightarrow> hidden N T pl n"
  by (auto simp: hidden_def)

lemma inv_old:
  assumes "writer_inv N T" and "look N (T @ [dataDirName]) = Some (Link old)"
  shows "ts_name old" and "look N (T @ [old]) \<noteq> None" and "data_dir N T old"
  using assms by (auto simp: writer_inv_def data_dir_def)

lemma before_switch:
  assumes inv: "writer_inv N T" and fl: "flat pl" and ag: "agree (below T (hidden N T pl)) N s"
  shows "writer_inv s T" and "old_or_new N T pl s"
proof -
  note vis = flat_name [OF fl]
  have "\<not> names pl dataDirName" using vis visible_nameD(2) by blast
  then have "\<not> hidden N T pl dataDirName"
    by (simp add: hidden_def fresh_ts_def ts_name_def)
  moreover have "\<not> hidden N T pl old" if "look N (T @ [dataDirName]) = Some (Link old)" for old
  proof -
    note o = inv_old [OF inv that]
    have "\<not> names pl old" using vis ts_nameD(4) [OF o(1)] by blast
    with o(2) ts_nameD(3) [OF o(1)] show ?thesis by (simp add: hidden_def fresh_ts_def)
  qed
  ultimately show "writer_inv s T" "old_or_new N T pl s"
    using agree_below [OF inv ag] by (auto simp: old_or_new_def)
qed

text \<open>A directory that holds exactly a payload.\<close>

definition ready :: "nodes \<Rightarrow> fpath \<Rightarrow> payload \<Rightarrow> string \<Rightarrow> bool" where
  "ready ns T pl ts \<longleftrightarrow> ts_name ts \<and> (\<exists>m. look ns (T @ [ts]) = Some (Dir m)) \<and> holds ns (T @ [ts]) pl \<and>
     (\<forall>q. q \<noteq> [] \<longrightarrow> look ns (T @ ts # q) \<noteq> None \<longrightarrow> (\<exists>n. q = [n] \<and> names pl n))"

lemma ready_switched:
  assumes r: "ready ns T pl ts" and fl: "flat pl" and pl: "plain ns T"
    and d: "look ns (T @ [dataDirName]) = Some (Link ts)"
  shows "writer_inv ns T" and "shows_exactly ns T pl"
proof -
  have files: "\<exists>d m. look ns (T @ [ts, n]) = Some (File d m)" if "names pl n" for n
    using r that by (fastforce simp: ready_def holds_def)
  have "\<exists>n d m. q = [n] \<and> visible_name n \<and> look ns (T @ [ts, n]) = Some (File d m)"
    if "q \<noteq> []" "look ns (T @ ts # q) \<noteq> None" for q
  proof -
    from r that obtain n where "q = [n]" "names pl n" unfolding ready_def by blast
    with files [of n] flat_name [OF fl] show ?thesis by blast
  qed
  with r have "data_dir ns T ts" by (simp add: data_dir_def ready_def)
  with pl d show "writer_inv ns T" by (simp add: writer_inv_def)
  have v: "data_view ns T n = look ns (T @ [ts, n])" for n using d by (simp add: data_view_def)
  show "shows_exactly ns T pl"
    unfolding shows_exactly_def
  proof
    fix n
    show "case map_of pl n of None \<Rightarrow> data_view ns T n = None
          | Some fp \<Rightarrow> \<exists>m. data_view ns T n = Some (File (content fp) m)"
    proof (cases "map_of pl n")
      case None
      then have "\<not> names pl n" by (simp add: map_of_eq_None_iff)
      with r have "look ns (T @ [ts, n]) = None" unfolding ready_def by blast
      with None v show ?thesis by simp
    next
      case (Some fp)
      then have "(n, fp) \<in> set pl" by (rule map_of_SomeD)
      with r have "\<exists>m. look ns (T @ [ts, n]) = Some (File (content fp) m)"
        by (auto simp: ready_def holds_def)
      with Some v show ?thesis by simp
    qed
  qed
qed

lemma ready_touches:
  assumes "ready (fs_nodes f) T pl ts" and "touches (below T hid) f f1" and "\<not> hid ts"
  shows "ready (fs_nodes f1) T pl ts"
proof -
  have "look (fs_nodes f1) (T @ ts # q) = look (fs_nodes f) (T @ ts # q)" for q
    using assms(3) by (intro touches_look [OF assms(2)]) simp
  with assms(1) show ?thesis by (simp add: ready_def holds_def)
qed

section \<open>The switch\<close>

text \<open>
  The failing branches of \<open>Write_switch\<close> touch hidden entries only; the successful one renames
  \<^verbatim>\<open>..data_tmp\<close> to \<^verbatim>\<open>..data\<close> and goes on to \<open>Write_cleanup\<close>.
\<close>

definition switched :: "fs \<Rightarrow> fpath \<Rightarrow> string \<Rightarrow> fs \<Rightarrow> bool" where
  "switched f T ts f1 \<longleftrightarrow>
     (\<exists>f0. touches (below T (\<lambda>n. n = newDataDirName)) f f0 \<and>
        touches (below T (\<lambda>n. n = newDataDirName \<or> n = dataDirName)) f0 f1 \<and>
        fs_history f1 = fs_nodes f1 # fs_history f0 \<and>
        look (fs_nodes f1) (T @ [newDataDirName]) = None \<and>
        look (fs_nodes f1) (T @ [dataDirName]) = Some (Link ts))"

lemma touches_reserved:
  assumes "plain (fs_nodes f) T" and "name_ok n" and "hid n"
  shows "Remove (abs_path (T @ [n])) f = (r, f1) \<Longrightarrow> touches (below T hid) f f1"
    and "RemoveAll (abs_path (T @ [n])) f = (r, f1) \<Longrightarrow> touches (below T hid) f f1"
proof -
  show "touches (below T hid) f f1" if "Remove (abs_path (T @ [n])) f = (r, f1)"
    by (rule touches_mono [OF Remove_entry(1) [OF assms(1,2) that]]) (simp add: assms(3))
  show "touches (below T hid) f f1" if "RemoveAll (abs_path (T @ [n])) f = (r, f1)"
    by (rule touches_mono [OF RemoveAll_at(1) [OF resolve_entry(1) [OF assms(1,2)] _ that]])
      (auto simp: below_def is_under_iff assms(3))
qed

lemma plain_below: "plain (fs_nodes f) T \<Longrightarrow> touches (below T hid) f f1 \<Longrightarrow> plain (fs_nodes f1) T"
  using below_prefix by (auto intro: plain_agree simp: touches_def)

lemma Write_switch_cases:
  assumes pl: "plain (fs_nodes f) T" and ts: "ts_name ts" and os: "goos \<noteq> ''windows''"
    and w: "Write_switch goos (abs_path T) (abs_path (T @ [ts])) ps old f = (r, f')"
  shows "(isl r \<and> touches (below T (\<lambda>n. n = newDataDirName \<or> n = ts)) f f') \<or>
     (\<exists>f1. switched f T ts f1 \<and> Write_cleanup (abs_path T) ps old f1 = (r, f'))"
proof -
  let ?hid = "\<lambda>n. n = newDataDirName \<or> n = ts"
  have J: "Join [abs_path T, dataDirName] = abs_path (T @ [dataDirName])"
    "Join [abs_path T, newDataDirName] = abs_path (T @ [newDataDirName])"
    "Base (abs_path (T @ [ts])) = ts"
    using plain_names [OF pl] ts_nameD(1) [OF ts] by (simp_all add: Join_abs_path Base_abs)
  obtain r1 f1 where s: "Symlink ts (abs_path (T @ [newDataDirName])) f = (r1, f1)" by fastforce
  note S = Symlink_entry(1) [OF pl reserved_names(2) s]
  have "touches (is_under (T @ [newDataDirName])) f f1" by (rule made_touches [OF _ S]) simp
  then have t1: "touches (below T (\<lambda>n. n = newDataDirName)) f f1"
    by (rule touches_mono) (auto simp: below_def is_under_iff)
  have t1h: "touches (below T ?hid) f f1" by (rule touches_mono [OF t1]) (auto simp: below_def)
  have p1: "plain (fs_nodes f1) T" by (rule plain_below [OF pl t1])
  show ?thesis
  proof (cases r1)
    case (Inl e)
    obtain r2 f2 where ra: "RemoveAll (abs_path (T @ [ts])) f1 = (r2, f2)" by fastforce
    have "touches (below T ?hid) f1 f2"
      by (rule touches_reserved(2) [OF p1 ts_nameD(1) [OF ts] _ ra]) simp
    with t1h w J s Inl ra show ?thesis
      by (auto simp: Write_switch_def intro: touches_trans)
  next
    case (Inr u)
    obtain r2 f2 where rn: "Rename (abs_path (T @ [newDataDirName])) (abs_path (T @ [dataDirName])) f1 = (r2, f2)"
      by fastforce
    from S Inr have l1: "look (fs_nodes f1) (T @ newDataDirName # q) = (if q = [] then Some (Link ts) else None)" for q
      by (auto simp: made_def is_under_iff)
    note R = Rename_entry [OF p1 reserved_names(2,1) reserved_names(3) [symmetric] _ rn]
    show ?thesis
    proof (cases r2)
      case (Inl e)
      then have t2: "touches (below T ?hid) f1 f2" using R(1) l1 by (auto intro: reads_touches)
      have p2: "plain (fs_nodes f2) T" by (rule plain_below [OF p1 t2])
      obtain r3 f3 where rm: "Remove (abs_path (T @ [newDataDirName])) f2 = (r3, f3)" by fastforce
      have t3: "touches (below T ?hid) f2 f3" by (rule touches_reserved(1) [OF p2 reserved_names(2) _ rm]) simp
      obtain r4 f4 where ra: "RemoveAll (abs_path (T @ [ts])) f3 = (r4, f4)" by fastforce
      have "touches (below T ?hid) f3 f4"
        by (rule touches_reserved(2) [OF plain_below [OF p2 t3] ts_nameD(1) [OF ts] _ ra]) simp
      with t3 t2 t1h have "touches (below T ?hid) f f4" using touches_trans by blast
      with w J s \<open>r1 = Inr u\<close> rn Inl rm ra os show ?thesis by (auto simp: Write_switch_def)
    next
      case (Inr v)
      have R2: "touches (\<lambda>x. x = T @ [newDataDirName] \<or> x = T @ [dataDirName]) f1 f2 \<and>
          fs_history f2 = fs_nodes f2 # fs_history f1 \<and> look (fs_nodes f2) (T @ [newDataDirName]) = None \<and>
          look (fs_nodes f2) (T @ [dataDirName]) = look (fs_nodes f1) (T @ [newDataDirName])"
        by (rule R(2)) (use l1 Inr in auto)
      then have "touches (below T (\<lambda>n. n = newDataDirName \<or> n = dataDirName)) f1 f2"
        by (auto elim!: touches_mono)
      with R2 t1 l1 [of "[]"] have "switched f T ts f2" unfolding switched_def by auto
      moreover have "Write_cleanup (abs_path T) ps old f2 = (r, f')"
        using w J s \<open>r1 = Inr u\<close> rn Inr os by (simp add: Write_switch_def)
      ultimately show ?thesis by blast
    qed
  qed
qed

text \<open>After the switch the clean-up leaves the new version alone.\<close>

definition leftover :: "nodes \<Rightarrow> fpath \<Rightarrow> payload \<Rightarrow> string list \<Rightarrow> string \<Rightarrow> bool" where
  "leftover N T pl ps old \<longleftrightarrow>
     (\<forall>n \<in> set ps. visible_name n \<and> \<not> names pl n) \<and>
     (old = [] \<or> look N (T @ [dataDirName]) = Some (Link old))"

lemma leftover_old:
  assumes "writer_inv N T" and "leftover N T pl ps old"
  shows "old = [] \<or> ts_name old \<and> look N (T @ [old]) \<noteq> None"
  using assms inv_old by (auto simp: leftover_def)

lemma switched_ready:
  assumes s: "switched f T ts f1" and r: "ready (fs_nodes f) T pl ts" and fl: "flat pl"
    and p: "plain (fs_nodes f) T"
  shows "plain (fs_nodes f1) T" and "ready (fs_nodes f1) T pl ts"
    and "look (fs_nodes f1) (T @ [dataDirName]) = Some (Link ts)"
    and "writer_inv (fs_nodes f1) T" and "shows_exactly (fs_nodes f1) T pl"
proof -
  from s obtain f0 where t0: "touches (below T (\<lambda>n. n = newDataDirName)) f f0"
    and t1: "touches (below T (\<lambda>n. n = newDataDirName \<or> n = dataDirName)) f0 f1"
    and d: "look (fs_nodes f1) (T @ [dataDirName]) = Some (Link ts)"
    by (auto simp: switched_def)
  from r have ts: "ts_name ts" by (simp add: ready_def)
  show p1: "plain (fs_nodes f1) T" by (rule plain_below [OF plain_below [OF p t0] t1])
  have "ready (fs_nodes f0) T pl ts"
    by (rule ready_touches [OF r t0]) (rule ts_nameD(3) [OF ts])
  then show r1: "ready (fs_nodes f1) T pl ts"
    by (rule ready_touches [OF _ t1]) (simp add: ts_nameD [OF ts])
  show "look (fs_nodes f1) (T @ [dataDirName]) = Some (Link ts)" by (rule d)
  show "writer_inv (fs_nodes f1) T" "shows_exactly (fs_nodes f1) T pl"
    by (rule ready_switched [OF r1 fl p1 d])+
qed

lemma shows_exactly_view: "data_view s T = data_view ns T \<Longrightarrow> shows_exactly s T pl = shows_exactly ns T pl"
  by (simp add: shows_exactly_def cong: option.case_cong)

lemma Write_switch_ok:
  assumes inv: "writer_inv (fs_nodes f) T" and fl: "flat pl" and os: "goos \<noteq> ''windows''"
    and t: "touches (below T (hidden (fs_nodes f) T pl)) f f3"
    and rd: "ready (fs_nodes f3) T pl ts" and ts: "fresh_ts (fs_nodes f) T ts"
    and left: "leftover (fs_nodes f) T pl ps old"
    and w: "Write_switch goos (abs_path T) (abs_path (T @ [ts])) ps old f3 = (r, f')"
  shows "along (old_or_new (fs_nodes f) T pl) f f' \<and> (r = Inr () \<longrightarrow> shows_exactly (fs_nodes f') T pl)"
proof -
  let ?G = "old_or_new (fs_nodes f) T pl" and ?hid = "hidden (fs_nodes f) T pl"
  have p: "plain (fs_nodes f) T" using inv by (simp add: writer_inv_def)
  have p3: "plain (fs_nodes f3) T" by (rule plain_below [OF p t])
  have tsn: "ts_name ts" using ts by (simp add: fresh_ts_def)
  have pre: "along ?G f g" if "touches (below T ?hid) f g" for g
    by (rule along_touches [OF that]) (rule before_switch(2) [OF inv fl])
  from Write_switch_cases [OF p3 tsn os w] show ?thesis
  proof (elim disjE conjE exE)
    assume "isl r" and t': "touches (below T (\<lambda>n. n = newDataDirName \<or> n = ts)) f3 f'"
    have "touches (below T ?hid) f3 f'" by (rule touches_mono [OF t']) (auto simp: below_def ts)
    with t have "touches (below T ?hid) f f'" by (rule touches_trans)
    with pre \<open>isl r\<close> show ?thesis by auto
  next
    fix f5
    assume s: "switched f3 T ts f5" and c: "Write_cleanup (abs_path T) ps old f5 = (r, f')"
    note sw = switched_ready [OF s rd fl p3]
    from s obtain f4 where f4: "touches (below T (\<lambda>n. n = newDataDirName)) f3 f4"
      "fs_history f5 = fs_nodes f5 # fs_history f4" by (auto simp: switched_def)
    have "touches (below T ?hid) f3 f4" by (rule touches_mono [OF f4(1)]) (auto simp: below_def)
    with t have "touches (below T ?hid) f f4" by (rule touches_trans)
    then have a4: "along ?G f f4" by (rule pre)
    have "?G (fs_nodes f5)" using sw(4,5) by (simp add: old_or_new_def)
    then have a5: "along ?G f4 f5" using f4(2) by (auto simp: along_def)
    from leftover_old [OF inv left] have old: "old = [] \<or> ts_name old" "old \<noteq> [] \<Longrightarrow> old \<noteq> ts"
      using ts by (auto simp: fresh_ts_def)
    have vis: "\<And>n. n \<in> set ps \<Longrightarrow> visible_name n" using left by (simp add: leftover_def)
    let ?h = "\<lambda>n. n \<in> set ps \<or> (old \<noteq> [] \<and> n = old)"
    have t5: "touches (below T ?h) f5 f'"
      using Write_cleanup_ok [OF sw(1) vis old(1) c] by (simp add: cleaned_ok_def)
    have "\<not> ?h dataDirName" using vis visible_nameD(2) ts_nameD(2) old(1) by blast
    moreover have "\<not> ?h ts" using vis ts_nameD(4) [OF tsn] old(2) by blast
    ultimately have keep: "writer_inv s T" "data_view s T = data_view (fs_nodes f5) T"
      if "agree (below T ?h) (fs_nodes f5) s" for s
      using agree_below [OF sw(4) that] sw(3) by simp_all
    have k: "shows_exactly s T pl" if "agree (below T ?h) (fs_nodes f5) s" for s
      using shows_exactly_view [OF keep(2) [OF that]] sw(5) by simp
    have "along ?G f5 f'"
      by (rule along_touches [OF t5]) (simp add: old_or_new_def keep(1) k)
    with a4 a5 have "along ?G f f'" using along_trans by blast
    moreover have "shows_exactly (fs_nodes f') T pl" by (rule k) (use t5 in \<open>simp add: touches_def\<close>)
    ultimately show ?thesis by simp
  qed
qed

section \<open>The whole of Write\<close>

lemma written_ready:
  assumes m: "look (fs_nodes f1) (T @ [ts]) = Some (Dir md)"
    and e: "\<And>q. q \<noteq> [] \<Longrightarrow> look (fs_nodes f1) (T @ ts # q) = None"
    and ts: "ts_name ts" and w: "written_ok f1 (T @ [ts]) pl (Inr ()) f2"
  shows "ready (fs_nodes f2) T pl ts"
proof -
  from w have t: "touches (below (T @ [ts]) (names pl)) f1 f2" and h: "holds (fs_nodes f2) (T @ [ts]) pl"
    and leaf: "\<And>n q. q \<noteq> [] \<Longrightarrow> look (fs_nodes f1) (T @ ts # n # q) = None \<Longrightarrow> look (fs_nodes f2) (T @ ts # n # q) = None"
    by (auto simp: written_ok_def)
  have "look (fs_nodes f2) (T @ [ts]) = Some (Dir md)"
    using touches_look [OF t, of "T @ [ts]"] m by simp
  moreover have "\<exists>n. q = [n] \<and> names pl n" if q: "q \<noteq> []" "look (fs_nodes f2) (T @ ts # q) \<noteq> None" for q
  proof -
    from q(1) obtain n q' where q': "q = n # q'" by (cases q) auto
    with q leaf [of q' n] e have "q' = []" by (cases "q' = []") auto
    moreover have "names pl n"
      by (rule ccontr) (use touches_look [OF t, of "T @ [ts, n]"] e [of "[n]"] q(2) q' \<open>q' = []\<close> in \<open>auto simp: below_def\<close>)
    ultimately show ?thesis using q' by simp
  qed
  ultimately show ?thesis using ts h by (simp add: ready_def)
qed

definition safe_run :: "fs \<Rightarrow> fpath \<Rightarrow> payload \<Rightarrow> (write_error + unit) \<Rightarrow> fs \<Rightarrow> bool" where
  "safe_run f T pl r f' \<longleftrightarrow>
     along (old_or_new (fs_nodes f) T pl) f f' \<and> (r = Inr () \<longrightarrow> shows_exactly (fs_nodes f') T pl)"

lemma safe_run_failed:
  assumes "writer_inv (fs_nodes f) T" and "flat pl" and "touches (below T (hidden (fs_nodes f) T pl)) f f'"
  shows "safe_run f T pl (Inl e) f'"
  using along_touches [OF assms(3) before_switch(2) [OF assms(1,2)]] by (simp add: safe_run_def)

lemma safe_run_reads: "reads f f0 \<Longrightarrow> safe_run f0 T pl r f' \<Longrightarrow> safe_run f T pl r f'"
  using along_reads [of f f0] by (simp add: safe_run_def reads_nodes)

text \<open>Steps 5 and 6: the new directory is made and filled.\<close>

lemma new_version_ok:
  assumes inv: "writer_inv (fs_nodes f) T" and fl: "flat pl"
    and rs: "\<And>r. r \<in> set rands \<Longrightarrow> ts_name (stamp @ r)"
    and m: "newTimestampDir (abs_path T) stamp rands f = (Inr d, f1)"
    and w: "writePayloadToDir pl d f1 = (r, f2)"
  obtains ts where "d = abs_path (T @ [ts])" and "fresh_ts (fs_nodes f) T ts"
    and "touches (below T (fresh_ts (fs_nodes f) T)) f f2" and "written_ok f1 (T @ [ts]) pl r f2"
    and "r = Inr () \<Longrightarrow> ready (fs_nodes f2) T pl ts"
proof -
  have p: "plain (fs_nodes f) T" using inv by (simp add: writer_inv_def)
  from newTimestampDir_ok [OF p rs m] have t1: "touches (below T (fresh_ts (fs_nodes f) T)) f f1"
    and "ts_made (fs_nodes f) T d (fs_nodes f1)" by (simp_all add: temp_ok_def)
  then obtain ts md where d: "d = abs_path (T @ [ts])" and ts: "fresh_ts (fs_nodes f) T ts"
    and md: "look (fs_nodes f1) (T @ [ts]) = Some (Dir md)"
    and e: "\<And>q. q \<noteq> [] \<Longrightarrow> look (fs_nodes f1) (T @ ts # q) = None" by (auto simp: ts_made_def)
  have tsn: "ts_name ts" using ts by (simp add: fresh_ts_def)
  have "plain (fs_nodes f1) (T @ [ts])"
    using plain_below [OF p t1] md ts_nameD(1) [OF tsn] by simp
  moreover have "look (fs_nodes f1) ((T @ [ts]) @ [n]) = None" for n using e [of "[n]"] by simp
  ultimately have wo: "written_ok f1 (T @ [ts]) pl r f2"
    using fl w d by (intro writePayloadToDir_ok) auto
  have "touches (below (T @ [ts]) (names pl)) f1 f2" using wo by (simp add: written_ok_def)
  then have "touches (below T (fresh_ts (fs_nodes f) T)) f1 f2"
    by (rule touches_mono) (auto simp: below_def ts)
  with t1 have "touches (below T (fresh_ts (fs_nodes f) T)) f f2" by (rule touches_trans)
  moreover have "ready (fs_nodes f2) T pl ts" if "r = Inr ()"
    using written_ready [OF md e tsn] wo that by simp
  ultimately show thesis using that d ts wo by blast
qed

lemma Write_new_ok:
  assumes inv: "writer_inv (fs_nodes f) T" and fl: "flat pl" and os: "goos \<noteq> ''windows''"
    and rs: "\<And>r. r \<in> set rands \<Longrightarrow> ts_name (stamp @ r)"
    and left: "leftover (fs_nodes f) T pl ps old"
    and w: "Write_new goos stamp rands (abs_path T) pl ps old f = (r, f')"
  shows "safe_run f T pl r f'"
proof -
  let ?hid = "hidden (fs_nodes f) T pl"
  have p: "plain (fs_nodes f) T" using inv by (simp add: writer_inv_def)
  note failed = safe_run_failed [OF inv fl]
  obtain r1 f1 where m: "newTimestampDir (abs_path T) stamp rands f = (r1, f1)" by fastforce
  show ?thesis
  proof (cases r1)
    case (Inl e)
    from newTimestampDir_ok [OF p rs m] have "touches (below T (fresh_ts (fs_nodes f) T)) f f1"
      by (simp add: temp_ok_def)
    then have "touches (below T ?hid) f f1" by (rule touches_mono) (auto simp: below_def)
    with failed w m Inl show ?thesis by (auto simp: Write_new_def)
  next
    case (Inr d)
    obtain r2 f2 where wd: "writePayloadToDir pl d f1 = (r2, f2)" by fastforce
    obtain ts where d: "d = abs_path (T @ [ts])" and ts: "fresh_ts (fs_nodes f) T ts"
      and t: "touches (below T (fresh_ts (fs_nodes f) T)) f f2" "written_ok f1 (T @ [ts]) pl r2 f2"
      and rd: "r2 = Inr () \<Longrightarrow> ready (fs_nodes f2) T pl ts"
      using new_version_ok [OF inv fl rs m [unfolded Inr] wd] by metis
    have t2: "touches (below T ?hid) f f2" by (rule touches_mono [OF t(1)]) (auto simp: below_def)
    show ?thesis
    proof (cases r2)
      case (Inl e)
      with failed t2 w m \<open>r1 = Inr d\<close> wd show ?thesis by (auto simp: Write_new_def)
    next
      case (Inr u)
      obtain r3 f3 where c: "createUserVisibleFiles pl (abs_path T) f2 = (r3, f3)" by fastforce
      have "linked_ok f2 T pl r3 f3"
        by (rule createUserVisibleFiles_ok [OF plain_below [OF p t2] fl c])
      then have t3: "touches (below T (names pl)) f2 f3" by (simp add: linked_ok_def)
      have "touches (below T ?hid) f2 f3" by (rule touches_mono [OF t3]) (auto simp: below_def hidden_def)
      with t2 have tf: "touches (below T ?hid) f f3" by (rule touches_trans)
      have "ts_name ts" using ts by (simp add: fresh_ts_def)
      then have "\<not> names pl ts" using flat_name [OF fl] ts_nameD(4) by blast
      with rd Inr t3 have r3: "ready (fs_nodes f3) T pl ts" by (auto intro: ready_touches)
      show ?thesis
      proof (cases r3)
        case (Inl e)
        with failed tf w m \<open>r1 = Inr d\<close> wd Inr c show ?thesis by (auto simp: Write_new_def)
      next
        case r3: (Inr v)
        have "Write_switch goos (abs_path T) (abs_path (T @ [ts])) ps old f3 = (r, f')"
          using w m \<open>r1 = Inr d\<close> wd Inr c r3 d by (simp add: Write_new_def)
        from Write_switch_ok [OF inv fl os tf \<open>ready (fs_nodes f3) T pl ts\<close> ts left this]
        show ?thesis by (simp add: safe_run_def)
      qed
    qed
  qed
qed

text \<open>The early return is taken when the old version is the new one.\<close>

lemma unchanged_shows:
  assumes inv: "writer_inv (fs_nodes f) T" and d: "look (fs_nodes f) (T @ [dataDirName]) = Some (Link old)"
    and extra: "{n. look (fs_nodes f) (T @ [old, n]) \<noteq> None \<and> n \<notin> fst ` set pl} = {}"
    and same: "\<forall>(n, fp) \<in> set pl. \<exists>m. look (fs_nodes f) ((T @ [old]) @ [n]) = Some (File (content fp) m)"
  shows "shows_exactly (fs_nodes f) T pl"
proof -
  have v: "data_view (fs_nodes f) T n = look (fs_nodes f) (T @ [old, n])" for n
    using d by (simp add: data_view_def)
  have "data_view (fs_nodes f) T n = None" if "map_of pl n = None" for n
    using that extra v by (auto simp: map_of_eq_None_iff)
  moreover have "\<exists>m. data_view (fs_nodes f) T n = Some (File (content fp) m)" if "map_of pl n = Some fp" for n fp
    using map_of_SomeD [OF that] same v by auto
  ultimately show ?thesis by (simp add: shows_exactly_def split: option.split)
qed

lemma data_dir_entry:
  assumes "data_dir ns T ts" and "look ns (T @ [ts, n]) = Some y"
  shows "visible_name n" and "\<exists>d m. y = File d m"
proof -
  have "\<exists>k d m. [n] = [k] \<and> visible_name k \<and> look ns (T @ [ts, k]) = Some (File d m)"
    using assms unfolding data_dir_def by blast
  with assms(2) show "visible_name n" "\<exists>d m. y = File d m" by auto
qed

lemma Write_update_ok:
  assumes inv: "writer_inv (fs_nodes f) T" and fl: "flat pl" and os: "goos \<noteq> ''windows''"
    and rs: "\<And>r. r \<in> set rands \<Longrightarrow> ts_name (stamp @ r)"
    and d: "look (fs_nodes f) (T @ [dataDirName]) = Some (Link old)"
    and w: "Write_update goos stamp rands (abs_path T) pl old f = (r, f')"
  shows "safe_run f T pl r f'"
proof -
  have p: "plain (fs_nodes f) T" using inv by (simp add: writer_inv_def)
  note o = inv_old [OF inv d]
  from o(3) obtain md where md: "look (fs_nodes f) (T @ [old]) = Some (Dir md)" by (auto simp: data_dir_def)
  have J: "Join [abs_path T, old] = abs_path (T @ [old])" "old \<noteq> []"
    using Join_abs_path [OF plain_names [OF p] ts_nameD(1) [OF o(1)]] ts_nameD(1) [OF o(1)]
    by (simp_all add: name_okD)
  obtain r1 f1 where pr: "pathsToRemove pl (abs_path (T @ [old])) f = (r1, f1)" by fastforce
  then have f1: "reads f f1" using pathsToRemove_reads by (metis snd_conv)
  obtain r2 f2 where sw: "shouldWritePayload pl (abs_path (T @ [old])) f1 = (r2, f2)" by fastforce
  then have f2: "reads f f2" using shouldWritePayload_reads f1 by (metis snd_conv reads_trans)
  note failed = safe_run_failed [OF inv fl reads_touches]
  show ?thesis
  proof (cases "\<exists>ps sh. r1 = Inr ps \<and> r2 = Inr sh")
    case False
    with w J pr sw failed f1 f2 show ?thesis by (cases r1; cases r2) (auto simp: Write_update_def)
  next
    case True
    then obtain ps sh where r: "r1 = Inr ps" "r2 = Inr sh" by auto
    have ps: "set ps = {n. look (fs_nodes f) (T @ [old, n]) \<noteq> None \<and> n \<notin> fst ` set pl}"
      by (rule pathsToRemove_flat(1) [OF p o(3) fl pr r(1)])
    show ?thesis
    proof (cases "\<not> sh \<and> length ps = 0")
      case True
      then have rf: "r = Inr ()" "f' = f2" using w J pr sw r by (simp_all add: Write_update_def)
      have "\<forall>(n, fp) \<in> set pl. \<exists>m. look (fs_nodes f1) ((T @ [old]) @ [n]) = Some (File (content fp) m)"
      proof (rule shouldWritePayload_flat(1) [OF _ fl _ sw])
        show "plain (fs_nodes f1) (T @ [old])"
          using p md ts_nameD(1) [OF o(1)] by (simp add: reads_nodes [OF f1])
        show "look (fs_nodes f1) ((T @ [old]) @ [n]) \<noteq> Some (Link t)" for n t
          using data_dir_entry [OF o(3), of n] by (auto simp: reads_nodes [OF f1])
        show "r2 = Inr False" using r True by simp
      qed
      then have "shows_exactly (fs_nodes f) T pl"
        using ps True by (intro unchanged_shows [OF inv d]) (simp_all add: reads_nodes [OF f1])
      with inv rf f2 show ?thesis
        by (auto simp: safe_run_def along_def old_or_new_def reads_def)
    next
      case False
      have "visible_name n" if "n \<in> set ps" for n
        using that data_dir_entry [OF o(3), of n] ps by auto
      then have "leftover (fs_nodes f2) T pl ps old"
        using ps d by (auto simp: leftover_def reads_nodes [OF f2])
      moreover have "Write_new goos stamp rands (abs_path T) pl ps old f2 = (r, f')"
        using w J pr sw r False by (auto simp: Write_update_def)
      ultimately have "safe_run f2 T pl r f'"
        using inv reads_nodes [OF f2] by (intro Write_new_ok [OF _ fl os rs]) simp_all
      then show ?thesis by (rule safe_run_reads [OF f2])
    qed
  qed
qed

lemma Write_safe:
  assumes inv: "writer_inv (fs_nodes f) T" and fl: "flat pl" and os: "goos \<noteq> ''windows''"
    and rs: "\<And>r. r \<in> set rands \<Longrightarrow> ts_name (stamp @ r)"
    and w: "Write goos stamp rands (abs_path T) pl f = (r, f')"
  shows "safe_run f T pl r f'"
proof -
  have p: "plain (fs_nodes f) T" using inv by (simp add: writer_inv_def)
  have J: "Join [abs_path T, dataDirName] = abs_path (T @ [dataDirName])"
    using plain_names [OF p] by (simp add: Join_abs_path)
  obtain r1 f1 where rl: "Readlink (abs_path (T @ [dataDirName])) f = (r1, f1)" by fastforce
  note R = Readlink_entry [OF p reserved_names(1) rl]
  have inv1: "writer_inv (fs_nodes f1) T" using inv reads_nodes [OF R(1)] by simp
  show ?thesis
  proof (cases r1)
    case (Inr old)
    then have "look (fs_nodes f1) (T @ [dataDirName]) = Some (Link old)"
      using R(2) reads_nodes [OF R(1)] by simp
    moreover have "Write_update goos stamp rands (abs_path T) pl old f1 = (r, f')"
      using w J rl Inr by (simp add: Write_def validatePayload_flat [OF fl])
    ultimately show ?thesis
      using Write_update_ok [OF inv1 fl os rs] safe_run_reads [OF R(1)] by blast
  next
    case (Inl e)
    show ?thesis
    proof (cases "e = ENOENT")
      case True
      then have "Write_new goos stamp rands (abs_path T) pl [] [] f1 = (r, f')"
        using w J rl Inl by (simp add: Write_def Write_update_def IsNotExist_def validatePayload_flat [OF fl])
      then have "safe_run f1 T pl r f'"
        by (intro Write_new_ok [OF inv1 fl os rs]) (simp_all add: leftover_def)
      then show ?thesis by (rule safe_run_reads [OF R(1)])
    next
      case False
      with w J rl Inl have "r = Inl (Os e)" "f' = f1"
        by (simp_all add: Write_def IsNotExist_def validatePayload_flat [OF fl])
      with safe_run_failed [OF inv fl reads_touches [OF R(1)]] show ?thesis by simp
    qed
  qed
qed

section \<open>Without faults\<close>

text \<open>
  The state between two successful runs: no left-over \<^verbatim>\<open>..data_tmp\<close>, and a link for every file of
  the current version.
\<close>

definition tidy :: "nodes \<Rightarrow> fpath \<Rightarrow> bool" where
  "tidy ns T \<longleftrightarrow> writer_inv ns T \<and> look ns (T @ [newDataDirName]) = None \<and>
     (\<forall>n. data_view ns T n \<noteq> None \<longrightarrow> look ns (T @ [n]) = Some (visible_link n))"

lemma Write_switch_run:
  assumes pl: "plain (fs_nodes f) T" and ts: "ts_name ts" and os: "goos \<noteq> ''windows''"
    and ff: "fs_faults f = []" and nd: "look (fs_nodes f) (T @ [newDataDirName]) = None"
    and dd: "\<And>m. look (fs_nodes f) (T @ [dataDirName]) \<noteq> Some (Dir m)"
  shows "\<exists>f1. switched f T ts f1 \<and> fs_faults f1 = [] \<and>
     Write_switch goos (abs_path T) (abs_path (T @ [ts])) ps old f = Write_cleanup (abs_path T) ps old f1"
proof -
  have J: "Join [abs_path T, dataDirName] = abs_path (T @ [dataDirName])"
    "Join [abs_path T, newDataDirName] = abs_path (T @ [newDataDirName])"
    "Base (abs_path (T @ [ts])) = ts"
    using plain_names [OF pl] ts_nameD(1) [OF ts] by (simp_all add: Join_abs_path Base_abs)
  obtain r1 f1 where s: "Symlink ts (abs_path (T @ [newDataDirName])) f = (r1, f1)" by fastforce
  from Symlink_entry(2) [OF pl reserved_names(2) s ff nd]
  have f1: "r1 = Inr ()" "f1 = commit (new_node (T @ [newDataDirName]) (Link ts) (fs_nodes f)) f" by simp_all
  have t1: "touches (below T (\<lambda>n. n = newDataDirName)) f f1"
    unfolding f1 by (rule touches_commit) (auto simp: agree_def below_def is_under_iff)
  have p1: "plain (fs_nodes f1) T" by (rule plain_below [OF pl t1])
  have l1: "look (fs_nodes f1) (T @ newDataDirName # q) = (if q = [] then Some (Link ts) else None)" for q
    by (simp add: f1 is_under_iff)
  have d1: "look (fs_nodes f1) (T @ [dataDirName]) \<noteq> Some (Dir m)" for m
    using dd touches_look [OF t1, of "T @ [dataDirName]"] by simp
  obtain r2 f2 where rn: "Rename (abs_path (T @ [newDataDirName])) (abs_path (T @ [dataDirName])) f1 = (r2, f2)"
    by fastforce
  note R = Rename_entry [OF p1 reserved_names(2,1) reserved_names(3) [symmetric] _ rn]
  have "fs_faults f1 = []" using ff f1 by simp
  then have r2: "\<not> isl r2 \<and> fs_faults f2 = []"
    by (intro R(3) [of ts]) (simp_all add: l1 d1)
  have R2: "touches (\<lambda>x. x = T @ [newDataDirName] \<or> x = T @ [dataDirName]) f1 f2 \<and>
      fs_history f2 = fs_nodes f2 # fs_history f1 \<and> look (fs_nodes f2) (T @ [newDataDirName]) = None \<and>
      look (fs_nodes f2) (T @ [dataDirName]) = look (fs_nodes f1) (T @ [newDataDirName])"
    by (rule R(2)) (use l1 r2 in auto)
  then have "touches (below T (\<lambda>n. n = newDataDirName \<or> n = dataDirName)) f1 f2"
    by (auto elim!: touches_mono)
  with R2 t1 l1 [of "[]"] have "switched f T ts f2" unfolding switched_def by auto
  moreover have "Write_switch goos (abs_path T) (abs_path (T @ [ts])) ps old f = Write_cleanup (abs_path T) ps old f2"
    using J s f1(1) rn r2 os by (cases r2) (simp_all add: Write_switch_def)
  ultimately show ?thesis using r2 by blast
qed

text \<open>Where the run of steps 5 to 11 leads when nothing fails.\<close>

definition linkable :: "nodes \<Rightarrow> fpath \<Rightarrow> payload \<Rightarrow> bool" where
  "linkable N T pl \<longleftrightarrow>
     (\<forall>n. names pl n \<longrightarrow> look N (T @ [n]) = None \<or> look N (T @ [n]) = Some (visible_link n))"

definition published :: "fpath \<Rightarrow> payload \<Rightarrow> string list \<Rightarrow> fs \<Rightarrow> bool" where
  "published T pl ps f' \<longleftrightarrow> fs_faults f' = [] \<and>
     look (fs_nodes f') (T @ [newDataDirName]) = None \<and>
     (\<forall>n. names pl n \<longrightarrow> look (fs_nodes f') (T @ [n]) = Some (visible_link n)) \<and>
     (\<forall>n \<in> set ps. look (fs_nodes f') (T @ [n]) = None)"

lemma switched_look:
  "switched f T ts f1 \<Longrightarrow> n \<noteq> newDataDirName \<Longrightarrow> n \<noteq> dataDirName \<Longrightarrow>
   look (fs_nodes f1) (T @ n # q) = look (fs_nodes f) (T @ n # q)"
  by (auto simp: switched_def dest!: touches_look [where p = "T @ n # q"])

lemma published_end:
  assumes ti: "writer_inv N T" and fl: "flat pl" and left: "leftover N T pl ps old" and ps: "distinct ps"
    and p: "plain (fs_nodes f5) T" and ff: "fs_faults f5 = []"
    and nd: "look (fs_nodes f5) (T @ [newDataDirName]) = None"
    and links: "\<And>n. names pl n \<or> n \<in> set ps \<Longrightarrow> look (fs_nodes f5) (T @ [n]) = Some (visible_link n)"
    and c: "Write_cleanup (abs_path T) ps old f5 = (r, f')"
  shows "r = Inr () \<and> published T pl ps f'"
proof -
  from leftover_old [OF ti left] have old: "old = [] \<or> ts_name old" by auto
  have vis: "\<And>n. n \<in> set ps \<Longrightarrow> visible_name n" using left by (simp add: leftover_def)
  have ok: "cleaned_ok f5 T ps old r f'" by (rule Write_cleanup_ok [OF p vis old c])
  have l: "\<forall>n \<in> set ps. \<exists>t. look (fs_nodes f5) (T @ [n]) = Some (Link t)"
    using links by (auto simp: visible_link_def)
  let ?h = "\<lambda>n. n \<in> set ps \<or> (old \<noteq> [] \<and> n = old)"
  have t: "touches (below T ?h) f5 f'" and r: "r = Inr ()" "fs_faults f' = []"
    "\<forall>n \<in> set ps. look (fs_nodes f') (T @ [n]) = None"
    using ok l ps ff by (simp_all add: cleaned_ok_def)
  have keep: "look (fs_nodes f') (T @ [n]) = look (fs_nodes f5) (T @ [n])" if "\<not> ?h n" for n
    using that by (intro touches_look [OF t]) simp
  have "\<not> ?h newDataDirName" using vis visible_nameD(3) ts_nameD(3) old by blast
  moreover have "\<not> ?h n" if "names pl n" for n
    using left that flat_name [OF fl that] old ts_nameD(4) by (auto simp: leftover_def)
  ultimately show ?thesis using r nd links keep by (simp add: published_def)
qed

lemma Write_new_run:
  assumes ti: "tidy (fs_nodes f) T" and fl: "flat pl" and os: "goos \<noteq> ''windows''"
    and rs: "\<And>r. r \<in> set rands \<Longrightarrow> ts_name (stamp @ r)"
    and free: "r = Inr () \<or> (\<exists>r \<in> set rands. look (fs_nodes f) (T @ [stamp @ r]) = None)"
    and ff: "fs_faults f = []" and lk: "linkable (fs_nodes f) T pl"
    and left: "leftover (fs_nodes f) T pl ps old" and ps: "distinct ps"
    and lps: "\<And>n. n \<in> set ps \<Longrightarrow> look (fs_nodes f) (T @ [n]) = Some (visible_link n)"
    and w: "Write_new goos stamp rands (abs_path T) pl ps old f = (r, f')"
  shows "r = Inr () \<and> published T pl ps f'"
proof -
  have inv: "writer_inv (fs_nodes f) T" and nd: "look (fs_nodes f) (T @ [newDataDirName]) = None"
    using ti by (simp_all add: tidy_def)
  have p: "plain (fs_nodes f) T" using inv by (simp add: writer_inv_def)
  obtain r1 f1 where m: "newTimestampDir (abs_path T) stamp rands f = (r1, f1)" by fastforce
  have "r = Inr () \<Longrightarrow> \<not> isl r1" using w m by (cases r1) (simp_all add: Write_new_def)
  then have "\<not> isl r1" "fs_faults f1 = []"
    using newTimestampDir_ok [OF p rs m] ff free by (auto simp: temp_ok_def)
  then obtain d where r1: "r1 = Inr d" "fs_faults f1 = []" by (cases r1) auto
  obtain r2 f2 where wd: "writePayloadToDir pl d f1 = (r2, f2)" by fastforce
  obtain ts where d: "d = abs_path (T @ [ts])" and ts: "fresh_ts (fs_nodes f) T ts"
    and t2: "touches (below T (fresh_ts (fs_nodes f) T)) f f2" "written_ok f1 (T @ [ts]) pl r2 f2"
    and rd: "r2 = Inr () \<Longrightarrow> ready (fs_nodes f2) T pl ts"
    using new_version_ok [OF inv fl rs m [unfolded r1(1)] wd] by metis
  have tsn: "ts_name ts" using ts by (simp add: fresh_ts_def)
  have r2: "r2 = Inr ()" "fs_faults f2 = []" using t2(2) r1(2) by (simp_all add: written_ok_def)
  have p2: "plain (fs_nodes f2) T" by (rule plain_below [OF p t2(1)])
  have l2: "look (fs_nodes f2) (T @ [n]) = look (fs_nodes f) (T @ [n])" if "\<not> ts_name n" for n
    using that by (intro touches_look [OF t2(1)]) (simp add: fresh_ts_def)
  obtain r3 f3 where c: "createUserVisibleFiles pl (abs_path T) f2 = (r3, f3)" by fastforce
  have L: "linked_ok f2 T pl r3 f3" by (rule createUserVisibleFiles_ok [OF p2 fl c])
  have t3: "touches (below T (names pl)) f2 f3" and r3: "r3 = Inr ()" "fs_faults f3 = []"
    using L r2 by (simp_all add: linked_ok_def)
  have p3: "plain (fs_nodes f3) T" by (rule plain_below [OF p2 t3])
  have l3: "look (fs_nodes f3) (T @ [n]) = look (fs_nodes f) (T @ [n])" if "\<not> names pl n" "\<not> ts_name n" for n
    using that l2 touches_look [OF t3, of "T @ [n]"] by simp
  have v3: "look (fs_nodes f3) (T @ [n]) = Some (visible_link n)" if "names pl n" for n
  proof -
    have "\<not> ts_name n" using flat_name [OF fl that] by (rule visible_nameD)
    with L r2(2) that l2 [of n] lk show ?thesis by (auto simp: linked_ok_def linkable_def)
  qed
  have res: "\<not> names pl dataDirName" "\<not> names pl newDataDirName" "\<not> ts_name dataDirName" "\<not> ts_name newDataDirName"
    using flat_name [OF fl] visible_nameD(2,3) by (auto simp: ts_name_def)
  have "look (fs_nodes f3) (T @ [dataDirName]) \<noteq> Some (Dir m)" for m
    using inv l3 [OF res(1,3)] by (auto simp: writer_inv_def split: option.splits node.splits)
  then obtain f5 where s: "switched f3 T ts f5" and f5: "fs_faults f5 = []"
    and run: "Write_switch goos (abs_path T) (abs_path (T @ [ts])) ps old f3 = Write_cleanup (abs_path T) ps old f5"
    using Write_switch_run [OF p3 tsn os r3(2)] l3 [OF res(2,4)] nd by metis
  have "Write_cleanup (abs_path T) ps old f5 = (r, f')"
    using w m r1 wd r2 c r3 d run by (simp add: Write_new_def)
  moreover have "plain (fs_nodes f5) T" "look (fs_nodes f5) (T @ [newDataDirName]) = None"
    using s p3 by (auto simp: switched_def intro: plain_below)
  moreover have "look (fs_nodes f5) (T @ [n]) = Some (visible_link n)" if "names pl n \<or> n \<in> set ps" for n
  proof -
    have n: "visible_name n" using that flat_name [OF fl] left by (auto simp: leftover_def)
    have "look (fs_nodes f3) (T @ [n]) = Some (visible_link n)"
      using v3 l3 [of n] lps [of n] that visible_nameD(4) [OF n] by (cases "names pl n") simp_all
    with switched_look [OF s visible_nameD(3,2) [OF n], of "[]"] show ?thesis by simp
  qed
  ultimately show ?thesis using published_end [OF inv fl left ps _ f5] by blast
qed

lemma shouldWritePayload_run:
  assumes "plain (fs_nodes f) D" and "flat pl" and ff: "fs_faults f = []"
    and entry: "\<And>n y. look (fs_nodes f) (D @ [n]) = Some y \<Longrightarrow> \<exists>d m. y = File d m"
  shows "\<exists>b. shouldWritePayload pl (abs_path D) f = (Inr b, f)"
  using assms(2)
proof (induction pl)
  case (Cons x pl)
  obtain n fp where x: "x = (n, fp)" by fastforce
  from Cons.prems x have n: "name_ok n" by (simp add: visible_nameD)
  have J: "Join [abs_path D, n] = abs_path (D @ [n])"
    by (rule Join_abs_path [OF plain_names [OF assms(1)] n])
  note res = resolve_entry [OF assms(1) n]
  have "\<exists>b. shouldWriteFile (abs_path (D @ [n])) (content fp) f = (Inr b, f)"
  proof (cases "look (fs_nodes f) (D @ [n])")
    case None
    then show ?thesis by (auto simp: shouldWriteFile_def Lstat_def at_node_run [OF ff res(1)] IsNotExist_def)
  next
    case (Some y)
    with entry obtain d m where y: "look (fs_nodes f) (D @ [n]) = Some (File d m)" by blast
    have "resolve True f (abs_path (D @ [n])) = Inr (D @ [n])" by (rule res(2)) (simp add: y)
    with y show ?thesis
      by (simp add: shouldWriteFile_def Lstat_def ReadFile_def at_node_run [OF ff res(1)] at_node_run [OF ff])
  qed
  with Cons x J show ?case by auto
qed auto

lemma pathsToRemove_distinct: "pathsToRemove pl d f = (Inr ps, f1) \<Longrightarrow> distinct ps"
  by (auto simp: pathsToRemove_def Let_def split: prod.splits sum.splits if_splits)

lemma Write_update_run:
  assumes ti: "tidy (fs_nodes f) T" and fl: "flat pl" and os: "goos \<noteq> ''windows''"
    and rs: "\<And>r. r \<in> set rands \<Longrightarrow> ts_name (stamp @ r)"
    and free: "r = Inr () \<or> (\<exists>r \<in> set rands. look (fs_nodes f) (T @ [stamp @ r]) = None)"
    and ff: "fs_faults f = []" and lk: "linkable (fs_nodes f) T pl"
    and d: "look (fs_nodes f) (T @ [dataDirName]) = Some (Link old)"
    and w: "Write_update goos stamp rands (abs_path T) pl old f = (r, f')"
  shows "\<exists>ps. set ps = {n. data_view (fs_nodes f) T n \<noteq> None \<and> \<not> names pl n} \<and>
     r = Inr () \<and> published T pl ps f'"
proof -
  have inv: "writer_inv (fs_nodes f) T" using ti by (simp add: tidy_def)
  have p: "plain (fs_nodes f) T" using inv by (simp add: writer_inv_def)
  note o = inv_old [OF inv d]
  from o(3) obtain md where md: "look (fs_nodes f) (T @ [old]) = Some (Dir md)" by (auto simp: data_dir_def)
  have J: "Join [abs_path T, old] = abs_path (T @ [old])" "old \<noteq> []"
    using Join_abs_path [OF plain_names [OF p] ts_nameD(1) [OF o(1)]] ts_nameD(1) [OF o(1)]
    by (simp_all add: name_okD)
  have pD: "plain (fs_nodes f) (T @ [old])" using p md ts_nameD(1) [OF o(1)] by simp
  have v: "data_view (fs_nodes f) T n = look (fs_nodes f) (T @ [old, n])" for n
    using d by (simp add: data_view_def)
  obtain r1 f1 where pr: "pathsToRemove pl (abs_path (T @ [old])) f = (r1, f1)" by fastforce
  with pathsToRemove_flat(2) [OF p o(3) fl pr ff] obtain ps where r1: "f1 = f" "r1 = Inr ps" by (cases r1) auto
  have ps: "set ps = {n. data_view (fs_nodes f) T n \<noteq> None \<and> \<not> names pl n}"
    using pathsToRemove_flat(1) [OF p o(3) fl pr r1(2)] v by simp
  obtain sh where sw: "shouldWritePayload pl (abs_path (T @ [old])) f = (Inr sh, f)"
    using shouldWritePayload_run [OF pD fl ff] data_dir_entry(2) [OF o(3)] by auto
  show ?thesis
  proof (cases "\<not> sh \<and> length ps = 0")
    case True
    then have "r = Inr ()" "f' = f" using w J pr sw r1 by (simp_all add: Write_update_def)
    moreover have "\<forall>(n, fp) \<in> set pl. \<exists>m. look (fs_nodes f) ((T @ [old]) @ [n]) = Some (File (content fp) m)"
      using data_dir_entry(2) [OF o(3)] True by (intro shouldWritePayload_flat(1) [OF pD fl _ sw]) fastforce+
    then have "data_view (fs_nodes f) T n \<noteq> None" if "names pl n" for n
      using that v by fastforce
    then have "published T pl ps f" using True ti ff by (simp add: published_def tidy_def)
    ultimately show ?thesis using ps by blast
  next
    case False
    then have w': "Write_new goos stamp rands (abs_path T) pl ps old f = (r, f')"
      using w J pr sw r1 by (auto simp: Write_update_def)
    have "leftover (fs_nodes f) T pl ps old"
      using ps d data_dir_entry(1) [OF o(3)] v by (auto simp: leftover_def)
    moreover have "look (fs_nodes f) (T @ [n]) = Some (visible_link n)" if "n \<in> set ps" for n
      using that ps ti by (auto simp: tidy_def)
    moreover have "distinct ps" using pr r1 pathsToRemove_distinct by blast
    ultimately have "r = Inr () \<and> published T pl ps f'"
      using Write_new_run [OF ti fl os rs free ff lk _ _ _ w'] by blast
    with ps show ?thesis by blast
  qed
qed

text \<open>A reader who opens a name of the target directory gets there through both links.\<close>

lemma visible_read:
  assumes inv: "writer_inv (fs_nodes f) T" and n: "visible_name n" and ff: "fs_faults f = []"
    and l: "look (fs_nodes f) (T @ [n]) = Some (visible_link n)"
    and v: "data_view (fs_nodes f) T n = Some (File d m)"
  shows "ReadFile (abs_path (T @ [n])) f = (Inr d, f)"
proof -
  have p: "plain (fs_nodes f) T" using inv by (simp add: writer_inv_def)
  from v obtain ts where ts: "look (fs_nodes f) (T @ [dataDirName]) = Some (Link ts)"
    "look (fs_nodes f) (T @ [ts, n]) = Some (File d m)"
    by (auto simp: data_view_def split: option.splits node.splits)
  from inv_old [OF inv ts(1)] obtain md where md: "ts_name ts" "look (fs_nodes f) (T @ [ts]) = Some (Dir md)"
    by (auto simp: data_dir_def)
  have "resolve True f (abs_path (T @ [n])) = Inr (T @ [ts, n])"
    by (rule resolve_through [OF p visible_nameD(1) [OF n] reserved_names(1) ts_nameD(1) [OF md(1)] _ ts(1) md(2)])
      (simp_all add: l visible_link_def ts(2))
  with ts(2) show ?thesis by (simp add: ReadFile_def at_node_run [OF ff])
qed

lemma shows_exactly_Some:
  assumes "shows_exactly ns T pl" and "flat pl" and "(n, fp) \<in> set pl"
  shows "\<exists>m. data_view ns T n = Some (File (content fp) m)"
proof -
  have "map_of pl n = Some fp" using assms(2,3) by (simp add: flat_def)
  with assms(1) [unfolded shows_exactly_def, rule_format, of n] show ?thesis by simp
qed

lemma shows_exactly_None:
  assumes "shows_exactly ns T pl" and "data_view ns T n \<noteq> None" shows "names pl n"
proof (rule ccontr)
  assume "\<not> names pl n"
  then have "map_of pl n = None" by (simp add: map_of_eq_None_iff)
  with assms(1) [unfolded shows_exactly_def, rule_format, of n] assms(2) show False by simp
qed

lemma Write_run:
  assumes ti: "tidy (fs_nodes f) T" and fl: "flat pl" and os: "goos \<noteq> ''windows''"
    and rs: "\<And>r. r \<in> set rands \<Longrightarrow> ts_name (stamp @ r)"
    and free: "r = Inr () \<or> (\<exists>r \<in> set rands. look (fs_nodes f) (T @ [stamp @ r]) = None)"
    and ff: "fs_faults f = []" and lk: "linkable (fs_nodes f) T pl"
    and w: "Write goos stamp rands (abs_path T) pl f = (r, f')"
  shows "\<exists>ps. set ps = {n. data_view (fs_nodes f) T n \<noteq> None \<and> \<not> names pl n} \<and>
     r = Inr () \<and> published T pl ps f'"
proof -
  have inv: "writer_inv (fs_nodes f) T" using ti by (simp add: tidy_def)
  have p: "plain (fs_nodes f) T" using inv by (simp add: writer_inv_def)
  have J: "Join [abs_path T, dataDirName] = abs_path (T @ [dataDirName])"
    using plain_names [OF p] by (simp add: Join_abs_path)
  obtain r1 f1 where rl: "Readlink (abs_path (T @ [dataDirName])) f = (r1, f1)" by fastforce
  note R = Readlink_entry(4) [OF p reserved_names(1) rl ff]
  show ?thesis
  proof (cases "look (fs_nodes f) (T @ [dataDirName])")
    case None
    then have "Write_new goos stamp rands (abs_path T) pl [] [] f = (r, f')"
      using w J rl R by (simp add: Write_def Write_update_def IsNotExist_def validatePayload_flat [OF fl])
    then have "r = Inr () \<and> published T pl [] f'"
      by (intro Write_new_run [OF ti fl os rs free ff lk]) (simp_all add: leftover_def)
    moreover have "data_view (fs_nodes f) T n = None" for n using None by (simp add: data_view_def)
    ultimately show ?thesis by (intro exI [of _ "[]"]) simp
  next
    case (Some y)
    with inv obtain old where d: "look (fs_nodes f) (T @ [dataDirName]) = Some (Link old)"
      by (auto simp: writer_inv_def split: node.splits)
    then have "Write_update goos stamp rands (abs_path T) pl old f = (r, f')"
      using w J rl R by (simp add: Write_def validatePayload_flat [OF fl])
    with Write_update_run [OF ti fl os rs free ff lk d] show ?thesis by blast
  qed
qed

text \<open>What a successful run without faults leaves.\<close>

lemma Write_success:
  assumes "tidy (fs_nodes f) T" and "flat pl" and "goos \<noteq> ''windows''"
    and "\<forall>r \<in> set rands. ts_name (stamp @ r)" and "fs_faults f = []" and "linkable (fs_nodes f) T pl"
    and w: "Write goos stamp rands (abs_path T) pl f = (Inr (), f')"
  shows "tidy (fs_nodes f') T" and "fs_faults f' = []"
    and "(n, fp) \<in> set pl \<Longrightarrow> ReadFile (abs_path (T @ [n])) f' = (Inr (content fp), f')"
    and "\<forall>n. data_view (fs_nodes f) T n \<noteq> None \<and> \<not> names pl n \<longrightarrow> look (fs_nodes f') (T @ [n]) = None"
    and "shows_exactly (fs_nodes f') T pl" and "names pl n \<Longrightarrow> look (fs_nodes f') (T @ [n]) = Some (visible_link n)"
proof -
  from Write_run [OF assms(1-3) _ disjI1 [OF refl] assms(5,6) w] assms(4) obtain ps where
    ps: "set ps = {n. data_view (fs_nodes f) T n \<noteq> None \<and> \<not> names pl n}" and pub: "published T pl ps f'" by blast
  have "writer_inv (fs_nodes f) T" using assms(1) by (simp add: tidy_def)
  from Write_safe [OF this assms(2,3) _ w] assms(4)
  have inv: "writer_inv (fs_nodes f') T" and sh: "shows_exactly (fs_nodes f') T pl"
    by (auto simp: safe_run_def along_def old_or_new_def)
  have link: "look (fs_nodes f') (T @ [n]) = Some (visible_link n)" if "names pl n" for n
    using pub that by (simp add: published_def)
  show ff: "fs_faults f' = []" using pub by (simp add: published_def)
  show "tidy (fs_nodes f') T"
    using inv pub link shows_exactly_None [OF sh] unfolding tidy_def published_def by blast
  show "ReadFile (abs_path (T @ [n])) f' = (Inr (content fp), f')" if e: "(n, fp) \<in> set pl"
  proof -
    have n: "names pl n" using e by force
    obtain m where "data_view (fs_nodes f') T n = Some (File (content fp) m)"
      using shows_exactly_Some [OF sh assms(2) e] by blast
    then show ?thesis by (rule visible_read [OF inv flat_name [OF assms(2) n] ff link [OF n]])
  qed
  show "\<forall>n. data_view (fs_nodes f) T n \<noteq> None \<and> \<not> names pl n \<longrightarrow> look (fs_nodes f') (T @ [n]) = None"
    using pub ps by (simp add: published_def)
  show "shows_exactly (fs_nodes f') T pl" by (rule sh)
  show "names pl n \<Longrightarrow> look (fs_nodes f') (T @ [n]) = Some (visible_link n)" by (rule link)
qed

lemma Write_unchanged:
  assumes "writer_inv (fs_nodes f) T" and "flat pl" and "fs_faults f = []"
    and "look (fs_nodes f) (T @ [dataDirName]) \<noteq> None" and "shows_exactly (fs_nodes f) T pl"
  shows "Write goos stamp rands (abs_path T) pl f = (Inr (), f)"
proof -
  have p: "plain (fs_nodes f) T" using assms(1) by (simp add: writer_inv_def)
  from assms(1,4) obtain old where d: "look (fs_nodes f) (T @ [dataDirName]) = Some (Link old)"
    by (auto simp: writer_inv_def split: option.splits node.splits)
  note o = inv_old [OF assms(1) d]
  have v: "data_view (fs_nodes f) T n = look (fs_nodes f) (T @ [old, n])" for n
    using d by (simp add: data_view_def)
  from o(3) obtain md where "look (fs_nodes f) (T @ [old]) = Some (Dir md)" by (auto simp: data_dir_def)
  then have pD: "plain (fs_nodes f) (T @ [old])" using p ts_nameD(1) [OF o(1)] by simp
  have J: "Join [abs_path T, old] = abs_path (T @ [old])" "old \<noteq> []"
    "Join [abs_path T, dataDirName] = abs_path (T @ [dataDirName])"
    using plain_names [OF p] ts_nameD(1) [OF o(1)] by (simp_all add: Join_abs_path name_okD)
  obtain r1 f1 where rl: "Readlink (abs_path (T @ [dataDirName])) f = (r1, f1)" by fastforce
  have r1: "r1 = Inr old" "f1 = f" using Readlink_entry(4) [OF p reserved_names(1) rl assms(3)] d by auto
  obtain r2 f2 where pr: "pathsToRemove pl (abs_path (T @ [old])) f = (r2, f2)" by fastforce
  with pathsToRemove_flat(2) [OF p o(3) assms(2) pr assms(3)] obtain ps where r2: "f2 = f" "r2 = Inr ps"
    by (cases r2) auto
  have "set ps = {n. data_view (fs_nodes f) T n \<noteq> None \<and> \<not> names pl n}"
    using pathsToRemove_flat(1) [OF p o(3) assms(2) pr r2(2)] v by simp
  moreover have "\<not> (data_view (fs_nodes f) T n \<noteq> None \<and> \<not> names pl n)" for n
    using shows_exactly_None [OF assms(5), of n] by (cases "data_view (fs_nodes f) T n") simp_all
  ultimately have "set ps = {}" by simp
  moreover obtain r3 f3 where sw: "shouldWritePayload pl (abs_path (T @ [old])) f = (r3, f3)" by fastforce
  moreover have "r3 = Inr False \<and> f3 = f"
  proof (rule shouldWritePayload_flat(2) [OF pD assms(2) _ sw assms(3)])
    show "look (fs_nodes f) ((T @ [old]) @ [n]) \<noteq> Some (Link t)" for n t
      using data_dir_entry(2) [OF o(3), of n] by auto
    show "\<forall>(n, fp) \<in> set pl. \<exists>m. look (fs_nodes f) ((T @ [old]) @ [n]) = Some (File (content fp) m)"
      using shows_exactly_Some [OF assms(5,2)] v by auto
  qed
  ultimately show ?thesis
    using J rl r1 pr r2 sw by (simp add: Write_def Write_update_def validatePayload_flat [OF assms(2)])
qed

section \<open>A left-over link blocks the writer\<close>

text \<open>A run only looks, or it looks and then makes a new version.\<close>

lemma Write_update_shape:
  assumes "Write_update goos stamp rands T pl old f = (r, f')"
  shows "reads f f' \<or> (\<exists>g ps. reads f g \<and> Write_new goos stamp rands T pl ps old g = (r, f'))"
proof (cases "length old \<noteq> 0")
  case True
  let ?D = "Join [T, old]"
  obtain r1 f1 where pr: "pathsToRemove pl ?D f = (r1, f1)" by fastforce
  then have f1: "reads f f1" using pathsToRemove_reads by (metis snd_conv)
  obtain r2 f2 where sw: "shouldWritePayload pl ?D f1 = (r2, f2)" by fastforce
  then have f2: "reads f f2" using shouldWritePayload_reads f1 by (metis snd_conv reads_trans)
  have "f' = f1 \<or> f' = f2 \<or> (\<exists>ps. Write_new goos stamp rands T pl ps old f2 = (r, f'))"
    using assms True pr sw by (auto simp: Write_update_def split: sum.splits if_splits)
  with f1 f2 show ?thesis by blast
next
  case False
  with assms have "Write_new goos stamp rands T pl [] old f = (r, f')" by (simp add: Write_update_def)
  with reads_refl [of f] show ?thesis by blast
qed

lemma Write_shape:
  assumes fl: "flat pl" and w: "Write goos stamp rands T pl f = (r, f')"
  shows "reads f f' \<or> (\<exists>g ps old. reads f g \<and> Write_new goos stamp rands T pl ps old g = (r, f'))"
proof -
  obtain r1 f1 where rl: "Readlink (Join [T, dataDirName]) f = (r1, f1)" by fastforce
  then have f1: "reads f f1" using read_calls(3) by (metis snd_conv)
  have "f' = f1 \<or> (\<exists>old. Write_update goos stamp rands T pl old f1 = (r, f'))"
    using w rl by (auto simp: Write_def validatePayload_flat [OF fl] split: sum.splits if_splits)
  then show ?thesis
  proof (elim disjE exE)
    assume "f' = f1"
    with f1 show ?thesis by simp
  next
    fix old
    assume "Write_update goos stamp rands T pl old f1 = (r, f')"
    from Write_update_shape [OF this] reads_trans [OF f1] show ?thesis by blast
  qed
qed

lemma Write_new_blocked:
  assumes inv: "writer_inv (fs_nodes f) T" and fl: "flat pl" and os: "goos \<noteq> ''windows''"
    and rs: "\<And>r. r \<in> set rands \<Longrightarrow> ts_name (stamp @ r)"
    and nd: "look (fs_nodes f) (T @ [newDataDirName]) \<noteq> None"
    and w: "Write_new goos stamp rands (abs_path T) pl ps old f = (r, f')"
  shows "isl r"
proof (rule ccontr)
  assume "\<not> isl r"
  with w obtain d f1 f2 f3 where m: "newTimestampDir (abs_path T) stamp rands f = (Inr d, f1)"
    and wd: "writePayloadToDir pl d f1 = (Inr (), f2)"
    and c: "createUserVisibleFiles pl (abs_path T) f2 = (Inr (), f3)"
    and sw: "Write_switch goos (abs_path T) d ps old f3 = (r, f')"
    by (auto simp: Write_new_def split: prod.splits sum.splits)
  obtain ts where d: "d = abs_path (T @ [ts])" and ts: "fresh_ts (fs_nodes f) T ts"
    and t2: "touches (below T (fresh_ts (fs_nodes f) T)) f f2"
    using new_version_ok [OF inv fl rs m wd] by metis
  have p: "plain (fs_nodes f) T" using inv by (simp add: writer_inv_def)
  have p2: "plain (fs_nodes f2) T" by (rule plain_below [OF p t2])
  have t3: "touches (below T (names pl)) f2 f3"
    using createUserVisibleFiles_ok [OF p2 fl c] by (simp add: linked_ok_def)
  have "\<not> names pl newDataDirName" using flat_name [OF fl] visible_nameD(3) by blast
  then have l3: "look (fs_nodes f3) (T @ [newDataDirName]) \<noteq> None"
    using nd touches_look [OF t2, of "T @ [newDataDirName]"] touches_look [OF t3, of "T @ [newDataDirName]"]
    by (simp add: fresh_ts_def ts_name_def)
  have tsn: "ts_name ts" using ts by (simp add: fresh_ts_def)
  have J: "Join [abs_path T, newDataDirName] = abs_path (T @ [newDataDirName])"
    "Base (abs_path (T @ [ts])) = ts"
    using plain_names [OF p] ts_nameD(1) [OF tsn] by (simp_all add: Join_abs_path Base_abs)
  obtain r4 f4 where s: "Symlink ts (abs_path (T @ [newDataDirName])) f3 = (r4, f4)" by fastforce
  from Symlink_entry(1) [OF plain_below [OF p2 t3] reserved_names(2) s] l3
  have "isl r4" by (auto simp: made_def split: if_splits)
  with sw d J s have "isl r" by (cases r4) (auto simp: Write_switch_def split: prod.splits)
  with \<open>\<not> isl r\<close> show False by simp
qed

section \<open>Paths stay below the target directory\<close>

definition kept :: "string list \<Rightarrow> string list" where
  "kept cs = filter (\<lambda>c. c \<noteq> [] \<and> c \<noteq> ''.'') cs"

lemma fold_clean_kept:
  "''..'' \<notin> set cs \<Longrightarrow> fold (clean_step r) cs st = rev (kept cs) @ st"
  by (induction cs arbitrary: st) (auto simp: clean_step_def kept_def)

lemma kept_names: "''..'' \<notin> set (Split slash p) \<Longrightarrow> names_ok (kept (Split slash p))"
  using Split_items by (auto simp: names_ok_def name_ok_def kept_def)

lemma Clean_kept:
  assumes "\<not> IsAbs p" and "''..'' \<notin> set (Split slash p)"
  shows "Clean p = (if kept (Split slash p) = [] then ''.'' else join_path (kept (Split slash p)))"
  using assms kept_names [OF assms(2)] join_path_not_Nil
  by (simp add: Clean_def clean_elems_def fold_clean_kept Let_def)

lemma Join_abs_rel:
  assumes "names_ok T" and "names_ok q" and "q \<noteq> []"
  shows "Join [abs_path T, join_path q] = abs_path (T @ q)"
proof -
  have "Split slash (join_path q) = q"
    using assms by (intro Split_join) (auto simp: names_ok_def name_ok_def)
  then have "Split slash (abs_path T @ slash # join_path q) = [] # (if T = [] then [[]] else T) @ q"
    using assms(1) by (simp add: Split_append_slash Split_abs_path)
  moreover have "clean_elems True ([] # (if T = [] then [[]] else T) @ q) = T @ q"
    using assms clean_elems_names [of "T @ q" True] by (auto simp: clean_elems_def)
  ultimately have "Clean (abs_path T @ slash # join_path q) = abs_path (T @ q)"
    by (simp add: Clean_def IsAbs_def abs_path_def Let_def)
  then show ?thesis by (simp add: Join_def abs_path_def)
qed

lemma Join_abs_dot:
  assumes "names_ok T" shows "Join [abs_path T, ''.''] = abs_path T"
proof -
  have "Split slash (abs_path T @ slash # ''.'') = [] # (if T = [] then [[]] else T) @ [''.'']"
    using assms by (simp add: Split_append_slash Split_abs_path Split_no_sep)
  moreover have "clean_elems True ([] # (if T = [] then [[]] else T) @ [''.'']) = T"
    using assms clean_elems_names [of T True] by (auto simp: clean_elems_def clean_step_def)
  ultimately have "Clean (abs_path T @ slash # ''.'') = abs_path T"
    by (simp add: Clean_def IsAbs_def abs_path_def Let_def)
  then show ?thesis by (simp add: Join_def abs_path_def)
qed

definition stays_below :: "fpath \<Rightarrow> string \<Rightarrow> bool" where
  "stays_below T k \<longleftrightarrow> (\<exists>q. names_ok q \<and> Join [abs_path T, k] = abs_path (T @ q))"

lemma validate_items_None: "validate_items cs = None \<Longrightarrow> ''..'' \<notin> set cs"
  by (induction cs) (auto split: if_splits)

lemma validatePath_below:
  assumes "names_ok T" and "validatePath p = None" shows "stays_below T (Clean p)"
proof -
  from assms(2) have p: "\<not> IsAbs p" "''..'' \<notin> set (Split slash p)"
    by (auto simp: validatePath_def Let_def dest: validate_items_None split: if_splits option.splits)
  note n = kept_names [OF p(2)] and c = Clean_kept [OF p]
  show ?thesis
  proof (cases "kept (Split slash p) = []")
    case True
    with c Join_abs_dot [OF assms(1)] show ?thesis
      unfolding stays_below_def by (intro exI [of _ "[]"]) simp
  next
    case False
    with c n Join_abs_rel [OF assms(1) n] show ?thesis unfolding stays_below_def by auto
  qed
qed

lemma validate_entries_below:
  assumes "names_ok T" and "validate_entries pl acc = Inr cp" and "\<And>k. k \<in> fst ` set acc \<Longrightarrow> stays_below T k"
  shows "\<forall>k \<in> fst ` set cp. stays_below T k"
  using assms(2,3)
proof (induction pl acc rule: validate_entries.induct)
  case (2 k fp rest acc)
  from 2(2) have v: "validatePath k = None"
    and r: "validate_entries rest (AList.update (Clean k) fp acc) = Inr cp"
    by (auto split: option.splits)
  from 2(1) [OF v r] show ?case
    using 2(3) validatePath_below [OF assms(1) v] by (auto simp: dom_update)
qed auto

section \<open>Claims\<close>

text \<open>
  C8. \<^verbatim>\<open>AtomicWriter.Write\<close> is atomic. Starting from a directory that the writer keeps, and
  whatever system calls fail, at every moment of the run and at its end \<^verbatim>\<open>..data\<close> is missing or
  a link to a complete hidden directory, and what it shows is the old version or exactly the
  payload. When \<^verbatim>\<open>Write\<close> returns nil it is exactly the payload.
\<close>

theorem write_atomic:
  assumes "writer_inv (fs_nodes f) T" and "flat pl" and "goos \<noteq> ''windows''"
    and "\<forall>r \<in> set rands. ts_name (stamp @ r)"
    and "Write goos stamp rands (abs_path T) pl f = (r, f')"
  shows "along (old_or_new (fs_nodes f) T pl) f f' \<and>
     (r = Inr () \<longrightarrow> shows_exactly (fs_nodes f') T pl)"
  using Write_safe [OF assms(1-3) _ assms(5)] assms(4) by (simp add: safe_run_def)

text \<open>
  C9. Without faults \<^verbatim>\<open>Write\<close> succeeds, every file of the payload can then be read under its name
  in the target directory, the names of the old version that are not in the payload are gone, and
  the directory is again one the next run can start from.
\<close>

theorem write_publishes:
  assumes "tidy (fs_nodes f) T" and "flat pl" and "goos \<noteq> ''windows''"
    and "\<forall>r \<in> set rands. ts_name (stamp @ r)"
    and "\<exists>r \<in> set rands. look (fs_nodes f) (T @ [stamp @ r]) = None"
    and "fs_faults f = []" and "linkable (fs_nodes f) T pl"
  shows "\<exists>f'. Write goos stamp rands (abs_path T) pl f = (Inr (), f') \<and> tidy (fs_nodes f') T \<and>
     (\<forall>(n, fp) \<in> set pl. ReadFile (abs_path (T @ [n])) f' = (Inr (content fp), f')) \<and>
     (\<forall>n. data_view (fs_nodes f) T n \<noteq> None \<and> \<not> names pl n \<longrightarrow> look (fs_nodes f') (T @ [n]) = None)"
proof -
  obtain r f' where w: "Write goos stamp rands (abs_path T) pl f = (r, f')" by fastforce
  have "r = Inr ()" using Write_run [OF assms(1-3) _ disjI2 [OF assms(5)] assms(6,7) w] assms(4) by blast
  with w have w': "Write goos stamp rands (abs_path T) pl f = (Inr (), f')" by simp
  note S = Write_success [OF assms(1-4,6,7) w']
  have "\<forall>(n, fp) \<in> set pl. ReadFile (abs_path (T @ [n])) f' = (Inr (content fp), f')" using S(3) by auto
  with w' S(1,4) show ?thesis by blast
qed


text \<open>
  C35. Every path of a payload that \<^verbatim>\<open>validatePayload\<close> accepts stays below the target directory:
  joined with it, it leads there through ordinary names only, with no \<^verbatim>\<open>..\<close> left.
\<close>

theorem validated_payload_stays_below:
  assumes "names_ok T" and "validatePayload pl = Inr cp" and "(k, fp) \<in> set cp"
  shows "\<exists>q. names_ok q \<and> Join [abs_path T, k] = abs_path (T @ q)"
  using validate_entries_below [OF assms(1) assms(2) [unfolded validatePayload_def]] assms(3)
  by (force simp: stays_below_def)

text \<open>
  The check that keeps the writer's own names out of a payload looks at the path before it is
  cleaned: \<^verbatim>\<open>..data\<close> is refused, \<^verbatim>\<open>./..data\<close> is accepted and becomes \<^verbatim>\<open>..data\<close>.
\<close>

lemma reserved_name_accepted:
  "validatePayload [(dataDirName, fp)] = Inl StartsWithDotDot \<and>
   validatePayload [(''./'' @ dataDirName, fp)] = Inr [(dataDirName, fp)]"
  by (simp add: validatePayload_def validatePath_def dataDirName_def Let_def IsAbs_def
      maxFileNameLength_def maxPathLength_def Clean_def clean_elems_def clean_step_def HasPrefix_def)

end
