(* ===== verification/Cert_Writer.thy ===== *)
theory Cert_Writer
  imports Cert_Generator Kube_Client Atomic_Update
begin

text \<open>
  \<^verbatim>\<open>internal/webhook/util/writer\<close>: \<^verbatim>\<open>EnsureCert\<close> makes sure that a valid certificate is stored, in
  a directory (\<^verbatim>\<open>fs.go\<close>) or in a secret (\<^verbatim>\<open>secret.go\<close>), through the common interface
  \<^verbatim>\<open>certReadWriter\<close> (\<^verbatim>\<open>certwriter.go\<close>).

  The state of a writer is the record \<open>host\<close>: the cluster, the file system, the random source, the
  generator and the names that the next calls of \<^verbatim>\<open>os.MkdirTemp\<close> try. A returned pair of a pointer
  and an error is a sum, since the callers look at the pointer only when the error is nil.
\<close>

section \<open>The common part\<close>

datatype cert_error =
    EmptyDNSName
  | NilReadWriter
  | NotFoundError errno
  | NotFoundInCluster api_error
  | AlreadyExistError api_error
  | GenerateError gen_error
  | OsError errno
  | ApiError api_error
  | WriteError write_error
  | MkdirFailed string
  | BadOptions string

fun isNotFound :: "cert_error \<Rightarrow> bool" where
  "isNotFound (NotFoundError e) = True"
| "isNotFound (NotFoundInCluster e) = True"
| "isNotFound _ = False"

fun isAlreadyExists :: "cert_error \<Rightarrow> bool" where
  "isAlreadyExists (AlreadyExistError e) = True"
| "isAlreadyExists _ = False"

definition CAKeyName :: string where
  "CAKeyName = ''ca-key.pem''"

definition CACertName :: string where
  "CACertName = ''ca-cert.pem''"

definition ServerKeyName :: string where
  "ServerKeyName = ''key.pem''"

definition ServerKeyName2 :: string where
  "ServerKeyName2 = ''tls.key''"

definition ServerCertName :: string where
  "ServerCertName = ''cert.pem''"

definition ServerCertName2 :: string where
  "ServerCertName2 = ''tls.crt''"

record 's certReadWriter =
  crw_read :: "'s \<Rightarrow> (cert_error + Artifacts) \<times> 's"
  crw_write :: "'s \<Rightarrow> (cert_error + Artifacts) \<times> 's"
  crw_overwrite :: "string \<Rightarrow> 's \<Rightarrow> (cert_error + Artifacts) \<times> 's"

definition validCert :: "('k, 'c, 'r) crypto \<Rightarrow> int \<Rightarrow> Artifacts \<Rightarrow> string \<Rightarrow> bool" where
  "validCert C now certs dnsName =
     (if art_Cert certs = None \<or> art_Key certs = None \<or> art_CACert certs = None then False
      else verify_pem C (bytes (art_Key certs)) (bytes (art_Cert certs)) (bytes (art_CACert certs))
        dnsName (AddDate C now 0 6 0))"

definition createIfNotExists :: "'s certReadWriter \<Rightarrow> 's \<Rightarrow> ((cert_error + Artifacts) \<times> bool) \<times> 's" where
  "createIfNotExists ch s =
     (case crw_read ch s of
        (r, s1) \<Rightarrow>
          if (case r of Inl err \<Rightarrow> isNotFound err | Inr _ \<Rightarrow> False) then
            (case crw_write ch s1 of
               (r2, s2) \<Rightarrow>
                 if (case r2 of Inl err \<Rightarrow> isAlreadyExists err | Inr _ \<Rightarrow> False) then
                   (case crw_read ch s2 of (r3, s3) \<Rightarrow> ((r3, True), s3))
                 else ((r2, True), s2))
          else ((r, False), s1))"

definition handleCommon ::
  "('k, 'c, 'r) crypto \<Rightarrow> int \<Rightarrow> string \<Rightarrow> 's certReadWriter option \<Rightarrow> 's \<Rightarrow>
   ((cert_error + Artifacts) \<times> bool) \<times> 's" where
  "handleCommon C now dnsName rw s =
     (if length dnsName = 0 then ((Inl EmptyDNSName, False), s)
      else
        (case rw of
           None \<Rightarrow> ((Inl NilReadWriter, False), s)
         | Some ch \<Rightarrow>
             (case createIfNotExists ch s of
                ((Inl err, changed), s1) \<Rightarrow> ((Inl err, changed), s1)
              | ((Inr certs, changed), s1) \<Rightarrow>
                  if \<not> validCert C now certs dnsName then
                    (case crw_overwrite ch (art_ResourceVersion certs) s1 of
                       (Inl err, s2) \<Rightarrow> ((Inl err, False), s2)
                     | (Inr certs, s2) \<Rightarrow> ((Inr certs, True), s2))
                  else ((Inr certs, changed), s1))))"

section \<open>The state of a writer\<close>

record ('w, 'r) host =
  h_kube :: 'w
  h_fs :: fs
  h_rand :: 'r
  h_gen :: SelfSignedCertGenerator
  h_temps :: "nat \<Rightarrow> string \<times> string list"

definition generate_in ::
  "('k, 'c, 'r) crypto \<Rightarrow> int \<Rightarrow> string \<Rightarrow> ('w, 'r) host \<Rightarrow> (cert_error + Artifacts) \<times> ('w, 'r) host" where
  "generate_in C now dnsName h =
     (case Generate C now (h_gen h) dnsName (h_rand h) of
        (Inl err, r) \<Rightarrow> (Inl (GenerateError err), h\<lparr>h_rand := r\<rparr>)
      | (Inr certs, r) \<Rightarrow> (Inr certs, h\<lparr>h_rand := r\<rparr>))"

section \<open>Certificates in a directory\<close>

definition filenames :: "string list" where
  "filenames = [CAKeyName, CACertName, ServerCertName, ServerCertName2, ServerKeyName, ServerKeyName2]"

fun ensureExist_files :: "string list \<Rightarrow> string \<Rightarrow> fs \<Rightarrow> (cert_error + unit) \<times> fs" where
  "ensureExist_files [] dir f = (Inr (), f)"
| "ensureExist_files (filename # rest) dir f =
     (case Stat (Join [dir, filename]) f of
        (Inr _, f1) \<Rightarrow> ensureExist_files rest dir f1
      | (Inl err, f1) \<Rightarrow> if IsNotExist err then (Inl (NotFoundError err), f1) else (Inl (OsError err), f1))"

definition ensureExist :: "string \<Rightarrow> fs \<Rightarrow> (cert_error + unit) \<times> fs" where
  "ensureExist dir f = ensureExist_files filenames dir f"

definition readFile :: "string \<Rightarrow> string \<Rightarrow> fs \<Rightarrow> (cert_error + string) \<times> fs" where
  "readFile dir n f =
     (case ReadFile (Join [dir, n]) f of (Inl err, f1) \<Rightarrow> (Inl (OsError err), f1) | (Inr d, f1) \<Rightarrow> (Inr d, f1))"

definition fs_read :: "string \<Rightarrow> fs \<Rightarrow> (cert_error + Artifacts) \<times> fs" where
  "fs_read dir f =
     (case ensureExist dir f of
        (Inl err, f1) \<Rightarrow> (Inl err, f1)
      | (Inr _, f1) \<Rightarrow>
     (case readFile dir CAKeyName f1 of
        (Inl err, f2) \<Rightarrow> (Inl err, f2)
      | (Inr caKeyBytes, f2) \<Rightarrow>
     (case readFile dir CACertName f2 of
        (Inl err, f3) \<Rightarrow> (Inl err, f3)
      | (Inr caCertBytes, f3) \<Rightarrow>
     (case readFile dir ServerCertName f3 of
        (Inl err, f4) \<Rightarrow> (Inl err, f4)
      | (Inr certBytes, f4) \<Rightarrow>
     (case readFile dir ServerKeyName f4 of
        (Inl err, f5) \<Rightarrow> (Inl err, f5)
      | (Inr keyBytes, f5) \<Rightarrow>
          (Inr \<lparr>art_Key = Some keyBytes, art_Cert = Some certBytes, art_CAKey = Some caKeyBytes,
             art_CACert = Some caCertBytes, art_ResourceVersion = []\<rparr>, f5))))))"

definition certToProjectionMap :: "Artifacts \<Rightarrow> payload" where
  "certToProjectionMap cert =
     [(CAKeyName, \<lparr>fp_Data = art_CAKey cert, fp_Mode = 438\<rparr>),
      (CACertName, \<lparr>fp_Data = art_CACert cert, fp_Mode = 438\<rparr>),
      (ServerCertName, \<lparr>fp_Data = art_Cert cert, fp_Mode = 438\<rparr>),
      (ServerCertName2, \<lparr>fp_Data = art_Cert cert, fp_Mode = 438\<rparr>),
      (ServerKeyName, \<lparr>fp_Data = art_Key cert, fp_Mode = 438\<rparr>),
      (ServerKeyName2, \<lparr>fp_Data = art_Key cert, fp_Mode = 438\<rparr>)]"

text \<open>One turn of the loop of \<^verbatim>\<open>prepareToWrite\<close>: its errors are only logged.\<close>

definition prepare_file :: "string \<Rightarrow> string \<Rightarrow> fs \<Rightarrow> fs" where
  "prepare_file dir n f =
     (let abspath = Join [dir, n] in
      case Stat abspath f of
        (r, f1) \<Rightarrow>
          if (case r of Inl err \<Rightarrow> IsNotExist err | Inr _ \<Rightarrow> False) then f1
          else
            (case Readlink abspath f1 of
               (Inr _, f2) \<Rightarrow> f2
             | (Inl err, f2) \<Rightarrow> snd (Remove abspath f2)))"

definition prepareToWrite :: "string \<Rightarrow> fs \<Rightarrow> (cert_error + unit) \<times> fs" where
  "prepareToWrite dir f =
     (case Stat dir f of
        (r, f1) \<Rightarrow>
          (case (case r of
                   Inr _ \<Rightarrow> (Inr (), f1)
                 | Inl err \<Rightarrow>
                     if IsNotExist err then
                       (case MkdirAll dir 511 f1 of
                          (Inl err, f2) \<Rightarrow> (Inl (MkdirFailed dir), f2) | (Inr _, f2) \<Rightarrow> (Inr (), f2))
                     else (Inl (OsError err), f1)) of
             (Inl err, f2) \<Rightarrow> (Inl err, f2)
           | (Inr _, f2) \<Rightarrow> (Inr (), fold (prepare_file dir) filenames f2)))"

definition WriteCertsToDir ::
  "string \<Rightarrow> string \<times> string list \<Rightarrow> string \<Rightarrow> Artifacts \<Rightarrow> fs \<Rightarrow> (cert_error + unit) \<times> fs" where
  "WriteCertsToDir goos temp dir certs f =
     (case prepareToWrite dir f of
        (Inl err, f1) \<Rightarrow> (Inl err, f1)
      | (Inr _, f1) \<Rightarrow>
          (case NewAtomicWriter dir f1 of
             (Inl err, f2) \<Rightarrow> (Inl (OsError err), f2)
           | (Inr targetDir, f2) \<Rightarrow>
               (case Write goos (fst temp) (snd temp) targetDir (certToProjectionMap certs) f2 of
                  (Inl err, f3) \<Rightarrow> (Inl (WriteError err), f3)
                | (Inr _, f3) \<Rightarrow> (Inr (), f3))))"

definition writeCertsToDir ::
  "string \<Rightarrow> string \<Rightarrow> Artifacts \<Rightarrow> ('w, 'r) host \<Rightarrow> (cert_error + unit) \<times> ('w, 'r) host" where
  "writeCertsToDir goos dir certs h =
     (case WriteCertsToDir goos (h_temps h 0) dir certs (h_fs h) of
        (r, f) \<Rightarrow> (r, h\<lparr>h_fs := f, h_temps := (\<lambda>n. h_temps h (Suc n))\<rparr>))"

definition doWrite ::
  "('k, 'c, 'r) crypto \<Rightarrow> int \<Rightarrow> string \<Rightarrow> string \<Rightarrow> string \<Rightarrow> ('w, 'r) host \<Rightarrow>
   (cert_error + Artifacts) \<times> ('w, 'r) host" where
  "doWrite C now goos path dnsName h =
     (case generate_in C now dnsName h of
        (Inl err, h1) \<Rightarrow> (Inl err, h1)
      | (Inr certs, h1) \<Rightarrow>
          (case writeCertsToDir goos path certs h1 of
             (Inl err, h2) \<Rightarrow> (Inl err, h2)
           | (Inr _, h2) \<Rightarrow> (Inr certs, h2)))"

definition fsCertWriter ::
  "('k, 'c, 'r) crypto \<Rightarrow> int \<Rightarrow> string \<Rightarrow> string \<Rightarrow> string \<Rightarrow> ('w, 'r) host certReadWriter" where
  "fsCertWriter C now goos path dnsName = \<lparr>
     crw_read = (\<lambda>h. case fs_read path (h_fs h) of (r, f) \<Rightarrow> (r, h\<lparr>h_fs := f\<rparr>)),
     crw_write = doWrite C now goos path dnsName,
     crw_overwrite = (\<lambda>_. doWrite C now goos path dnsName)\<rparr>"

text \<open>
  The options of the constructors. The generator is given by the state it starts in; without one the default, which
  has no CA, is taken. The generator of the writer in use is the field \<^const>\<open>h_gen\<close> of the host.
\<close>

definition new_generator :: SelfSignedCertGenerator where
  "new_generator = \<lparr>gen_caKey = None, gen_caCert = None\<rparr>"

record FSCertWriterOptions =
  fso_CertGenerator :: "SelfSignedCertGenerator option"
  fso_Path :: string

definition FSCertWriterOptions_setDefaults :: "FSCertWriterOptions \<Rightarrow> FSCertWriterOptions" where
  "FSCertWriterOptions_setDefaults ops =
     (if fso_CertGenerator ops = None then ops\<lparr>fso_CertGenerator := Some new_generator\<rparr> else ops)"

definition FSCertWriterOptions_validate :: "FSCertWriterOptions \<Rightarrow> cert_error option" where
  "FSCertWriterOptions_validate ops = (if length (fso_Path ops) = 0 then Some (BadOptions ''path'') else None)"

definition NewFSCertWriter :: "FSCertWriterOptions \<Rightarrow> ('w, 'r) host \<Rightarrow> (cert_error + FSCertWriterOptions) \<times> ('w, 'r) host" where
  "NewFSCertWriter ops h =
     (let ops = FSCertWriterOptions_setDefaults ops in
      case FSCertWriterOptions_validate ops of
        Some err \<Rightarrow> (Inl err, h)
      | None \<Rightarrow> (Inr ops, h\<lparr>h_gen := the (fso_CertGenerator ops)\<rparr>))"

definition fs_EnsureCert ::
  "('k, 'c, 'r) crypto \<Rightarrow> int \<Rightarrow> string \<Rightarrow> string \<Rightarrow> string \<Rightarrow> ('w, 'r) host \<Rightarrow>
   ((cert_error + Artifacts) \<times> bool) \<times> ('w, 'r) host" where
  "fs_EnsureCert C now goos path dnsName =
     handleCommon C now dnsName (Some (fsCertWriter C now goos path dnsName))"

section \<open>Certificates in a secret\<close>

definition certsToSecret :: "Artifacts \<Rightarrow> string \<times> string \<Rightarrow> Secret" where
  "certsToSecret certs sec =
     \<lparr>sec_Meta = zero_meta\<lparr>om_Namespace := fst sec, om_Name := snd sec\<rparr>,
      sec_Data = Some (fmap_of_list
        [(CAKeyName, art_CAKey certs), (CACertName, art_CACert certs),
         (ServerKeyName, art_Key certs), (ServerKeyName2, art_Key certs),
         (ServerCertName, art_Cert certs), (ServerCertName2, art_Cert certs)])\<rparr>"

definition secretToCerts :: "Secret \<Rightarrow> Artifacts" where
  "secretToCerts secret =
     (if sec_Data secret = None then
        \<lparr>art_Key = None, art_Cert = None, art_CAKey = None, art_CACert = None,
         art_ResourceVersion = om_ResourceVersion (sec_Meta secret)\<rparr>
      else
        \<lparr>art_Key = go_get None (sec_Data secret) ServerKeyName,
         art_Cert = go_get None (sec_Data secret) ServerCertName,
         art_CAKey = go_get None (sec_Data secret) CAKeyName,
         art_CACert = go_get None (sec_Data secret) CACertName,
         art_ResourceVersion = om_ResourceVersion (sec_Meta secret)\<rparr>)"

definition buildSecret ::
  "('k, 'c, 'r) crypto \<Rightarrow> int \<Rightarrow> string \<times> string \<Rightarrow> string \<Rightarrow> ('w, 'r) host \<Rightarrow>
   (cert_error + Secret \<times> Artifacts) \<times> ('w, 'r) host" where
  "buildSecret C now sec dnsName h =
     (case generate_in C now dnsName h of
        (Inl err, h1) \<Rightarrow> (Inl err, h1)
      | (Inr certs, h1) \<Rightarrow> (Inr (certsToSecret certs sec, certs), h1))"

definition secret_write ::
  "('k, 'c, 'r) crypto \<Rightarrow> int \<Rightarrow> 'w kube \<Rightarrow> string \<times> string \<Rightarrow> string \<Rightarrow> ('w, 'r) host \<Rightarrow>
   (cert_error + Artifacts) \<times> ('w, 'r) host" where
  "secret_write C now k sec dnsName h =
     (case buildSecret C now sec dnsName h of
        (Inl err, h1) \<Rightarrow> (Inl err, h1)
      | (Inr (secret, certs), h1) \<Rightarrow>
          (case CreateSecret k secret (h_kube h1) of
             (None, w) \<Rightarrow> (Inr certs, h1\<lparr>h_kube := w\<rparr>)
           | (Some err, w) \<Rightarrow>
               (Inl (if IsAlreadyExists err then AlreadyExistError err else ApiError err), h1\<lparr>h_kube := w\<rparr>)))"

definition secret_overwrite ::
  "('k, 'c, 'r) crypto \<Rightarrow> int \<Rightarrow> 'w kube \<Rightarrow> string \<times> string \<Rightarrow> string \<Rightarrow> string \<Rightarrow> ('w, 'r) host \<Rightarrow>
   (cert_error + Artifacts) \<times> ('w, 'r) host" where
  "secret_overwrite C now k sec dnsName resourceVersion h =
     (case buildSecret C now sec dnsName h of
        (Inl err, h1) \<Rightarrow> (Inl err, h1)
      | (Inr (secret, certs), h1) \<Rightarrow>
          (case UpdateSecret k
                  (secret\<lparr>sec_Meta := (sec_Meta secret)\<lparr>om_ResourceVersion := resourceVersion\<rparr>\<rparr>) (h_kube h1) of
             (None, w) \<Rightarrow> (Inr certs, h1\<lparr>h_kube := w\<rparr>)
           | (Some err, w) \<Rightarrow> (Inl (ApiError err), h1\<lparr>h_kube := w\<rparr>)))"

definition secret_read ::
  "'w kube \<Rightarrow> string \<times> string \<Rightarrow> ('w, 'r) host \<Rightarrow> (cert_error + Artifacts) \<times> ('w, 'r) host" where
  "secret_read k sec h =
     (case GetSecret k (fst sec) (snd sec) (h_kube h) of
        (Inl err, w) \<Rightarrow>
          (Inl (if IsNotFound err then NotFoundInCluster err else ApiError err), h\<lparr>h_kube := w\<rparr>)
      | (Inr secret, w) \<Rightarrow>
          (let certs = secretToCerts secret; h1 = h\<lparr>h_kube := w\<rparr> in
           (Inr certs,
            if art_CACert certs \<noteq> None \<and> art_CAKey certs \<noteq> None
            then h1\<lparr>h_gen := SetCA (art_CAKey certs) (art_CACert certs) (h_gen h1)\<rparr> else h1)))"

definition secretCertWriter ::
  "('k, 'c, 'r) crypto \<Rightarrow> int \<Rightarrow> 'w kube \<Rightarrow> string \<times> string \<Rightarrow> string \<Rightarrow> ('w, 'r) host certReadWriter" where
  "secretCertWriter C now k sec dnsName = \<lparr>
     crw_read = secret_read k sec,
     crw_write = secret_write C now k sec dnsName,
     crw_overwrite = secret_overwrite C now k sec dnsName\<rparr>"

record 'w SecretCertWriterOptions =
  sco_Clientset :: "'w kube option"
  sco_CertGenerator :: "SelfSignedCertGenerator option"
  sco_Secret :: "(string \<times> string) option"

definition SecretCertWriterOptions_setDefaults :: "'w SecretCertWriterOptions \<Rightarrow> 'w SecretCertWriterOptions" where
  "SecretCertWriterOptions_setDefaults ops =
     (if sco_CertGenerator ops = None then ops\<lparr>sco_CertGenerator := Some new_generator\<rparr> else ops)"

definition SecretCertWriterOptions_validate :: "'w SecretCertWriterOptions \<Rightarrow> cert_error option" where
  "SecretCertWriterOptions_validate ops =
     (if Option.is_none (sco_Clientset ops) then Some (BadOptions ''client'')
      else if Option.is_none (sco_Secret ops) then Some (BadOptions ''secret'') else None)"

definition NewSecretCertWriter ::
  "'w SecretCertWriterOptions \<Rightarrow> ('w, 'r) host \<Rightarrow> (cert_error + 'w SecretCertWriterOptions) \<times> ('w, 'r) host" where
  "NewSecretCertWriter ops h =
     (let ops = SecretCertWriterOptions_setDefaults ops in
      case SecretCertWriterOptions_validate ops of
        Some err \<Rightarrow> (Inl err, h)
      | None \<Rightarrow> (Inr ops, h\<lparr>h_gen := the (sco_CertGenerator ops)\<rparr>))"

lemmas writer_options_defs = NewFSCertWriter_def NewSecretCertWriter_def FSCertWriterOptions_setDefaults_def
  FSCertWriterOptions_validate_def SecretCertWriterOptions_setDefaults_def SecretCertWriterOptions_validate_def

definition secret_EnsureCert ::
  "('k, 'c, 'r) crypto \<Rightarrow> int \<Rightarrow> 'w kube \<Rightarrow> string \<times> string \<Rightarrow> string \<Rightarrow> ('w, 'r) host \<Rightarrow>
   ((cert_error + Artifacts) \<times> bool) \<times> ('w, 'r) host" where
  "secret_EnsureCert C now k sec dnsName =
     handleCommon C now dnsName (Some (secretCertWriter C now k sec dnsName))"

section \<open>What EnsureCert promises\<close>

text \<open>
  The interface between \<^verbatim>\<open>handleCommon\<close> and the two stores. \<open>stored\<close> is the certificate a store
  holds, \<open>good\<close> the states it works in, \<open>fresh\<close> what its generator makes; a store may fail to
  write, but what it says it has written it holds.
\<close>

definition same_cert :: "Artifacts \<Rightarrow> Artifacts \<Rightarrow> bool" where
  "same_cert a b \<longleftrightarrow> art_Key b = art_Key a \<and> art_Cert b = art_Cert a \<and>
     art_CAKey b = art_CAKey a \<and> art_CACert b = art_CACert a"

lemma same_cert_refl [simp]: "same_cert a a"
  by (simp add: same_cert_def)

lemma validCert_same: "same_cert a b \<Longrightarrow> validCert C now b dns = validCert C now a dns"
  by (simp add: same_cert_def validCert_def)

definition holds_cert :: "('s \<Rightarrow> Artifacts option) \<Rightarrow> 's \<Rightarrow> Artifacts \<Rightarrow> bool" where
  "holds_cert stored s a \<longleftrightarrow> (\<exists>b. stored s = Some b \<and> same_cert a b)"

text \<open>
  The contract of \<^verbatim>\<open>EnsureCert\<close> on the certificate that a store holds before and after: a stored
  certificate that is valid is returned and left alone, in every other case the result is a new one
  that is stored; and an error never comes from a store that holds a valid certificate.
\<close>

definition ensure_spec ::
  "(Artifacts \<Rightarrow> bool) \<Rightarrow> Artifacts option \<Rightarrow> (cert_error + Artifacts) \<times> bool \<Rightarrow> Artifacts option \<Rightarrow> bool" where
  "ensure_spec valid before res after \<longleftrightarrow>
     (case before of
        Some b \<Rightarrow> (if valid b then res = (Inr b, False) \<and> after = Some b
          else (\<forall>a. fst res = Inr a \<longrightarrow> snd res \<and> valid a \<and> (\<exists>b'. after = Some b' \<and> same_cert a b')))
      | None \<Rightarrow> (\<forall>a. fst res = Inr a \<longrightarrow> snd res \<and> valid a \<and> (\<exists>b'. after = Some b' \<and> same_cert a b')))"

locale cert_store =
  fixes rw :: "'s certReadWriter"
    and stored :: "'s \<Rightarrow> Artifacts option"
    and good :: "'s \<Rightarrow> bool"
    and fresh :: "Artifacts \<Rightarrow> bool"
  assumes read_some: "good s \<Longrightarrow> stored s = Some a \<Longrightarrow>
      \<exists>s'. crw_read rw s = (Inr a, s') \<and> good s' \<and> stored s' = Some a"
    and read_none: "good s \<Longrightarrow> stored s = None \<Longrightarrow>
      \<exists>e s'. crw_read rw s = (Inl e, s') \<and> isNotFound e \<and> good s' \<and> stored s' = None"
    and write_holds: "good s \<Longrightarrow> stored s = None \<Longrightarrow> crw_write rw s = (Inr a, s') \<Longrightarrow>
      fresh a \<and> good s' \<and> holds_cert stored s' a"
    and write_no_race: "good s \<Longrightarrow> stored s = None \<Longrightarrow> crw_write rw s = (Inl e, s') \<Longrightarrow> \<not> isAlreadyExists e"
    and overwrite_holds: "good s \<Longrightarrow> stored s = Some b \<Longrightarrow> rv = [] \<or> rv = art_ResourceVersion b \<Longrightarrow>
      crw_overwrite rw rv s = (Inr a, s') \<Longrightarrow> fresh a \<and> good s' \<and> holds_cert stored s' a"
    and fresh_version: "fresh a \<Longrightarrow> art_ResourceVersion a = []"
begin

lemma created:
  assumes "good s" and "createIfNotExists rw s = ((Inr a, changed), s1)"
  shows "good s1 \<and> holds_cert stored s1 a \<and>
     (\<exists>b. stored s1 = Some b \<and> (art_ResourceVersion a = [] \<or> art_ResourceVersion a = art_ResourceVersion b))"
proof (cases "stored s")
  case None
  from read_none [OF assms(1) None] obtain e s0 where r: "crw_read rw s = (Inl e, s0)" "isNotFound e"
    and s0: "good s0" "stored s0 = None" by blast
  obtain r2 s2 where w: "crw_write rw s0 = (r2, s2)" by fastforce
  have "\<not> (case r2 of Inl err \<Rightarrow> isAlreadyExists err | Inr _ \<Rightarrow> False)"
    using write_no_race [OF s0] w by (auto split: sum.split)
  with assms(2) r w have "crw_write rw s0 = (Inr a, s1)" by (auto simp: createIfNotExists_def)
  from write_holds [OF s0 this] fresh_version [of a] show ?thesis by (auto simp: holds_cert_def)
next
  case (Some b)
  from read_some [OF assms(1) Some] obtain s0 where "crw_read rw s = (Inr b, s0)" "good s0" "stored s0 = Some b"
    by blast
  with assms(2) show ?thesis by (auto simp: createIfNotExists_def holds_cert_def)
qed

lemma handled:
  assumes "good s" and fresh: "\<And>a. fresh a \<Longrightarrow> validCert C now a dns"
    and h: "handleCommon C now dns (Some rw) s = ((Inr a, changed), s')"
  shows "validCert C now a dns \<and> good s' \<and> holds_cert stored s' a"
proof -
  from h obtain certs ch s1 where c: "createIfNotExists rw s = ((Inr certs, ch), s1)"
    by (auto simp: handleCommon_def split: if_splits prod.splits sum.splits)
  from created [OF assms(1) c] obtain b where s1: "good s1" "holds_cert stored s1 certs" "stored s1 = Some b"
    and rv: "art_ResourceVersion certs = [] \<or> art_ResourceVersion certs = art_ResourceVersion b" by blast
  show ?thesis
  proof (cases "validCert C now certs dns")
    case True
    with h c s1 show ?thesis by (auto simp: handleCommon_def split: if_splits)
  next
    case False
    with h c have "crw_overwrite rw (art_ResourceVersion certs) s1 = (Inr a, s')"
      by (auto simp: handleCommon_def split: if_splits prod.splits sum.splits)
    with overwrite_holds [OF s1(1,3) rv] fresh show ?thesis by blast
  qed
qed

lemma settled:
  assumes "good s" and "stored s = Some b" and "validCert C now b dns" and "dns \<noteq> []"
  shows "\<exists>s'. handleCommon C now dns (Some rw) s = ((Inr b, False), s') \<and> good s' \<and> stored s' = Some b"
proof -
  from read_some [OF assms(1,2)] obtain s' where "crw_read rw s = (Inr b, s')" "good s'" "stored s' = Some b"
    by blast
  with assms(3,4) show ?thesis by (auto simp: handleCommon_def createIfNotExists_def)
qed

lemma renewed:
  assumes "good s" and bad: "\<And>b. stored s = Some b \<Longrightarrow> \<not> validCert C now b dns"
    and h: "handleCommon C now dns (Some rw) s = ((Inr a, changed), s')"
  shows changed
proof (cases "stored s")
  case None
  from read_none [OF assms(1) None] h show ?thesis
    by (auto simp: handleCommon_def createIfNotExists_def split: if_splits prod.splits sum.splits)
next
  case (Some b)
  from read_some [OF assms(1) Some] bad [OF Some] h show ?thesis
    by (auto simp: handleCommon_def createIfNotExists_def split: if_splits prod.splits sum.splits)
qed

lemma refines:
  assumes "good s" and "\<And>a. fresh a \<Longrightarrow> validCert C now a dns" and "dns \<noteq> []"
    and h: "handleCommon C now dns (Some rw) s = (res, s')"
  shows "ensure_spec (\<lambda>a. validCert C now a dns) (stored s) res (stored s')"
proof (cases "\<exists>b. stored s = Some b \<and> validCert C now b dns")
  case True
  then obtain b where b: "stored s = Some b" "validCert C now b dns" by blast
  from settled [OF assms(1) b assms(3)] h b show ?thesis by (auto simp: ensure_spec_def)
next
  case False
  have "snd res \<and> validCert C now a dns \<and> (\<exists>b'. stored s' = Some b' \<and> same_cert a b')" if "fst res = Inr a" for a
  proof -
    from that h have h': "handleCommon C now dns (Some rw) s = ((Inr a, snd res), s')" by (cases res) simp
    from handled [OF assms(1,2) h'] renewed [OF assms(1) _ h'] False show ?thesis by (auto simp: holds_cert_def)
  qed
  with False show ?thesis by (auto simp: ensure_spec_def split: option.split)
qed

end

section \<open>Generated certificates are valid\<close>

definition from_generator ::
  "('k, 'c, 'r) crypto \<Rightarrow> ('k, 'c) cert_view \<Rightarrow> int \<Rightarrow> string \<Rightarrow> Artifacts \<Rightarrow> bool" where
  "from_generator C V now dns a \<longleftrightarrow>
     (\<exists>cp r r'. given_ca_ok C V now cp \<and> Generate C now cp dns r = (Inr a, r'))"

lemma from_generator_fields:
  assumes "from_generator C V now dns a"
  shows "art_ResourceVersion a = []" "\<exists>k c ck cc. a = \<lparr>art_Key = Some k, art_Cert = Some c, art_CAKey = Some ck,
    art_CACert = Some cc, art_ResourceVersion = []\<rparr>"
proof -
  from assms obtain cp r r' where g: "Generate C now cp dns r = (Inr a, r')" by (auto simp: from_generator_def)
  from g show "\<exists>k c ck cc. a = \<lparr>art_Key = Some k, art_Cert = Some c, art_CAKey = Some ck,
    art_CACert = Some cc, art_ResourceVersion = []\<rparr>"
    unfolding Generate_def by (auto split: prod.splits sum.splits)
  then show "art_ResourceVersion a = []" by auto
qed

lemma from_generator_verdict:
  assumes "crypto_ok C V now" and "from_generator C V now dns a" and "dns \<noteq> []"
    and "\<And>t. ct_DNSNames t = cfg_DNSNames (server_config C dns) \<Longrightarrow>
      ct_IPAddresses t = cfg_IPs (server_config C dns) \<Longrightarrow> host_verdict C t dns = Some match"
  shows "validCert C now a dns \<longleftrightarrow> match"
proof -
  from assms(2) obtain cp r r' where g: "given_ca_ok C V now cp" "Generate C now cp dns r = (Inr a, r')"
    by (auto simp: from_generator_def)
  from from_generator_fields(2) [OF assms(2)] have "art_Cert a \<noteq> None" "art_Key a \<noteq> None" "art_CACert a \<noteq> None"
    by auto
  with Generate_verified [OF assms(1) g(1) assms(3) assms(4) g(2)] show ?thesis
    by (simp add: validCert_def del: not_None_eq)
qed

lemma from_generator_valid:
  assumes "crypto_ok C V now" and "from_generator C V now dns a" and "dns \<noteq> []"
  shows "host_supported C dns \<Longrightarrow> validCert C now a dns"
    and "ParseIP C (bare_host dns) = Some ip \<Longrightarrow> validCert C now a dns \<longleftrightarrow> bare_host dns = dns \<and> To4 C ip \<noteq> None"
proof -
  have net: "net_ok C" using assms(1) by (simp add: crypto_ok_def)
  show "host_supported C dns \<Longrightarrow> validCert C now a dns"
    using from_generator_verdict [OF assms host_of_config(1) [OF net]] by simp
  show "ParseIP C (bare_host dns) = Some ip \<Longrightarrow> validCert C now a dns \<longleftrightarrow> bare_host dns = dns \<and> To4 C ip \<noteq> None"
    using from_generator_verdict [OF assms host_of_config(2) [OF net]] by simp
qed

lemma generate_in_Inr:
  assumes "generate_in C now dns h = (Inr a, h')" and "given_ca_ok C V now (h_gen h)"
  shows "from_generator C V now dns a" and "\<exists>r. h' = h\<lparr>h_rand := r\<rparr>"
  using assms by (auto simp: generate_in_def from_generator_def split: prod.splits sum.splits)

lemma generate_in_Inl: "generate_in C now dns h = (Inl e, h') \<Longrightarrow> \<exists>g r. e = GenerateError g \<and> h' = h\<lparr>h_rand := r\<rparr>"
  by (auto simp: generate_in_def split: prod.splits sum.splits)

section \<open>The secret as a store\<close>

lemma certs_of_secret:
  "secretToCerts (certsToSecret a sec) =
     a\<lparr>art_ResourceVersion := []\<rparr>"
  by (simp add: secretToCerts_def certsToSecret_def go_get_def fmlookup_of_list zero_meta_def
      CAKeyName_def CACertName_def ServerKeyName_def ServerKeyName2_def ServerCertName_def ServerCertName2_def)

lemma secretToCerts_data:
  "sec_Data s = sec_Data s0 \<Longrightarrow> same_cert (secretToCerts s0) (secretToCerts s)"
  by (simp add: secretToCerts_def same_cert_def)

text \<open>The CA of a generated certificate may be given to the next generator.\<close>

definition ca_of :: "Artifacts \<Rightarrow> SelfSignedCertGenerator" where
  "ca_of a = \<lparr>gen_caKey = art_CAKey a, gen_caCert = art_CACert a\<rparr>"

lemma ca_of_same: "same_cert a b \<Longrightarrow> ca_of b = ca_of a"
  by (simp add: same_cert_def ca_of_def)

lemma SetCA_ca_of: "SetCA (art_CAKey a) (art_CACert a) g = ca_of a"
  by (cases g) (simp add: SetCA_def ca_of_def)

lemma from_generator_ca:
  assumes ok: "crypto_ok C V now" and f: "from_generator C V now dns a"
  shows "given_ca_ok C V now (ca_of a)"
  unfolding given_ca_ok_def
proof (intro allI impI)
  fix k ca
  assume v: "validCACert C now (ca_of a) = Some (k, ca)"
  from f obtain cp r r' where g: "given_ca_ok C V now cp" "Generate C now cp dns r = (Inr a, r')"
    by (auto simp: from_generator_def)
  from g(2) obtain sk sc r1 where s: "signing_pair C now cp r = (Inr (sk, sc), r1)"
    and a: "art_CACert a = Some (EncodeCertPEM C sc)"
    by (auto simp: Generate_def split: prod.splits sum.splits)
  have "ParseCertsPEM C (EncodeCertPEM C sc) = Inr [ca]"
    using validCACert_Some(4) [OF ok v] a by (simp add: ca_of_def bytes_def)
  moreover have pem: "pem_ok C V" using ok by (simp add: crypto_ok_def)
  then have "PemDecode C (EncodeCertPEM C sc) = Some (CertRaw C sc)" "ParseCertificate C (CertRaw C sc) = Inr sc"
    unfolding pem_ok_def EncodeCertPEM_def by blast+
  ultimately have "sc = ca" using pem unfolding pem_ok_def by blast
  with signing_pair_ok [OF ok g(1) s] show "cv_isCA V ca \<and> CertNotBefore C ca \<le> now" by simp
qed

locale secret_store =
  fixes C :: "('k, 'c, 'r) crypto" and V :: "('k, 'c) cert_view" and now :: int
    and k :: "'w kube" and v :: "'w kube_view" and sec :: "string \<times> string" and dns :: string
  assumes crypto: "crypto_ok C V now" and kube: "kube_ok k v"
begin

definition in_secret :: "('w, 'r) host \<Rightarrow> Artifacts option" where
  "in_secret h = map_option secretToCerts (kv_Secret v (h_kube h) sec)"

definition usable :: "('w, 'r) host \<Rightarrow> bool" where
  "usable h \<longleftrightarrow> given_ca_ok C V now (h_gen h) \<and>
     (\<forall>a. in_secret h = Some a \<longrightarrow> given_ca_ok C V now (ca_of a))"

lemma secret_stored:
  assumes "kv_Secret v w' = (kv_Secret v w)(sec \<mapsto> s')"
    and "sec_Data s' = sec_Data (certsToSecret a sec)" and f: "from_generator C V now dns a"
    and g: "given_ca_ok C V now (h_gen h)" and w: "h_kube h = w'"
  shows "usable h \<and> holds_cert in_secret h a"
proof -
  have st: "in_secret h = Some (secretToCerts s')" using assms(1) w by (simp add: in_secret_def)
  have "same_cert a (secretToCerts (certsToSecret a sec))" by (simp add: certs_of_secret same_cert_def)
  moreover have "same_cert (secretToCerts (certsToSecret a sec)) (secretToCerts s')"
    by (rule secretToCerts_data [OF assms(2)])
  ultimately have same: "same_cert a (secretToCerts s')" by (simp add: same_cert_def)
  have "given_ca_ok C V now (ca_of (secretToCerts s'))"
    using from_generator_ca [OF crypto f] ca_of_same [OF same] by simp
  with st same g show ?thesis by (auto simp: usable_def holds_cert_def)
qed

lemma secret_key: "om_Namespace (sec_Meta (certsToSecret a sec)) = fst sec" "om_Name (sec_Meta (certsToSecret a sec)) = snd sec"
  by (simp_all add: certsToSecret_def zero_meta_def)

end

sublocale secret_store \<subseteq> store: cert_store "secretCertWriter C now k sec dns" in_secret usable "from_generator C V now dns"
proof
  fix s a assume g: "usable s" and st: "in_secret s = Some a"
  then obtain secret where sc: "kv_Secret v (h_kube s) sec = Some secret" "a = secretToCerts secret"
    by (auto simp: in_secret_def)
  then have "GetSecret k (fst sec) (snd sec) (h_kube s) = (Inr secret, h_kube s)"
    by (simp add: kube_reads [OF kube])
  with g st sc show "\<exists>s'. crw_read (secretCertWriter C now k sec dns) s = (Inr a, s') \<and> usable s' \<and> in_secret s' = Some a"
    by (auto simp: secretCertWriter_def secret_read_def Let_def usable_def in_secret_def SetCA_ca_of)
next
  fix s assume g: "usable s" and st: "in_secret s = None"
  then have "GetSecret k (fst sec) (snd sec) (h_kube s) = (Inl (NotFound (snd sec)), h_kube s)"
    by (simp add: kube_reads [OF kube] in_secret_def)
  with g st show "\<exists>e s'. crw_read (secretCertWriter C now k sec dns) s = (Inl e, s') \<and> isNotFound e \<and> usable s' \<and> in_secret s' = None"
    by (simp add: secretCertWriter_def secret_read_def)
next
  fix s a s'
  assume g: "usable s" and st: "in_secret s = None"
    and w: "crw_write (secretCertWriter C now k sec dns) s = (Inr a, s')"
  from w obtain h1 w1 where gen: "generate_in C now dns s = (Inr a, h1)"
    and c: "CreateSecret k (certsToSecret a sec) (h_kube h1) = (None, w1)" "s' = h1\<lparr>h_kube := w1\<rparr>"
    by (auto simp: secretCertWriter_def secret_write_def buildSecret_def split: prod.splits sum.splits option.splits)
  have ga: "given_ca_ok C V now (h_gen s)" using g by (simp add: usable_def)
  note G = generate_in_Inr [OF gen ga]
  from G(2) st have none: "kv_Secret v (h_kube h1) (om_Namespace (sec_Meta (certsToSecret a sec)), om_Name (sec_Meta (certsToSecret a sec))) = None"
    by (auto simp: in_secret_def secret_key)
  obtain s0 w0 where "CreateSecret k (certsToSecret a sec) (h_kube h1) = (None, w0)"
    "sec_Data s0 = sec_Data (certsToSecret a sec)" "kv_Secret v w0 = (kv_Secret v (h_kube h1))(sec \<mapsto> s0)"
    by (rule kube_createSecret [OF kube none]) (simp add: secret_key)
  with c G ga show "from_generator C V now dns a \<and> usable s' \<and> holds_cert in_secret s' a"
    using secret_stored [of w0 "h_kube h1" s0 a s'] by auto
next
  fix s e s'
  assume g: "usable s" and st: "in_secret s = None"
    and w: "crw_write (secretCertWriter C now k sec dns) s = (Inl e, s')"
  have ga: "given_ca_ok C V now (h_gen s)" using g by (simp add: usable_def)
  show "\<not> isAlreadyExists e"
  proof (cases "generate_in C now dns s")
    case (Pair r h1)
    show ?thesis
    proof (cases r)
      case (Inl e')
      with Pair w generate_in_Inl [of C now dns s e' h1] show ?thesis
        by (auto simp: secretCertWriter_def secret_write_def buildSecret_def)
    next
      case (Inr a)
      with Pair have gen: "generate_in C now dns s = (Inr a, h1)" by simp
      from generate_in_Inr(2) [OF gen ga] st
      have none: "kv_Secret v (h_kube h1) (om_Namespace (sec_Meta (certsToSecret a sec)), om_Name (sec_Meta (certsToSecret a sec))) = None"
        by (auto simp: in_secret_def secret_key)
      obtain w0 where "CreateSecret k (certsToSecret a sec) (h_kube h1) = (None, w0)"
        by (rule kube_createSecret [OF kube none])
      with gen w show ?thesis by (simp add: secretCertWriter_def secret_write_def buildSecret_def)
    qed
  qed
next
  fix s b rv a s'
  assume g: "usable s" and st: "in_secret s = Some b" and rv: "rv = [] \<or> rv = art_ResourceVersion b"
    and w: "crw_overwrite (secretCertWriter C now k sec dns) rv s = (Inr a, s')"
  let ?s = "(certsToSecret a sec)\<lparr>sec_Meta := (sec_Meta (certsToSecret a sec))\<lparr>om_ResourceVersion := rv\<rparr>\<rparr>"
  from w obtain h1 w1 where gen: "generate_in C now dns s = (Inr a, h1)"
    and c: "UpdateSecret k ?s (h_kube h1) = (None, w1)" "s' = h1\<lparr>h_kube := w1\<rparr>"
    by (auto simp: secretCertWriter_def secret_overwrite_def buildSecret_def split: prod.splits sum.splits option.splits)
  have ga: "given_ca_ok C V now (h_gen s)" using g by (simp add: usable_def)
  note G = generate_in_Inr [OF gen ga]
  have key: "(om_Namespace (sec_Meta ?s), om_Name (sec_Meta ?s)) = sec" by (simp add: secret_key)
  from st obtain secret where sc: "kv_Secret v (h_kube s) sec = Some secret" "b = secretToCerts secret"
    by (auto simp: in_secret_def)
  with G(2) key have some: "kv_Secret v (h_kube h1) (om_Namespace (sec_Meta ?s), om_Name (sec_Meta ?s)) = Some secret"
    by auto
  have "om_ResourceVersion (sec_Meta ?s) = [] \<or> om_ResourceVersion (sec_Meta ?s) = om_ResourceVersion (sec_Meta secret)"
    using rv sc(2) by (auto simp: secretToCerts_def)
  from kube_updateSecret [OF kube some this] key obtain s0 w0 where "UpdateSecret k ?s (h_kube h1) = (None, w0)"
    "sec_Data s0 = sec_Data (certsToSecret a sec)" "kv_Secret v w0 = (kv_Secret v (h_kube h1))(sec \<mapsto> s0)"
    by (metis (no_types, lifting) Secret.select_convs(2) Secret.surjective Secret.update_convs(1))
  with c G ga show "from_generator C V now dns a \<and> usable s' \<and> holds_cert in_secret s' a"
    using secret_stored [of w0 "h_kube h1" s0 a s'] by auto
next
  show "from_generator C V now dns a \<Longrightarrow> art_ResourceVersion a = []" for a
    by (rule from_generator_fields(1))
qed

text \<open>What \<open>cert_store\<close> gives for the secret.\<close>

context secret_store
begin

lemmas secret_handled = store.handled
lemmas secret_refines = store.refines

end

text \<open>
  C16. What the generator makes is valid for the host it was made for (it passes \<^verbatim>\<open>validCert\<close>, six
  months ahead), whether its CA was kept or new, for every supported host: a well-formed DNS name,
  or an address with a four byte form. For an address, which a client may also write in square
  brackets, these are the only cases: a certificate made for an IPv6 address, or for any address in
  brackets, is never valid, since the text is put among the DNS names while an address is looked up
  among the addresses.
\<close>

theorem generated_cert_valid:
  assumes "crypto_ok C V now" and "given_ca_ok C V now cp" and "host \<noteq> []"
    and "Generate C now cp host r = (Inr a, r')"
  shows "(host_supported C host \<longrightarrow> validCert C now a host) \<and>
     (\<forall>ip. ParseIP C (bare_host host) = Some ip \<longrightarrow>
        (validCert C now a host \<longleftrightarrow> bare_host host = host \<and> To4 C ip \<noteq> None))"
proof -
  have "from_generator C V now host a" using assms(2,4) by (auto simp: from_generator_def)
  from from_generator_valid [OF assms(1) this assms(3)] show ?thesis by blast
qed

text \<open>
  C14. \<^verbatim>\<open>EnsureCert\<close> on the secret refines its contract \<open>ensure_spec\<close>: the certificate of the secret
  is returned and left alone when it is valid, and otherwise replaced by a valid one, for a host
  that is supported and a secret whose CA, if it passes for one, is a CA certificate in force.
\<close>

theorem secret_ensure_refines:
  assumes crypto: "crypto_ok C V now" and kube: "kube_ok k v"
    and ca: "given_ca_ok C V now (h_gen h)"
      "\<And>s. kv_Secret v (h_kube h) sec = Some s \<Longrightarrow> given_ca_ok C V now (ca_of (secretToCerts s))"
    and host: "dns \<noteq> []" "host_supported C dns"
    and run: "secret_EnsureCert C now k sec dns h = (res, h')"
  shows "ensure_spec (\<lambda>a. validCert C now a dns) (map_option secretToCerts (kv_Secret v (h_kube h) sec)) res
     (map_option secretToCerts (kv_Secret v (h_kube h') sec))"
proof -
  have st: "secret_store C V now k v" using crypto kube by unfold_locales
  have u: "secret_store.usable C V now v sec h"
    using ca by (auto simp: secret_store.usable_def [OF st] secret_store.in_secret_def [OF st])
  have v: "validCert C now a dns" if "from_generator C V now dns a" for a
    by (rule from_generator_valid(1) [OF crypto that host])
  have "handleCommon C now dns (Some (secretCertWriter C now k sec dns)) h = (res, h')"
    using run by (simp add: secret_EnsureCert_def)
  from secret_store.secret_refines [OF st u v host(1) this] show ?thesis
    by (simp add: secret_store.in_secret_def [OF st])
qed

end
