(* ===== verification/Cert_Dir.thy ===== *)
theory Cert_Dir
  imports Cert_Writer
begin

text \<open>
  The certificate directory as a certificate store: what \<^verbatim>\<open>prepareToWrite\<close>, \<^verbatim>\<open>WriteCertsToDir\<close>,
  \<^verbatim>\<open>ensureExist\<close> and \<^verbatim>\<open>read\<close> of \<^verbatim>\<open>fs.go\<close> do on a directory that the atomic writer keeps, and that
  they satisfy the laws of \<open>cert_store\<close>.
\<close>

section \<open>Looking at a visible name\<close>

lemma resolve_dangling:
  assumes "plain (fs_nodes f) T" and "name_ok n" "name_ok d"
    and "look (fs_nodes f) (T @ [n]) = Some (Link (d @ slash # n))" and "look (fs_nodes f) (T @ [d]) = None"
  shows "resolve True f (abs_path (T @ [n])) = Inl ENOENT"
proof -
  have s: "Split slash (d @ slash # n) = [d, n]"
    using assms(2,3) by (simp add: Split_append_sep Split_no_sep name_okD)
  have r: "\<not> IsAbs (d @ slash # n)"
    using assms(3) by (auto simp: IsAbs_def name_ok_def hd_append dest: hd_in_set)
  have "resolve True f (abs_path (T @ [n])) = walk 40 (fs_nodes f) T [n] True"
    by (rule resolve_abs_entry [OF assms(1,2)])
  also have "\<dots> = walk 39 (fs_nodes f) T [d, n] True"
    using assms(2,4) s r by (simp add: walk.simps name_ok_def)
  also have "\<dots> = Inl ENOENT" using assms(3,5) by (simp add: walk.simps name_ok_def)
  finally show ?thesis .
qed

definition linked_names :: "nodes \<Rightarrow> fpath \<Rightarrow> string list \<Rightarrow> bool" where
  "linked_names ns T xs \<longleftrightarrow>
     (\<forall>n \<in> set xs. look ns (T @ [n]) = None \<or> look ns (T @ [n]) = Some (visible_link n))"

lemma Stat_visible:
  assumes t: "tidy (fs_nodes f) T" and ff: "fs_faults f = []" and n: "visible_name n"
    and l: "look (fs_nodes f) (T @ [n]) = None \<or> look (fs_nodes f) (T @ [n]) = Some (visible_link n)"
  shows "Stat (abs_path (T @ [n])) f =
     (case data_view (fs_nodes f) T n of None \<Rightarrow> Inl ENOENT | Some y \<Rightarrow> Inr y, f)"
proof -
  have inv: "writer_inv (fs_nodes f) T" using t by (simp add: tidy_def)
  have p: "plain (fs_nodes f) T" using inv by (simp add: writer_inv_def)
  note no = visible_nameD(1) [OF n]
  show ?thesis
  proof (cases "look (fs_nodes f) (T @ [n])")
    case None
    then have "data_view (fs_nodes f) T n = None" using t by (cases "data_view (fs_nodes f) T n") (auto simp: tidy_def)
    moreover have "resolve True f (abs_path (T @ [n])) = Inr (T @ [n])"
      by (rule resolve_entry(2) [OF p no]) (simp add: None)
    ultimately show ?thesis using None by (simp add: Stat_def at_node_run [OF ff])
  next
    case (Some y)
    with l have y: "look (fs_nodes f) (T @ [n]) = Some (Link (dataDirName @ slash # n))"
      by (auto simp: visible_link_def)
    show ?thesis
    proof (cases "look (fs_nodes f) (T @ [dataDirName])")
      case None
      have "resolve True f (abs_path (T @ [n])) = Inl ENOENT"
        by (rule resolve_dangling [OF p no reserved_names(1) y None])
      with None ff show ?thesis by (simp add: Stat_def at_node_def syscall_def data_view_def)
    next
      case (Some z)
      with inv obtain ts where d: "look (fs_nodes f) (T @ [dataDirName]) = Some (Link ts)"
        by (auto simp: writer_inv_def split: node.splits)
      note o = inv_old [OF inv d]
      from o(3) obtain md where md: "look (fs_nodes f) (T @ [ts]) = Some (Dir md)" by (auto simp: data_dir_def)
      have "resolve True f (abs_path (T @ [n])) = Inr (T @ [ts, n])"
        by (rule resolve_through [OF p no reserved_names(1) ts_nameD(1) [OF o(1)] y d md])
          (use data_dir_entry(2) [OF o(3), of n] in auto)
      with d show ?thesis by (simp add: Stat_def at_node_run [OF ff] data_view_def)
    qed
  qed
qed

lemma view_file:
  assumes "writer_inv ns T" and "data_view ns T n = Some y"
  shows "\<exists>d m. y = File d m"
proof -
  from assms obtain ts where ts: "look ns (T @ [dataDirName]) = Some (Link ts)" "look ns (T @ [ts, n]) = Some y"
    by (auto simp: data_view_def split: option.splits node.splits)
  from data_dir_entry(2) [OF inv_old(3) [OF assms(1) ts(1)] ts(2)] show ?thesis .
qed

section \<open>The six files\<close>

lemmas cert_names = CAKeyName_def CACertName_def ServerKeyName_def ServerKeyName2_def
  ServerCertName_def ServerCertName2_def

lemma filenames_visible: "n \<in> set filenames \<Longrightarrow> visible_name n"
  by (auto simp: filenames_def cert_names visible_name_def name_ok_def maxFileNameLength_def HasPrefix_def)

lemma cert_payload_flat: "flat (certToProjectionMap a)"
proof -
  have "fst ` set (certToProjectionMap a) = set filenames" by (auto simp: certToProjectionMap_def filenames_def)
  moreover have "distinct (map fst (certToProjectionMap a))" by (simp add: certToProjectionMap_def cert_names)
  ultimately show ?thesis using filenames_visible unfolding flat_def by blast
qed

lemma cert_payload_names: "names (certToProjectionMap a) n \<longleftrightarrow> n \<in> set filenames"
  by (auto simp: certToProjectionMap_def filenames_def)

definition file_data :: "node option \<Rightarrow> string" where
  "file_data y = (case y of Some (File d m) \<Rightarrow> d | _ \<Rightarrow> [])"

definition fs_certs :: "nodes \<Rightarrow> fpath \<Rightarrow> Artifacts option" where
  "fs_certs ns T =
     (if \<forall>n \<in> set filenames. data_view ns T n \<noteq> None then
        Some \<lparr>art_Key = Some (file_data (data_view ns T ServerKeyName)),
          art_Cert = Some (file_data (data_view ns T ServerCertName)),
          art_CAKey = Some (file_data (data_view ns T CAKeyName)),
          art_CACert = Some (file_data (data_view ns T CACertName)), art_ResourceVersion = []\<rparr>
      else None)"

text \<open>The states in which the directory works: no fault, tidy, and a certificate name is a link or free.\<close>

definition dir_ready :: "fs \<Rightarrow> fpath \<Rightarrow> bool" where
  "dir_ready f T \<longleftrightarrow> tidy (fs_nodes f) T \<and> fs_faults f = [] \<and> linked_names (fs_nodes f) T filenames"

lemma dir_ready_Stat:
  assumes "dir_ready f T" and "n \<in> set filenames"
  shows "Stat (Join [abs_path T, n]) f =
     (case data_view (fs_nodes f) T n of None \<Rightarrow> Inl ENOENT | Some y \<Rightarrow> Inr y, f)"
    and "Join [abs_path T, n] = abs_path (T @ [n])"
proof -
  have "names_ok T" using assms(1) by (auto simp: dir_ready_def tidy_def writer_inv_def dest: plain_names)
  then show J: "Join [abs_path T, n] = abs_path (T @ [n])"
    using visible_nameD(1) [OF filenames_visible [OF assms(2)]] by (rule Join_abs_path)
  show "Stat (Join [abs_path T, n]) f =
     (case data_view (fs_nodes f) T n of None \<Rightarrow> Inl ENOENT | Some y \<Rightarrow> Inr y, f)"
    unfolding J using assms filenames_visible [OF assms(2)]
    by (intro Stat_visible) (auto simp: dir_ready_def linked_names_def)
qed

lemma ensureExist_ready:
  assumes "dir_ready f T" and "set ns \<subseteq> set filenames"
  shows "ensureExist_files ns (abs_path T) f =
     (if \<forall>n \<in> set ns. data_view (fs_nodes f) T n \<noteq> None then (Inr (), f) else (Inl (NotFoundError ENOENT), f))"
  using assms(2)
proof (induction ns)
  case (Cons n ns)
  with dir_ready_Stat(1) [OF assms(1), of n] show ?case
    by (cases "data_view (fs_nodes f) T n") (simp_all add: IsNotExist_def)
qed simp

lemma readFile_ready:
  assumes r: "dir_ready f T" and n: "n \<in> set filenames" and v: "data_view (fs_nodes f) T n \<noteq> None"
  shows "readFile (abs_path T) n f = (Inr (file_data (data_view (fs_nodes f) T n)), f)"
proof -
  have inv: "writer_inv (fs_nodes f) T" and ff: "fs_faults f = []" using r by (simp_all add: dir_ready_def tidy_def)
  from v obtain y where y: "data_view (fs_nodes f) T n = Some y" by auto
  from view_file [OF inv y] obtain d m where d: "data_view (fs_nodes f) T n = Some (File d m)" using y by auto
  have "look (fs_nodes f) (T @ [n]) = Some (visible_link n)" using r v by (simp add: dir_ready_def tidy_def)
  from visible_read [OF inv filenames_visible [OF n] ff this d]
  show ?thesis using dir_ready_Stat(2) [OF r n] d by (simp add: readFile_def file_data_def)
qed

lemma fs_read_ready:
  assumes "dir_ready f T"
  shows "fs_read (abs_path T) f =
     (case fs_certs (fs_nodes f) T of None \<Rightarrow> Inl (NotFoundError ENOENT) | Some a \<Rightarrow> Inr a, f)"
proof (cases "\<forall>n \<in> set filenames. data_view (fs_nodes f) T n \<noteq> None")
  case True
  then have "readFile (abs_path T) n f = (Inr (file_data (data_view (fs_nodes f) T n)), f)" if "n \<in> set filenames" for n
    using readFile_ready [OF assms that] that by blast
  moreover have "CAKeyName \<in> set filenames" "CACertName \<in> set filenames" "ServerCertName \<in> set filenames" "ServerKeyName \<in> set filenames"
    by (simp_all add: filenames_def)
  ultimately show ?thesis
    using ensureExist_ready [OF assms subset_refl] True by (simp add: fs_read_def ensureExist_def fs_certs_def)
next
  case False
  then have "ensureExist_files filenames (abs_path T) f = (Inl (NotFoundError ENOENT), f)"
    "fs_certs (fs_nodes f) T = None"
    unfolding fs_certs_def ensureExist_ready [OF assms subset_refl] by (simp_all only: if_False)
  then show ?thesis by (simp add: fs_read_def ensureExist_def)
qed

section \<open>Writing\<close>

lemma prepare_file_ready:
  assumes r: "dir_ready f T" and n: "n \<in> set filenames"
  shows "prepare_file (abs_path T) n f = f"
proof (cases "data_view (fs_nodes f) T n")
  case None
  with dir_ready_Stat(1) [OF assms] show ?thesis by (simp add: prepare_file_def IsNotExist_def)
next
  case (Some y)
  have p: "plain (fs_nodes f) T" and ff: "fs_faults f = []" using r by (simp_all add: dir_ready_def tidy_def writer_inv_def)
  obtain r1 f1 where rl: "Readlink (abs_path (T @ [n])) f = (r1, f1)" by fastforce
  have "look (fs_nodes f) (T @ [n]) = Some (visible_link n)" using r Some by (simp add: dir_ready_def tidy_def)
  with Readlink_entry(4) [OF p visible_nameD(1) [OF filenames_visible [OF n]] rl ff]
  have "f1 = f" "\<not> isl r1" by (auto simp: visible_link_def)
  with Some rl dir_ready_Stat [OF assms] show ?thesis by (cases r1) (simp_all add: prepare_file_def)
qed

lemma prepareToWrite_ready:
  assumes "dir_ready f T" shows "prepareToWrite (abs_path T) f = (Inr (), f)"
proof -
  have p: "plain (fs_nodes f) T" and ff: "fs_faults f = []" using assms by (simp_all add: dir_ready_def tidy_def writer_inv_def)
  from p obtain m where "look (fs_nodes f) T = Some (Dir m)" unfolding plain_def by (metis append_Nil2)
  then have "Stat (abs_path T) f = (Inr (Dir m), f)"
    by (simp add: Stat_def at_node_run [OF ff resolve_plain(1) [OF p]])
  moreover have "fold (prepare_file (abs_path T)) ns f = f" if "set ns \<subseteq> set filenames" for ns
    using that by (induction ns) (simp_all add: prepare_file_ready [OF assms])
  ultimately show ?thesis by (simp add: prepareToWrite_def)
qed

lemma WriteCertsToDir_prepared:
  assumes r: "dir_ready f T"
  shows "WriteCertsToDir goos temp (abs_path T) a f =
     (case Write goos (fst temp) (snd temp) (abs_path T) (certToProjectionMap a) f of
        (Inl err, f1) \<Rightarrow> (Inl (WriteError err), f1) | (Inr _, f1) \<Rightarrow> (Inr (), f1))"
proof -
  have p: "plain (fs_nodes f) T" and ff: "fs_faults f = []" using r by (simp_all add: dir_ready_def tidy_def writer_inv_def)
  from p obtain m where m: "look (fs_nodes f) T = Some (Dir m)" unfolding plain_def by (metis append_Nil2)
  have "NewAtomicWriter (abs_path T) f = (Inr (abs_path T), f)"
    using m by (simp add: NewAtomicWriter_def Stat_def at_node_run [OF ff resolve_plain(1) [OF p]])
  then show ?thesis using prepareToWrite_ready [OF r] by (simp add: WriteCertsToDir_def)
qed

lemma WriteCertsToDir_ready:
  assumes r: "dir_ready f T" and os: "goos \<noteq> ''windows''"
    and rs: "\<forall>r \<in> set (snd temp). ts_name (fst temp @ r)"
    and w: "WriteCertsToDir goos temp (abs_path T) a f = (Inr (), f')"
  shows "dir_ready f' T"
    and "fs_certs (fs_nodes f') T = Some \<lparr>art_Key = Some (bytes (art_Key a)), art_Cert = Some (bytes (art_Cert a)),
      art_CAKey = Some (bytes (art_CAKey a)), art_CACert = Some (bytes (art_CACert a)), art_ResourceVersion = []\<rparr>"
    and "shows_exactly (fs_nodes f') T (certToProjectionMap a)"
proof -
  have t: "tidy (fs_nodes f) T" and ff: "fs_faults f = []" using r by (simp_all add: dir_ready_def)
  from w have w': "Write goos (fst temp) (snd temp) (abs_path T) (certToProjectionMap a) f = (Inr (), f')"
    by (auto simp: WriteCertsToDir_prepared [OF r] split: prod.splits sum.splits)
  have "linkable (fs_nodes f) T (certToProjectionMap a)"
    using r by (simp add: linkable_def cert_payload_names dir_ready_def linked_names_def)
  note S = Write_success [OF t cert_payload_flat os rs ff this w']
  show "dir_ready f' T"
    using S(1,2) S(6) by (simp add: dir_ready_def linked_names_def cert_payload_names)
  show sh: "shows_exactly (fs_nodes f') T (certToProjectionMap a)" by (rule S(5))
  have v: "\<exists>m. data_view (fs_nodes f') T n = Some (File (content fp) m)" if "(n, fp) \<in> set (certToProjectionMap a)" for n fp
    by (rule shows_exactly_Some [OF sh cert_payload_flat that])
  have c: "content \<lparr>fp_Data = b, fp_Mode = md\<rparr> = bytes b" for b md by (simp add: content_def bytes_def)
  have "\<exists>m. data_view (fs_nodes f') T CAKeyName = Some (File (bytes (art_CAKey a)) m)"
    "\<exists>m. data_view (fs_nodes f') T CACertName = Some (File (bytes (art_CACert a)) m)"
    "\<exists>m. data_view (fs_nodes f') T ServerCertName = Some (File (bytes (art_Cert a)) m)"
    "\<exists>m. data_view (fs_nodes f') T ServerCertName2 = Some (File (bytes (art_Cert a)) m)"
    "\<exists>m. data_view (fs_nodes f') T ServerKeyName = Some (File (bytes (art_Key a)) m)"
    "\<exists>m. data_view (fs_nodes f') T ServerKeyName2 = Some (File (bytes (art_Key a)) m)"
    by (rule v [where fp = "\<lparr>fp_Data = _, fp_Mode = 438\<rparr>", unfolded c], simp add: certToProjectionMap_def)+
  then show "fs_certs (fs_nodes f') T = Some \<lparr>art_Key = Some (bytes (art_Key a)), art_Cert = Some (bytes (art_Cert a)),
      art_CAKey = Some (bytes (art_CAKey a)), art_CACert = Some (bytes (art_CACert a)), art_ResourceVersion = []\<rparr>"
    by (auto simp: fs_certs_def file_data_def filenames_def)
qed

lemma WriteCertsToDir_runs:
  assumes r: "dir_ready f T" and os: "goos \<noteq> ''windows''"
    and rs: "\<forall>r \<in> set (snd temp). ts_name (fst temp @ r)"
    and free: "\<exists>r \<in> set (snd temp). look (fs_nodes f) (T @ [fst temp @ r]) = None"
  shows "\<exists>f'. WriteCertsToDir goos temp (abs_path T) a f = (Inr (), f')"
proof -
  have t: "tidy (fs_nodes f) T" and ff: "fs_faults f = []" using r by (simp_all add: dir_ready_def)
  have lk: "linkable (fs_nodes f) T (certToProjectionMap a)"
    using r by (simp add: linkable_def cert_payload_names dir_ready_def linked_names_def)
  obtain x f' where w: "Write goos (fst temp) (snd temp) (abs_path T) (certToProjectionMap a) f = (x, f')" by fastforce
  have "x = Inr ()" using Write_run [OF t cert_payload_flat os _ disjI2 [OF free] ff lk w] rs by blast
  with w WriteCertsToDir_prepared [OF r] show ?thesis by simp
qed

section \<open>The directory as a store\<close>

definition temps_ok :: "(nat \<Rightarrow> string \<times> string list) \<Rightarrow> bool" where
  "temps_ok t \<longleftrightarrow> (\<forall>i. \<forall>r \<in> set (snd (t i)). ts_name (fst (t i) @ r))"

locale cert_dir =
  fixes C :: "('k, 'c, 'r) crypto" and V :: "('k, 'c) cert_view" and now :: int
    and goos :: string and T :: fpath and dns :: string
  assumes crypto: "crypto_ok C V now" and os: "goos \<noteq> ''windows''"
begin

definition in_dir :: "('w, 'r) host \<Rightarrow> Artifacts option" where
  "in_dir h = fs_certs (fs_nodes (h_fs h)) T"

definition workable :: "('w, 'r) host \<Rightarrow> bool" where
  "workable h \<longleftrightarrow> dir_ready (h_fs h) T \<and> temps_ok (h_temps h) \<and> given_ca_ok C V now (h_gen h)"

lemma doWrite_stores:
  assumes g: "workable h" and w: "doWrite C now goos (abs_path T) dns h = (Inr a, h')"
  shows "from_generator C V now dns a \<and> workable h' \<and> holds_cert in_dir h' a"
proof -
  from w obtain h1 f1 where gen: "generate_in C now dns h = (Inr a, h1)"
    and wr: "WriteCertsToDir goos (h_temps h1 0) (abs_path T) a (h_fs h1) = (Inr (), f1)"
    and h': "h' = h1\<lparr>h_fs := f1, h_temps := (\<lambda>n. h_temps h1 (Suc n))\<rparr>"
    by (auto simp: doWrite_def writeCertsToDir_def split: prod.splits sum.splits)
  have ga: "given_ca_ok C V now (h_gen h)" using g by (simp add: workable_def)
  note G = generate_in_Inr [OF gen ga]
  from G(2) g have h1: "dir_ready (h_fs h1) T" "temps_ok (h_temps h1)" "given_ca_ok C V now (h_gen h1)"
    by (auto simp: workable_def)
  then have "\<forall>r \<in> set (snd (h_temps h1 0)). ts_name (fst (h_temps h1 0) @ r)" by (simp add: temps_ok_def)
  note W = WriteCertsToDir_ready [OF h1(1) os this wr]
  have "workable h'" using W(1) h1 h' by (simp add: workable_def temps_ok_def)
  moreover from from_generator_fields(2) [OF G(1)] W(2) h' have "holds_cert in_dir h' a"
    by (auto simp: holds_cert_def in_dir_def same_cert_def bytes_def)
  ultimately show ?thesis using G(1) by blast
qed

lemma doWrite_error:
  assumes "doWrite C now goos (abs_path T) dns h = (Inl e, h')" shows "\<not> isAlreadyExists e"
proof (rule ccontr)
  assume "\<not> \<not> isAlreadyExists e"
  then obtain x where e: "e = AlreadyExistError x" by (cases e) auto
  from assms e show False
    by (auto simp: doWrite_def writeCertsToDir_def WriteCertsToDir_def prepareToWrite_def generate_in_def
        split: prod.splits sum.splits if_splits)
qed

end

sublocale cert_dir \<subseteq> dir: cert_store "fsCertWriter C now goos (abs_path T) dns" in_dir workable "from_generator C V now dns"
proof
  fix s a assume g: "workable s" and st: "in_dir s = Some a"
  then have "fs_read (abs_path T) (h_fs s) = (Inr a, h_fs s)"
    using fs_read_ready [of "h_fs s" T] by (simp add: workable_def in_dir_def)
  with g st show "\<exists>s'. crw_read (fsCertWriter C now goos (abs_path T) dns) s = (Inr a, s') \<and> workable s' \<and> in_dir s' = Some a"
    by (simp add: fsCertWriter_def workable_def in_dir_def)
next
  fix s assume g: "workable s" and st: "in_dir s = None"
  then have "fs_read (abs_path T) (h_fs s) = (Inl (NotFoundError ENOENT), h_fs s)"
    using fs_read_ready [of "h_fs s" T] by (simp add: workable_def in_dir_def)
  with g st show "\<exists>e s'. crw_read (fsCertWriter C now goos (abs_path T) dns) s = (Inl e, s') \<and> isNotFound e \<and> workable s' \<and> in_dir s' = None"
    by (simp add: fsCertWriter_def workable_def in_dir_def)
next
  show "crw_write (fsCertWriter C now goos (abs_path T) dns) s = (Inr a, s') \<Longrightarrow>
      from_generator C V now dns a \<and> workable s' \<and> holds_cert in_dir s' a" if "workable s" for s a s'
    using doWrite_stores [OF that] by (simp add: fsCertWriter_def)
  show "crw_write (fsCertWriter C now goos (abs_path T) dns) s = (Inl e, s') \<Longrightarrow> \<not> isAlreadyExists e" for s e s'
    using doWrite_error by (simp add: fsCertWriter_def)
  show "crw_overwrite (fsCertWriter C now goos (abs_path T) dns) rv s = (Inr a, s') \<Longrightarrow>
      from_generator C V now dns a \<and> workable s' \<and> holds_cert in_dir s' a" if "workable s" for s a s' rv
    using doWrite_stores [OF that] by (simp add: fsCertWriter_def)
  show "from_generator C V now dns a \<Longrightarrow> art_ResourceVersion a = []" for a
    by (rule from_generator_fields(1))
qed

text \<open>What \<open>cert_store\<close> gives for the directory.\<close>

context cert_dir
begin

lemmas dir_handled = dir.handled
lemmas dir_refines = dir.refines

end

text \<open>
  C29. Certificates survive the directory: what \<^verbatim>\<open>WriteCertsToDir\<close> has written to a directory that
  the writer keeps, \<^verbatim>\<open>read\<close> returns byte for byte.
\<close>

theorem certs_dir_roundtrip:
  assumes "dir_ready f T" and "goos \<noteq> ''windows''" and "\<forall>r \<in> set (snd temp). ts_name (fst temp @ r)"
    and "WriteCertsToDir goos temp (abs_path T) a f = (Inr (), f')"
  shows "fs_read (abs_path T) f' = (Inr \<lparr>art_Key = Some (bytes (art_Key a)), art_Cert = Some (bytes (art_Cert a)),
      art_CAKey = Some (bytes (art_CAKey a)), art_CACert = Some (bytes (art_CACert a)), art_ResourceVersion = []\<rparr>, f')"
proof -
  note W = WriteCertsToDir_ready [OF assms]
  from fs_read_ready [OF W(1)] W(2) show ?thesis by simp
qed

text \<open>
  C15. \<^verbatim>\<open>EnsureCert\<close> on the directory refines the same contract, for a supported host and the certificate
  that the visible files of the directory hold.
\<close>

theorem dir_ensure_refines:
  assumes crypto: "crypto_ok C V now" and os: "goos \<noteq> ''windows''"
    and T: "dir_ready (h_fs h) T" "temps_ok (h_temps h)" and ca: "given_ca_ok C V now (h_gen h)"
    and host: "dns \<noteq> []" "host_supported C dns"
    and run: "fs_EnsureCert C now goos (abs_path T) dns h = (res, h')"
  shows "ensure_spec (\<lambda>a. validCert C now a dns) (fs_certs (fs_nodes (h_fs h)) T) res
     (fs_certs (fs_nodes (h_fs h')) T)"
proof -
  have st: "cert_dir C V now goos" using crypto os by unfold_locales
  have u: "cert_dir.workable C V now T h" using T ca by (simp add: cert_dir.workable_def [OF st])
  have v: "validCert C now a dns" if "from_generator C V now dns a" for a
    by (rule from_generator_valid(1) [OF crypto that host])
  have "handleCommon C now dns (Some (fsCertWriter C now goos (abs_path T) dns)) h = (res, h')"
    using run by (simp add: fs_EnsureCert_def)
  from cert_dir.dir_refines [OF st u v host(1) this] show ?thesis
    by (simp add: cert_dir.in_dir_def [OF st])
qed

end
