(* ===== verification/Webhook_Controller.thy ===== *)
theory Webhook_Controller
  imports Webhook_Config Cert_Dir
begin

text \<open>
  \<^verbatim>\<open>internal/webhook/util/controller/webhook_controller.go\<close>: one work item, whose processing makes
  sure that a valid certificate is stored, is in the certificate directory, and is named by the
  webhook configurations. The state is the writers' \<open>host\<close>, the channel \<^verbatim>\<open>uninit\<close> and the
  \<^verbatim>\<open>sync.Once\<close> that closes it. client-go's work queue is a parameter, the record \<open>workqueue\<close>.
  The clock is read once per run.
\<close>

section \<open>State\<close>

datatype sync_error = EnsureCertsError cert_error | WriteCertsError cert_error | EnsureConfigError config_error

record ('w, 'r) controller =
  ctl_host :: "('w, 'r) host"
  onceInit :: bool
  uninit_closed :: bool

text \<open>\<^verbatim>\<open>close\<close> of a closed channel panics.\<close>

definition onceInit_Do :: "('w, 'r) controller \<Rightarrow> (sync_error, unit) result \<times> ('w, 'r) controller" where
  "onceInit_Do s =
     (if onceInit s then (Ok (), s)
      else if uninit_closed s then (Panic, s\<lparr>onceInit := True\<rparr>)
      else (Ok (), s\<lparr>onceInit := True, uninit_closed := True\<rparr>))"

section \<open>sync\<close>

definition FsCertWriter :: string where
  "FsCertWriter = ''fs''"

definition sync_dnsName :: "env \<Rightarrow> string" where
  "sync_dnsName env =
     (if length (GetHost env) = 0 then ServiceToCommonName (GetNamespace env) (GetServiceName env)
      else GetHost env)"

definition uses_fs :: "env \<Rightarrow> bool" where
  "uses_fs env \<longleftrightarrow> GetCertWriter env = FsCertWriter \<or>
     length (GetCertWriter env) = 0 \<and> length (GetHost env) \<noteq> 0"

text \<open>The certificate, by the writer that the environment selects.\<close>

definition sync_ensureCert ::
  "env \<Rightarrow> ('k, 'c, 'r) crypto \<Rightarrow> int \<Rightarrow> string \<Rightarrow> 'w kube \<Rightarrow> ('w, 'r) host \<Rightarrow>
   (cert_error + Artifacts) \<times> ('w, 'r) host" where
  "sync_ensureCert env C now goos k h =
     (if uses_fs env then
        (case NewFSCertWriter \<lparr>fso_CertGenerator = None, fso_Path = GetCertDir env\<rparr> h of
           (Inl err, h1) \<Rightarrow> (Inl err, h1)
         | (Inr _, h1) \<Rightarrow>
             (case fs_EnsureCert C now goos (GetCertDir env) (sync_dnsName env) h1 of ((r, _), h2) \<Rightarrow> (r, h2)))
      else
        (case NewSecretCertWriter \<lparr>sco_Clientset = Some k, sco_CertGenerator = None,
            sco_Secret = Some (GetNamespace env, GetSecretName env)\<rparr> h of
           (Inl err, h1) \<Rightarrow> (Inl err, h1)
         | (Inr _, h1) \<Rightarrow>
             (case secret_EnsureCert C now k (GetNamespace env, GetSecretName env) (sync_dnsName env) h1 of
                ((r, _), h2) \<Rightarrow> (r, h2))))"

definition sync ::
  "env \<Rightarrow> config_codec \<Rightarrow> ('k, 'c, 'r) crypto \<Rightarrow> int \<Rightarrow> string \<Rightarrow> 'w kube \<Rightarrow> 'h gomap \<Rightarrow> ('w, 'r) controller \<Rightarrow>
   (sync_error, unit) result \<times> ('w, 'r) controller" where
  "sync env cd C now goos k handlers s =
     (case sync_ensureCert env C now goos k (ctl_host s) of
        (Inl err, h1) \<Rightarrow> (Fail (EnsureCertsError err), s\<lparr>ctl_host := h1\<rparr>)
      | (Inr certs, h1) \<Rightarrow>
          (case writeCertsToDir goos (GetCertDir env) certs h1 of
             (Inl err, h2) \<Rightarrow> (Fail (WriteCertsError err), s\<lparr>ctl_host := h2\<rparr>)
           | (Inr _, h2) \<Rightarrow>
               (case Ensure env cd k handlers (art_CACert certs) (h_kube h2) of
                  (Ok _, w) \<Rightarrow> onceInit_Do (s\<lparr>ctl_host := h2\<lparr>h_kube := w\<rparr>\<rparr>)
                | (Fail err, w) \<Rightarrow> (Fail (EnsureConfigError err), s\<lparr>ctl_host := h2\<lparr>h_kube := w\<rparr>\<rparr>)
                | (Panic, w) \<Rightarrow> (Panic, s\<lparr>ctl_host := h2\<lparr>h_kube := w\<rparr>\<rparr>)
                | (Exit, w) \<Rightarrow> (Exit, s\<lparr>ctl_host := h2\<lparr>h_kube := w\<rparr>\<rparr>))))"

section \<open>The queue\<close>

record 'q workqueue =
  wq_Add :: "string \<Rightarrow> 'q \<Rightarrow> 'q"
  wq_Get :: "'q \<Rightarrow> (string \<times> bool) \<times> 'q"
  wq_Done :: "string \<Rightarrow> 'q \<Rightarrow> 'q"
  wq_AddAfter :: "string \<Rightarrow> int \<Rightarrow> 'q \<Rightarrow> 'q"
  wq_Forget :: "string \<Rightarrow> 'q \<Rightarrow> 'q"
  wq_AddRateLimited :: "string \<Rightarrow> 'q \<Rightarrow> 'q"

definition defaultResyncPeriod :: int where
  "defaultResyncPeriod = 60"

text \<open>The deferred \<^verbatim>\<open>Done\<close> runs on a panic too, and does not when the process ends.\<close>

definition processNextWorkItem ::
  "'q workqueue \<Rightarrow> ('s \<Rightarrow> (sync_error, unit) result \<times> 's) \<Rightarrow> 's \<times> 'q \<Rightarrow> (sync_error, bool) result \<times> ('s \<times> 'q)"
where
  "processNextWorkItem Q run sq =
     (case wq_Get Q (snd sq) of
        ((key, quit), q) \<Rightarrow>
          if quit then (Ok False, (fst sq, q))
          else
            (case run (fst sq) of
               (Ok _, s) \<Rightarrow>
                 (Ok True, (s, wq_Done Q key (wq_Forget Q key (wq_AddAfter Q key defaultResyncPeriod q))))
             | (Fail err, s) \<Rightarrow> (Ok True, (s, wq_Done Q key (wq_AddRateLimited Q key q)))
             | (Panic, s) \<Rightarrow> (Panic, (s, wq_Done Q key q))
             | (Exit, s) \<Rightarrow> (Exit, (s, q))))"

text \<open>
  The loop of \<^verbatim>\<open>Start\<close>: \<^verbatim>\<open>for c.processNextWorkItem() {}\<close>, at most \<open>n\<close> turns of it.
\<close>

fun work_items ::
  "nat \<Rightarrow> 'q workqueue \<Rightarrow> ('s \<Rightarrow> (sync_error, unit) result \<times> 's) \<Rightarrow> 's \<times> 'q \<Rightarrow> (sync_error, bool) result \<times> ('s \<times> 'q)"
where
  "work_items 0 Q run sq = (Ok True, sq)"
| "work_items (Suc n) Q run sq =
     (case processNextWorkItem Q run sq of
        (Ok True, sq1) \<Rightarrow> work_items n Q run sq1
      | (r, sq1) \<Rightarrow> (r, sq1))"

text \<open>The six event handlers that \<^verbatim>\<open>New\<close> installs; all add the same key.\<close>

definition secret_AddFunc :: "env \<Rightarrow> 'q workqueue \<Rightarrow> Secret \<Rightarrow> 'q \<Rightarrow> 'q" where
  "secret_AddFunc env Q obj q = (if om_Name (sec_Meta obj) = GetSecretName env then wq_Add Q [] q else q)"

definition secret_UpdateFunc :: "env \<Rightarrow> 'q workqueue \<Rightarrow> Secret \<Rightarrow> Secret \<Rightarrow> 'q \<Rightarrow> 'q" where
  "secret_UpdateFunc env Q old cur q = (if om_Name (sec_Meta cur) = GetSecretName env then wq_Add Q [] q else q)"

definition mutating_AddFunc :: "env \<Rightarrow> 'q workqueue \<Rightarrow> MutatingWebhookConfiguration \<Rightarrow> 'q \<Rightarrow> 'q" where
  "mutating_AddFunc env Q obj q =
     (if om_Name (mwc_Meta obj) = GetMutatingWebhookName env then wq_Add Q [] q else q)"

definition mutating_UpdateFunc ::
  "env \<Rightarrow> 'q workqueue \<Rightarrow> MutatingWebhookConfiguration \<Rightarrow> MutatingWebhookConfiguration \<Rightarrow> 'q \<Rightarrow> 'q" where
  "mutating_UpdateFunc env Q old cur q =
     (if om_Name (mwc_Meta cur) = GetMutatingWebhookName env then wq_Add Q [] q else q)"

definition validating_AddFunc :: "env \<Rightarrow> 'q workqueue \<Rightarrow> ValidatingWebhookConfiguration \<Rightarrow> 'q \<Rightarrow> 'q" where
  "validating_AddFunc env Q obj q =
     (if om_Name (vwc_Meta obj) = GetValidatingWebhookName env then wq_Add Q [] q else q)"

definition validating_UpdateFunc ::
  "env \<Rightarrow> 'q workqueue \<Rightarrow> ValidatingWebhookConfiguration \<Rightarrow> ValidatingWebhookConfiguration \<Rightarrow> 'q \<Rightarrow> 'q" where
  "validating_UpdateFunc env Q old cur q =
     (if om_Name (vwc_Meta cur) = GetValidatingWebhookName env then wq_Add Q [] q else q)"

section \<open>The channel is closed once\<close>

definition ctl_ok :: "('w, 'r) controller \<Rightarrow> bool" where
  "ctl_ok s \<longleftrightarrow> onceInit s = uninit_closed s"

text \<open>How a run ends, and what it leaves of the channel.\<close>

lemma sync_channel:
  assumes "ctl_ok s" and "sync env cd C now goos k handlers s = (r, s')"
  shows "ctl_ok s'" and "uninit_closed s' \<longleftrightarrow> uninit_closed s \<or> r = Ok ()"
    and "r = Panic \<Longrightarrow> \<exists>ca w w'. Ensure env cd k handlers ca w = (Panic, w')"
proof -
  note splits = prod.splits sum.splits result.splits if_splits
  show "ctl_ok s'" "uninit_closed s' \<longleftrightarrow> uninit_closed s \<or> r = Ok ()"
    using assms by (auto simp: sync_def onceInit_Do_def ctl_ok_def split: splits)
  show "\<exists>ca w w'. Ensure env cd k handlers ca w = (Panic, w')" if "r = Panic"
    using assms that by (auto simp: sync_def onceInit_Do_def ctl_ok_def split: splits)
qed

section \<open>A successful run\<close>

lemma new_generator_ok: "given_ca_ok C V now new_generator"
  by (simp add: given_ca_ok_def validCACert_def ValidCACert_def new_generator_def bytes_def)

lemma sync_dnsName_not_empty: "sync_dnsName env \<noteq> []"
  by (simp add: sync_dnsName_def ServiceToCommonName_def)

lemma sync_parts:
  assumes "sync env cd C now goos k handlers s = (Ok (), s')"
  obtains certs h1 h2 w where "sync_ensureCert env C now goos k (ctl_host s) = (Inr certs, h1)"
    "writeCertsToDir goos (GetCertDir env) certs h1 = (Inr (), h2)"
    "Ensure env cd k handlers (art_CACert certs) (h_kube h2) = (Ok (), w)"
    "ctl_host s' = h2\<lparr>h_kube := w\<rparr>"
  using assms
  by (auto simp: sync_def onceInit_Do_def split: prod.splits sum.splits result.splits if_splits)

lemma writeCertsToDir_parts:
  assumes "writeCertsToDir goos dir certs h1 = (Inr (), h2)"
  obtains f where "WriteCertsToDir goos (h_temps h1 0) dir certs (h_fs h1) = (Inr (), f)"
    "h2 = h1\<lparr>h_fs := f, h_temps := (\<lambda>n. h_temps h1 (Suc n))\<rparr>"
  using assms by (auto simp: writeCertsToDir_def split: prod.splits)

text \<open>What the operations of a store leave alone, \<^verbatim>\<open>EnsureCert\<close> leaves alone.\<close>

lemma handleCommon_frame:
  assumes "\<And>s. f (snd (crw_read rw s)) = f s" and "\<And>s. f (snd (crw_write rw s)) = f s"
    and "\<And>v s. f (snd (crw_overwrite rw v s)) = f s"
    and "handleCommon C now dns (Some rw) s = (r, s')"
  shows "f s' = f s"
proof -
  have step: "f s2 = f s1" if "crw_read rw s1 = (x, s2) \<or> crw_write rw s1 = (x, s2) \<or> crw_overwrite rw v s1 = (x, s2)"
    for s1 s2 x v using that assms(1,2) [of s1] assms(3) [of v s1] by auto
  have "f s2 = f s1" if "createIfNotExists rw s1 = (x, s2)" for s1 s2 x
    using that by (auto simp: createIfNotExists_def split: prod.splits if_splits) (metis step)+
  with assms(4) step show ?thesis
    by (auto simp: handleCommon_def split: prod.splits sum.splits if_splits) (metis step)+
qed

lemma generate_in_frame:
  "generate_in C now dns h = (r, h') \<Longrightarrow> h_fs h' = h_fs h \<and> h_temps h' = h_temps h \<and> h_kube h' = h_kube h"
  by (auto simp: generate_in_def split: prod.splits sum.splits)

lemma secret_writer_frame:
  assumes "handleCommon C now dns (Some (secretCertWriter C now k sec dns)) h = (r, h')"
  shows "h_fs h' = h_fs h" and "h_temps h' = h_temps h"
proof -
  note defs = secretCertWriter_def secret_read_def secret_write_def secret_overwrite_def buildSecret_def Let_def
  show "h_fs h' = h_fs h"
    by (rule handleCommon_frame [OF _ _ _ assms])
      (auto simp: defs dest!: generate_in_frame split: prod.split sum.split option.split)
  show "h_temps h' = h_temps h"
    by (rule handleCommon_frame [OF _ _ _ assms])
      (auto simp: defs dest!: generate_in_frame split: prod.split sum.split option.split)
qed

lemma secret_writer_configs:
  assumes "kube_ok k v" and "handleCommon C now dns (Some (secretCertWriter C now k sec dns)) h = (r, h')"
  shows "kv_MWC v (h_kube h') = kv_MWC v (h_kube h)" and "kv_VWC v (h_kube h') = kv_VWC v (h_kube h)"
proof -
  note defs = secretCertWriter_def secret_read_def secret_write_def secret_overwrite_def buildSecret_def Let_def
    kube_reads [OF assms(1)] found_def
  have c: "kv_MWC v w' = kv_MWC v w \<and> kv_VWC v w' = kv_VWC v w" if "CreateSecret k x w = (e, w')" for x w e w'
    using kube_secret_frame(1,2) [OF assms(1), of x w] that by simp
  have u: "kv_MWC v w' = kv_MWC v w \<and> kv_VWC v w' = kv_VWC v w" if "UpdateSecret k x w = (e, w')" for x w e w'
    using kube_secret_frame(3,4) [OF assms(1), of x w] that by simp
  show "kv_MWC v (h_kube h') = kv_MWC v (h_kube h)"
    by (rule handleCommon_frame [where f = "\<lambda>h. kv_MWC v (h_kube h)", OF _ _ _ assms(2)])
      (auto simp: defs dest!: generate_in_frame c u split: prod.split sum.split option.split)
  show "kv_VWC v (h_kube h') = kv_VWC v (h_kube h)"
    by (rule handleCommon_frame [where f = "\<lambda>h. kv_VWC v (h_kube h)", OF _ _ _ assms(2)])
      (auto simp: defs dest!: generate_in_frame c u split: prod.split sum.split option.split)
qed

lemma fs_writer_frame:
  assumes "handleCommon C now dns (Some (fsCertWriter C now goos dir dns)) h = (r, h')"
  shows "h_kube h' = h_kube h"
proof -
  have d: "h_kube (snd (doWrite C now goos dir dns s)) = h_kube s" for s
    by (auto simp: doWrite_def writeCertsToDir_def dest!: generate_in_frame split: prod.split sum.split)
  show ?thesis
    by (rule handleCommon_frame [OF _ _ _ assms])
      (auto simp: fsCertWriter_def d split: prod.split)
qed

text \<open>The certificate of a run that uses the secret.\<close>

definition secret_at :: "env \<Rightarrow> string \<times> string" where
  "secret_at env = (GetNamespace env, GetSecretName env)"

lemma ensureCert_secret:
  assumes kube: "kube_ok k v" and crypto: "crypto_ok C V now" and mode: "\<not> uses_fs env"
    and ca: "\<And>sec. kv_Secret v (h_kube h) (secret_at env) = Some sec \<Longrightarrow> given_ca_ok C V now (ca_of (secretToCerts sec))"
    and host: "host_supported C (sync_dnsName env)"
    and run: "sync_ensureCert env C now goos k h = (Inr certs, h1)"
  shows "validCert C now certs (sync_dnsName env)"
    and "\<exists>sec. kv_Secret v (h_kube h1) (secret_at env) = Some sec \<and> same_cert certs (secretToCerts sec)"
    and "h_fs h1 = h_fs h" and "h_temps h1 = h_temps h"
    and "kv_MWC v (h_kube h1) = kv_MWC v (h_kube h)" and "kv_VWC v (h_kube h1) = kv_VWC v (h_kube h)"
proof -
  let ?sec = "secret_at env" and ?dns = "sync_dnsName env" and ?h = "h\<lparr>h_gen := new_generator\<rparr>"
  have st: "secret_store C V now k v" using crypto kube by unfold_locales
  from run mode obtain ch where hc: "handleCommon C now ?dns (Some (secretCertWriter C now k ?sec ?dns)) ?h = ((Inr certs, ch), h1)"
    by (auto simp: sync_ensureCert_def writer_options_defs Let_def secret_EnsureCert_def secret_at_def split: prod.splits)
  have "secret_store.usable C V now v ?sec ?h"
    using ca new_generator_ok
    by (auto simp: secret_store.usable_def [OF st] secret_store.in_secret_def [OF st])
  moreover have "validCert C now a ?dns" if "from_generator C V now ?dns a" for a
    by (rule from_generator_valid(1) [OF crypto that sync_dnsName_not_empty host])
  ultimately have "validCert C now certs ?dns \<and> holds_cert (secret_store.in_secret v ?sec) h1 certs"
    using secret_store.secret_handled [OF st _ _ hc] by blast
  then show "validCert C now certs ?dns"
    "\<exists>sec. kv_Secret v (h_kube h1) ?sec = Some sec \<and> same_cert certs (secretToCerts sec)"
    by (auto simp: holds_cert_def secret_store.in_secret_def [OF st])
  from secret_writer_frame [OF hc] show "h_fs h1 = h_fs h" "h_temps h1 = h_temps h" by simp_all
  from secret_writer_configs [OF kube hc]
  show "kv_MWC v (h_kube h1) = kv_MWC v (h_kube h)" "kv_VWC v (h_kube h1) = kv_VWC v (h_kube h)" by simp_all
qed

lemma ensureCert_dir:
  assumes crypto: "crypto_ok C V now" and mode: "uses_fs env" and os: "goos \<noteq> ''windows''"
    and T: "GetCertDir env = abs_path T" "dir_ready (h_fs h) T" "temps_ok (h_temps h)"
    and host: "host_supported C (sync_dnsName env)"
    and run: "sync_ensureCert env C now goos k h = (Inr certs, h1)"
  shows "validCert C now certs (sync_dnsName env)" and "dir_ready (h_fs h1) T" and "temps_ok (h_temps h1)"
    and "h_kube h1 = h_kube h"
proof -
  let ?dns = "sync_dnsName env" and ?h = "h\<lparr>h_gen := new_generator\<rparr>"
  have st: "cert_dir C V now goos" using crypto os by unfold_locales
  from run mode T(1) obtain ch where hc: "handleCommon C now ?dns (Some (fsCertWriter C now goos (abs_path T) ?dns)) ?h = ((Inr certs, ch), h1)"
    by (auto simp: sync_ensureCert_def writer_options_defs Let_def fs_EnsureCert_def split: prod.splits if_splits)
  have "cert_dir.workable C V now T ?h"
    using T new_generator_ok by (simp add: cert_dir.workable_def [OF st])
  moreover have "validCert C now a ?dns" if "from_generator C V now ?dns a" for a
    by (rule from_generator_valid(1) [OF crypto that sync_dnsName_not_empty host])
  ultimately have "validCert C now certs ?dns \<and> cert_dir.workable C V now T h1"
    using cert_dir.dir_handled [OF st _ _ hc] by blast
  then show "validCert C now certs ?dns" "dir_ready (h_fs h1) T" "temps_ok (h_temps h1)"
    by (simp_all add: cert_dir.workable_def [OF st])
  from fs_writer_frame [OF hc] show "h_kube h1 = h_kube h" by simp
qed

text \<open>The state after a successful run.\<close>

definition after_sync ::
  "env \<Rightarrow> config_codec \<Rightarrow> ('k, 'c, 'r) crypto \<Rightarrow> int \<Rightarrow> 'w kube \<Rightarrow> 'w kube_view \<Rightarrow> 'h gomap \<Rightarrow> fpath \<Rightarrow>
   ('w, 'r) host \<Rightarrow> ('w, 'r) host \<Rightarrow> Artifacts \<Rightarrow> bool" where
  "after_sync env cd C now k v handlers T h h' certs \<longleftrightarrow>
     validCert C now certs (sync_dnsName env) \<and> dir_ready (h_fs h') T \<and> temps_ok (h_temps h') \<and>
     shows_exactly (fs_nodes (h_fs h')) T (certToProjectionMap certs) \<and>
     fs_certs (fs_nodes (h_fs h')) T = Some \<lparr>art_Key = Some (bytes (art_Key certs)),
       art_Cert = Some (bytes (art_Cert certs)), art_CAKey = Some (bytes (art_CAKey certs)),
       art_CACert = Some (bytes (art_CACert certs)), art_ResourceVersion = []\<rparr> \<and>
     (\<exists>w. Ensure env cd k handlers (art_CACert certs) w = (Ok (), h_kube h') \<and>
        kv_MWC v w = kv_MWC v (h_kube h) \<and> kv_VWC v w = kv_VWC v (h_kube h)) \<and>
     (\<not> uses_fs env \<longrightarrow> (\<exists>sec. kv_Secret v (h_kube h') (secret_at env) = Some sec \<and>
        same_cert certs (secretToCerts sec)))"

lemma sync_after:
  assumes kube: "kube_ok k v" and crypto: "crypto_ok C V now" and os: "goos \<noteq> ''windows''"
    and T: "GetCertDir env = abs_path T" "dir_ready (h_fs (ctl_host s)) T" "temps_ok (h_temps (ctl_host s))"
    and ca: "\<And>sec. kv_Secret v (h_kube (ctl_host s)) (secret_at env) = Some sec \<Longrightarrow>
      given_ca_ok C V now (ca_of (secretToCerts sec))"
    and host: "host_supported C (sync_dnsName env)"
    and run: "sync env cd C now goos k handlers s = (Ok (), s')"
  shows "\<exists>certs. after_sync env cd C now k v handlers T (ctl_host s) (ctl_host s') certs"
proof -
  from run obtain certs h1 h2 w where e: "sync_ensureCert env C now goos k (ctl_host s) = (Inr certs, h1)"
    and wr: "writeCertsToDir goos (GetCertDir env) certs h1 = (Inr (), h2)"
    and en: "Ensure env cd k handlers (art_CACert certs) (h_kube h2) = (Ok (), w)" and s': "ctl_host s' = h2\<lparr>h_kube := w\<rparr>"
    by (rule sync_parts)
  from wr obtain f where f: "WriteCertsToDir goos (h_temps h1 0) (abs_path T) certs (h_fs h1) = (Inr (), f)"
    and h2: "h2 = h1\<lparr>h_fs := f, h_temps := (\<lambda>n. h_temps h1 (Suc n))\<rparr>"
    unfolding T(1) by (rule writeCertsToDir_parts)
  note cert = ensureCert_secret [OF kube crypto _ ca host e] ensureCert_dir [OF crypto _ os T host e]
  have valid: "validCert C now certs (sync_dnsName env)" and d1: "dir_ready (h_fs h1) T" and t1: "temps_ok (h_temps h1)"
    and cfgs: "kv_MWC v (h_kube h1) = kv_MWC v (h_kube (ctl_host s))" "kv_VWC v (h_kube h1) = kv_VWC v (h_kube (ctl_host s))"
    using cert T by (cases "uses_fs env"; simp)+
  have "\<forall>r \<in> set (snd (h_temps h1 0)). ts_name (fst (h_temps h1 0) @ r)" using t1 by (simp add: temps_ok_def)
  note W = WriteCertsToDir_ready [OF d1 os this f]
  have "\<exists>sec. kv_Secret v w (secret_at env) = Some sec \<and> same_cert certs (secretToCerts sec)" if "\<not> uses_fs env"
  proof -
    have "kv_Secret v w = kv_Secret v (h_kube h2)" by (rule Ensure_stored [OF kube en])
    with ensureCert_secret(2) [OF kube crypto that ca host e] h2 show ?thesis by simp
  qed
  moreover have "temps_ok (h_temps h2)" using t1 h2 by (simp add: temps_ok_def)
  moreover have "\<exists>w0. Ensure env cd k handlers (art_CACert certs) w0 = (Ok (), w) \<and>
      kv_MWC v w0 = kv_MWC v (h_kube (ctl_host s)) \<and> kv_VWC v w0 = kv_VWC v (h_kube (ctl_host s))"
    using en h2 cfgs by (intro exI [of _ "h_kube h2"]) simp
  ultimately have "after_sync env cd C now k v handlers T (ctl_host s) (ctl_host s') certs"
    using valid W s' h2 by (simp add: after_sync_def)
  then show ?thesis ..
qed

lemma after_sync_registered:
  assumes "kube_ok k v" and "after_sync env cd C now k v handlers T h h' certs"
  shows "(\<exists>old new. kv_MWC v (h_kube h) (GetMutatingWebhookName env) = Some old \<and>
        kv_MWC v (h_kube h') (GetMutatingWebhookName env) = Some new \<and>
        mutating_registered env cd handlers (art_CACert certs) old new) \<and>
     (\<exists>old new. kv_VWC v (h_kube h) (GetValidatingWebhookName env) = Some old \<and>
        kv_VWC v (h_kube h') (GetValidatingWebhookName env) = Some new \<and>
        validating_registered env cd handlers (art_CACert certs) old new)"
proof -
  from assms(2) obtain w where en: "Ensure env cd k handlers (art_CACert certs) w = (Ok (), h_kube h')"
    and w: "kv_MWC v w = kv_MWC v (h_kube h)" "kv_VWC v w = kv_VWC v (h_kube h)"
    unfolding after_sync_def by blast
  from Ensure_registered [OF assms(1) en] show ?thesis by (simp add: w)
qed

text \<open>
  C3. A successful \<^verbatim>\<open>sync\<close> leaves the parts of the program consistent: there is one certificate, valid
  for the name the API server uses (a supported one) and for at least six more months, that is
  exactly what the certificate directory shows to the webhook server, whose CA every webhook of both
  stored configurations trusts (they list the webhooks of their templates that have a handler), and,
  when certificates are kept in the secret (the file writer is not selected), that the secret holds. The
  controller is then marked as initialised.
\<close>

theorem sync_consistent:
  assumes kube: "kube_ok k v" and crypto: "crypto_ok C V now" and os: "goos \<noteq> ''windows''"
    and T: "GetCertDir env = abs_path T" "dir_ready (h_fs (ctl_host s)) T" "temps_ok (h_temps (ctl_host s))"
    and ca: "\<And>sec. kv_Secret v (h_kube (ctl_host s)) (secret_at env) = Some sec \<Longrightarrow>
      given_ca_ok C V now (ca_of (secretToCerts sec))"
    and host: "host_supported C (sync_dnsName env)" and ok: "ctl_ok s"
    and run: "sync env cd C now goos k handlers s = (Ok (), s')"
  shows "\<exists>certs. validCert C now certs (sync_dnsName env) \<and>
     shows_exactly (fs_nodes (h_fs (ctl_host s'))) T (certToProjectionMap certs) \<and>
     (\<exists>old new. kv_MWC v (h_kube (ctl_host s)) (GetMutatingWebhookName env) = Some old \<and>
        kv_MWC v (h_kube (ctl_host s')) (GetMutatingWebhookName env) = Some new \<and>
        mutating_registered env cd handlers (art_CACert certs) old new) \<and>
     (\<exists>old new. kv_VWC v (h_kube (ctl_host s)) (GetValidatingWebhookName env) = Some old \<and>
        kv_VWC v (h_kube (ctl_host s')) (GetValidatingWebhookName env) = Some new \<and>
        validating_registered env cd handlers (art_CACert certs) old new) \<and>
     (\<not> uses_fs env \<longrightarrow> (\<exists>sec. kv_Secret v (h_kube (ctl_host s')) (secret_at env) = Some sec \<and>
        same_cert certs (secretToCerts sec))) \<and> uninit_closed s'"
proof -
  obtain certs where a: "after_sync env cd C now k v handlers T (ctl_host s) (ctl_host s') certs"
    using sync_after [OF kube crypto os T ca host run] ..
  have "uninit_closed s'" using sync_channel(2) [OF ok run] by simp
  with a after_sync_registered [OF kube a] show ?thesis unfolding after_sync_def by blast
qed

section \<open>A second run\<close>

lemma validCert_bytes:
  assumes "validCert C now a dns"
  shows "art_Key a = Some (bytes (art_Key a))" "art_Cert a = Some (bytes (art_Cert a))"
    "art_CACert a = Some (bytes (art_CACert a))"
  using assms by (auto simp: validCert_def bytes_def split: if_splits option.splits)

lemma ensureCert_settled:
  assumes a: "after_sync env cd C now k v handlers T h0 h certs" and kube: "kube_ok k v"
    and T: "GetCertDir env = abs_path T"
  shows "\<exists>b g. sync_ensureCert env C now goos k h = (Inr b, h\<lparr>h_gen := g\<rparr>) \<and> bytes (art_Key b) = bytes (art_Key certs) \<and>
     bytes (art_Cert b) = bytes (art_Cert certs) \<and> bytes (art_CAKey b) = bytes (art_CAKey certs) \<and>
     art_CACert b = art_CACert certs"
proof (cases "uses_fs env")
  case True
  let ?b = "\<lparr>art_Key = Some (bytes (art_Key certs)), art_Cert = Some (bytes (art_Cert certs)),
       art_CAKey = Some (bytes (art_CAKey certs)), art_CACert = Some (bytes (art_CACert certs)), art_ResourceVersion = []\<rparr>"
  have "dir_ready (h_fs h) T" "fs_certs (fs_nodes (h_fs h)) T = Some ?b" using a by (simp_all add: after_sync_def)
  then have "fs_read (abs_path T) (h_fs h) = (Inr ?b, h_fs h)" by (simp add: fs_read_ready)
  moreover have v: "validCert C now certs (sync_dnsName env)" using a by (simp add: after_sync_def)
  moreover have "validCert C now ?b (sync_dnsName env)"
    using v validCert_bytes [OF v] by (simp add: validCert_def bytes_def split: if_splits)
  moreover have "abs_path T \<noteq> []" by (simp add: abs_path_def)
  ultimately show ?thesis
    using True T sync_dnsName_not_empty [of env] validCert_bytes(3) [OF v]
    by (auto simp: sync_ensureCert_def writer_options_defs Let_def fs_EnsureCert_def handleCommon_def createIfNotExists_def
        fsCertWriter_def bytes_def intro!: exI [of _ new_generator])
next
  case False
  with a obtain sec where sec: "kv_Secret v (h_kube h) (secret_at env) = Some sec" "same_cert certs (secretToCerts sec)"
    by (auto simp: after_sync_def)
  have "validCert C now (secretToCerts sec) (sync_dnsName env)"
    using a by (simp add: validCert_same [OF sec(2)] after_sync_def)
  moreover have "GetSecret k (GetNamespace env) (GetSecretName env) (h_kube h) = (Inr sec, h_kube h)"
    using sec(1) by (simp add: kube_reads [OF kube] secret_at_def)
  ultimately show ?thesis
    using False sec(2) sync_dnsName_not_empty [of env]
    by (auto simp: sync_ensureCert_def writer_options_defs Let_def secret_EnsureCert_def handleCommon_def
        createIfNotExists_def secretCertWriter_def secret_read_def Let_def same_cert_def)
qed

text \<open>The payload depends on the bytes only.\<close>

lemma shows_exactly_bytes:
  assumes "bytes (art_Key b) = bytes (art_Key a)" "bytes (art_Cert b) = bytes (art_Cert a)"
    "bytes (art_CAKey b) = bytes (art_CAKey a)" "bytes (art_CACert b) = bytes (art_CACert a)"
  shows "shows_exactly ns T (certToProjectionMap b) = shows_exactly ns T (certToProjectionMap a)"
  using assms by (simp add: shows_exactly_def certToProjectionMap_def content_def bytes_def cong: option.case_cong)

lemma WriteCertsToDir_settled:
  assumes r: "dir_ready f T" and sh: "shows_exactly (fs_nodes f) T (certToProjectionMap a)"
  shows "WriteCertsToDir goos temp (abs_path T) a f = (Inr (), f)"
proof -
  have inv: "writer_inv (fs_nodes f) T" and ff: "fs_faults f = []" using r by (simp_all add: dir_ready_def tidy_def)
  have "data_view (fs_nodes f) T CAKeyName \<noteq> None"
    using shows_exactly_Some [OF sh cert_payload_flat, of CAKeyName] by (auto simp: certToProjectionMap_def)
  then have "look (fs_nodes f) (T @ [dataDirName]) \<noteq> None" by (auto simp: data_view_def split: option.splits)
  from Write_unchanged [OF inv cert_payload_flat ff this sh]
  show ?thesis by (simp add: WriteCertsToDir_prepared [OF r])
qed

text \<open>
  C10. For a supported host: once a run of \<^verbatim>\<open>sync\<close> has succeeded, the next run at the same time succeeds too and changes
  nothing: neither the cluster (the secret and both configurations) nor the certificate directory
  is written. So the periodic resynchronisation is quiet, and does not wake itself through its own
  informers.
\<close>

theorem sync_settles:
  assumes kube: "kube_ok k v" and crypto: "crypto_ok C V now" and os: "goos \<noteq> ''windows''"
    and T: "GetCertDir env = abs_path T" "dir_ready (h_fs (ctl_host s)) T" "temps_ok (h_temps (ctl_host s))"
    and ca: "\<And>sec. kv_Secret v (h_kube (ctl_host s)) (secret_at env) = Some sec \<Longrightarrow>
      given_ca_ok C V now (ca_of (secretToCerts sec))"
    and host: "host_supported C (sync_dnsName env)" and ok: "ctl_ok s"
    and mw: "\<And>mc. kv_MWC v (h_kube (ctl_host s)) (GetMutatingWebhookName env) = Some mc \<Longrightarrow>
       json_stable (marshalMW cd) (unmarshalMW cd) (mwc_Webhooks mc)"
    and vw: "\<And>vc. kv_VWC v (h_kube (ctl_host s)) (GetValidatingWebhookName env) = Some vc \<Longrightarrow>
       json_stable (marshalVW cd) (unmarshalVW cd) (vwc_Webhooks vc)"
    and run: "sync env cd C now goos k handlers s = (Ok (), s1)"
  shows "\<exists>s2. sync env cd C now goos k handlers s1 = (Ok (), s2) \<and>
     h_kube (ctl_host s2) = h_kube (ctl_host s1) \<and> h_fs (ctl_host s2) = h_fs (ctl_host s1)"
proof -
  obtain certs where a: "after_sync env cd C now k v handlers T (ctl_host s) (ctl_host s1) certs"
    using sync_after [OF kube crypto os T ca host run] ..
  then obtain w where d: "dir_ready (h_fs (ctl_host s1)) T"
    and sh: "shows_exactly (fs_nodes (h_fs (ctl_host s1))) T (certToProjectionMap certs)"
    and en: "Ensure env cd k handlers (art_CACert certs) w = (Ok (), h_kube (ctl_host s1))"
    and w: "kv_MWC v w = kv_MWC v (h_kube (ctl_host s))" "kv_VWC v w = kv_VWC v (h_kube (ctl_host s))"
    unfolding after_sync_def by blast
  obtain b g where b: "sync_ensureCert env C now goos k (ctl_host s1) = (Inr b, (ctl_host s1)\<lparr>h_gen := g\<rparr>)"
    "bytes (art_Key b) = bytes (art_Key certs)" "bytes (art_Cert b) = bytes (art_Cert certs)"
    "bytes (art_CAKey b) = bytes (art_CAKey certs)" "art_CACert b = art_CACert certs"
    using ensureCert_settled [OF a kube T(1)] by blast
  have "shows_exactly (fs_nodes (h_fs (ctl_host s1))) T (certToProjectionMap b)"
    using sh shows_exactly_bytes [OF b(2-4)] b(5) by simp
  note wr = WriteCertsToDir_settled [OF d this]
  have "Ensure env cd k handlers (art_CACert certs) (h_kube (ctl_host s1)) = (Ok (), h_kube (ctl_host s1))"
    using Ensure_again [OF kube en] mw vw w by simp
  moreover have "ctl_ok s1" by (rule sync_channel(1) [OF ok run])
  moreover have "uninit_closed s1" using sync_channel(2) [OF ok run] by simp
  ultimately show ?thesis using b T(1) wr by (simp add: sync_def writeCertsToDir_def onceInit_Do_def ctl_ok_def)
qed

text \<open>Over any number of work items the channel is closed at most once.\<close>

lemma channel_closed_once:
  assumes "ctl_ok s"
    and "work_items n Q (sync env cd C now goos k handlers) (s, q) = (r, (s', q'))"
  shows "ctl_ok s' \<and> (uninit_closed s \<longrightarrow> uninit_closed s') \<and>
     (r = Panic \<longrightarrow> (\<exists>ca w w'. Ensure env cd k handlers ca w = (Panic, w')))"
  using assms
proof (induction n arbitrary: s q)
  case (Suc n)
  obtain key quit q1 where g: "wq_Get Q q = ((key, quit), q1)" by (metis surj_pair)
  obtain rs s1 where y: "sync env cd C now goos k handlers s = (rs, s1)" by fastforce
  note S = sync_channel [OF Suc.prems(1) y]
  show ?case
  proof (cases quit)
    case True
    with Suc.prems g show ?thesis by (auto simp: processNextWorkItem_def)
  next
    case False
    have go: "rs = Panic \<and> r = Panic \<and> s' = s1 \<or> rs = Exit \<and> r = Exit \<and> s' = s1 \<or>
        (\<exists>q2. work_items n Q (sync env cd C now goos k handlers) (s1, q2) = (r, (s', q')))"
      using Suc.prems(2) g y False by (cases rs) (auto simp: processNextWorkItem_def)
    then show ?thesis
    proof (elim disjE exE)
      fix q2
      assume "work_items n Q (sync env cd C now goos k handlers) (s1, q2) = (r, (s', q'))"
      from Suc.IH [OF S(1) this] S(2) show ?thesis by blast
    qed (use S in auto)
  qed
qed auto

end
