(* ===== verification/Health_Check.thy ===== *)
theory Health_Check
  imports Webhook_Controller
begin

text \<open>
  \<^verbatim>\<open>internal/webhook/util/health\<close> and the part of \<^verbatim>\<open>internal/webhook/server.go\<close> that waits for the
  webhook: a client that trusts the CA file of the certificate directory asks the server's own
  \<^verbatim>\<open>/healthz\<close>, and a watcher reloads the client when the file changes. The state is the package's
  \<^verbatim>\<open>sync.Once\<close>, its client (the pool it trusts) and whether the file is watched. Parameters: fsnotify
  (\<open>fsnotify\<close>) and net/http (\<open>http\<close>).
\<close>

section \<open>Loading the client\<close>

record 'c health =
  onceWatch :: bool
  hc_client :: "'c list option"
  hc_watched :: bool

record fsnotify =
  NewWatcher :: "string option"
  watcher_Add :: "string \<Rightarrow> fs \<Rightarrow> string option"

record 'c http =
  NewRequest :: "string \<Rightarrow> string option"
  client_Do :: "'c list \<Rightarrow> string \<Rightarrow> string + int"

definition caCertFilePath :: "env \<Rightarrow> string" where
  "caCertFilePath env = Join [GetCertDir env, ''ca-cert.pem'']"

definition loadHTTPClientWithCACert ::
  "('k, 'c, 'r) crypto \<Rightarrow> env \<Rightarrow> fs \<Rightarrow> 'c health \<Rightarrow> errno option \<times> 'c health" where
  "loadHTTPClientWithCACert C env f h =
     (case ReadFile (caCertFilePath env) f of
        (Inl err, _) \<Rightarrow> (Some err, h)
      | (Inr caCert, _) \<Rightarrow>
          (None, h\<lparr>hc_client := Some (case AppendCertsFromPEM C caCert of None \<Rightarrow> [] | Some pool \<Rightarrow> pool)\<rparr>))"

section \<open>Watching the file\<close>

text \<open>fsnotify's \<^verbatim>\<open>Op\<close> is a set of bits.\<close>

unbundle bit_operations_syntax

type_synonym fsnotify_op = "32 word"

definition op_Create :: fsnotify_op where "op_Create = 1"

definition op_Write :: fsnotify_op where "op_Write = 2"

definition op_Remove :: fsnotify_op where "op_Remove = 4"

definition isWrite :: "fsnotify_op \<Rightarrow> bool" where
  "isWrite op \<longleftrightarrow> op AND op_Write = op_Write"

definition isCreate :: "fsnotify_op \<Rightarrow> bool" where
  "isCreate op \<longleftrightarrow> op AND op_Create = op_Create"

definition isRemove :: "fsnotify_op \<Rightarrow> bool" where
  "isRemove op \<longleftrightarrow> op AND op_Remove = op_Remove"

datatype watch_input = WatchEvent string fsnotify_op | EventsClosed | WatchError string | ErrorsClosed

text \<open>
  The loop of \<^verbatim>\<open>watchCACert\<close> on the inputs it receives, each with the file system at that moment; at the
  end of the list it is blocked. The watch on a removed file is gone until it is added again.
\<close>

fun watchCACert ::
  "fsnotify \<Rightarrow> ('k, 'c, 'r) crypto \<Rightarrow> env \<Rightarrow> (watch_input \<times> fs) list \<Rightarrow> 'c health \<Rightarrow> 'c health" where
  "watchCACert N C env [] h = h"
| "watchCACert N C env ((EventsClosed, f) # es) h = h"
| "watchCACert N C env ((ErrorsClosed, f) # es) h = h"
| "watchCACert N C env ((WatchError err, f) # es) h = watchCACert N C env es h"
| "watchCACert N C env ((WatchEvent name op, f) # es) h =
     (if \<not> (isWrite op \<or> isRemove op \<or> isCreate op) then watchCACert N C env es h
      else
        (let h1 = (if isRemove op then h\<lparr>hc_watched := watcher_Add N name f = None\<rparr> else h) in
         watchCACert N C env es (snd (loadHTTPClientWithCACert C env f h1))))"

section \<open>The check\<close>

definition Checker_once ::
  "fsnotify \<Rightarrow> ('k, 'c, 'r) crypto \<Rightarrow> env \<Rightarrow> fs \<Rightarrow> 'c health \<Rightarrow> (string, unit) result \<times> 'c health" where
  "Checker_once N C env f h =
     (case loadHTTPClientWithCACert C env f h of
        (Some err, h1) \<Rightarrow> (Panic, h1)
      | (None, h1) \<Rightarrow>
          if NewWatcher N \<noteq> None then (Panic, h1)
          else if watcher_Add N (caCertFilePath env) f \<noteq> None then (Panic, h1)
          else (Ok (), h1\<lparr>hc_watched := True\<rparr>))"

text \<open>A \<^verbatim>\<open>sync.Once\<close> whose function panics counts as done; a call on a nil \<^verbatim>\<open>http.Client\<close> panics.\<close>

definition healthz_url :: "int \<Rightarrow> string" where
  "healthz_url port = ''https://localhost:'' @ show_int port @ ''/healthz''"

definition health_Checker ::
  "fsnotify \<Rightarrow> 'c http \<Rightarrow> ('k, 'c, 'r) crypto \<Rightarrow> env \<Rightarrow> fs \<Rightarrow> 'c health \<Rightarrow> (string, unit) result \<times> 'c health" where
  "health_Checker N H C env f h =
     (case (if onceWatch h then (Ok (), h) else Checker_once N C env f (h\<lparr>onceWatch := True\<rparr>)) of
        (Ok _, h1) \<Rightarrow>
          (case GetPort env of
             Fail e \<Rightarrow> (Fail e, h1) | Panic \<Rightarrow> (Panic, h1) | Exit \<Rightarrow> (Exit, h1)
           | Ok port \<Rightarrow>
               (case NewRequest H (healthz_url port) of
                  Some err \<Rightarrow> (Fail err, h1)
                | None \<Rightarrow>
                    (case hc_client h1 of
                       None \<Rightarrow> (Panic, h1)
                     | Some pool \<Rightarrow>
                         (case client_Do H pool (healthz_url port) of
                            Inl err \<Rightarrow> (Fail err, h1) | Inr status \<Rightarrow> (Ok (), h1)))))
      | (Fail e, h1) \<Rightarrow> (Fail e, h1) | (Panic, h1) \<Rightarrow> (Panic, h1) | (Exit, h1) \<Rightarrow> (Exit, h1))"

text \<open>\<^verbatim>\<open>Handler.ServeHTTP\<close>: the status it writes.\<close>

definition ServeHTTP :: int where
  "ServeHTTP = 200"

text \<open>\<^verbatim>\<open>webhook.Checker\<close>, with the state of the channel that \<^verbatim>\<open>Inited\<close> returns.\<close>

definition webhook_Checker ::
  "fsnotify \<Rightarrow> 'c http \<Rightarrow> ('k, 'c, 'r) crypto \<Rightarrow> env \<Rightarrow> bool \<Rightarrow> fs \<Rightarrow> 'c health \<Rightarrow> (string, unit) result \<times> 'c health"
where
  "webhook_Checker N H C env inited f h =
     (if \<not> inited then (Fail ''webhook controller has not initialized'', h)
      else health_Checker N H C env f h)"

text \<open>
  \<^verbatim>\<open>WaitReady\<close>: the loop over \<^verbatim>\<open>Checker(nil)\<close>, with a sleep of two seconds (\<open>sleep\<close>, in which the rest
  of the program moves on) after every error. It may run for ever.
\<close>

partial_function (option) WaitReady ::
  "('s \<Rightarrow> (string, unit) result \<times> 's) \<Rightarrow> ('s \<Rightarrow> 's) \<Rightarrow> 's \<Rightarrow> ((string, unit) result \<times> 's) option" where
  "WaitReady check sleep s =
     (case check s of
        (Ok _, s1) \<Rightarrow> Some (Ok (), s1)
      | (Fail err, s1) \<Rightarrow> WaitReady check sleep (sleep s1)
      | (Panic, s1) \<Rightarrow> Some (Panic, s1)
      | (Exit, s1) \<Rightarrow> Some (Exit, s1))"

text \<open>
  The end of \<^verbatim>\<open>Initialize\<close>: the \<^verbatim>\<open>select\<close> on the channel and on the timer of 20 seconds. The channel
  is closed after \<open>closed\<close> seconds or never; when both are ready, \<open>tie\<close> tells which case is taken.
\<close>

definition Initialize_select :: "nat option \<Rightarrow> bool \<Rightarrow> string option" where
  "Initialize_select closed tie =
     (case closed of
        Some t \<Rightarrow>
          if t < 20 \<or> t = 20 \<and> tie then None
          else Some ''failed to start webhook controller for waiting more than 20s''
      | None \<Rightarrow> Some ''failed to start webhook controller for waiting more than 20s'')"

section \<open>Waiting\<close>

fun waited :: "('s \<Rightarrow> (string, unit) result \<times> 's) \<Rightarrow> ('s \<Rightarrow> 's) \<Rightarrow> nat \<Rightarrow> 's \<Rightarrow> 's" where
  "waited check sleep 0 s = s"
| "waited check sleep (Suc n) s = waited check sleep n (sleep (snd (check s)))"

fun failed :: "(string, unit) result \<Rightarrow> bool" where
  "failed (Fail e) = True"
| "failed _ = False"

lemma WaitReady_step:
  "WaitReady check sleep s =
     (if failed (fst (check s)) then WaitReady check sleep (sleep (snd (check s))) else Some (check s))"
  by (subst WaitReady.simps) (cases "check s"; cases "fst (check s)"; simp)

lemma WaitReady_after:
  assumes "\<And>i. i < n \<Longrightarrow> failed (fst (check (waited check sleep i s)))"
  shows "WaitReady check sleep s = WaitReady check sleep (waited check sleep n s)"
  using assms
proof (induction n arbitrary: s)
  case (Suc n)
  have "failed (fst (check s))" using Suc.prems [of 0] by simp
  then have "WaitReady check sleep s = WaitReady check sleep (sleep (snd (check s)))"
    by (subst WaitReady_step) simp
  also have "\<dots> = WaitReady check sleep (waited check sleep n (sleep (snd (check s))))"
    by (rule Suc.IH) (use Suc.prems [of "Suc _"] in simp)
  finally show ?case by simp
qed simp

lemma WaitReady_Some:
  assumes "WaitReady check sleep s = Some r"
  shows "\<exists>n. r = check (waited check sleep n s) \<and> \<not> failed (fst r)"
proof (rule WaitReady.raw_induct [OF _ assms])
  fix wait :: "('a \<Rightarrow> (string, unit) result \<times> 'a) \<Rightarrow> ('a \<Rightarrow> 'a) \<Rightarrow> 'a \<Rightarrow> ((string, unit) result \<times> 'a) option"
    and check :: "'a \<Rightarrow> (string, unit) result \<times> 'a" and sleep :: "'a \<Rightarrow> 'a" and s :: 'a and r
  assume IH: "\<And>check sleep s r. wait check sleep s = Some r \<Longrightarrow>
      \<exists>n. r = check (waited check sleep n s) \<and> \<not> failed (fst r)"
    and w: "(case check s of (Ok _, s1) \<Rightarrow> Some (Ok (), s1) | (Fail err, s1) \<Rightarrow> wait check sleep (sleep s1)
      | (Panic, s1) \<Rightarrow> Some (Panic, s1) | (Exit, s1) \<Rightarrow> Some (Exit, s1)) = Some r"
  show "\<exists>n. r = check (waited check sleep n s) \<and> \<not> failed (fst r)"
  proof (cases "failed (fst (check s))")
    case True
    with w have "wait check sleep (sleep (snd (check s))) = Some r"
      by (auto split: prod.splits result.splits)
    from IH [OF this] obtain n where "r = check (waited check sleep (Suc n) s)" "\<not> failed (fst r)" by auto
    then show ?thesis by blast
  next
    case False
    with w have "r = check s" by (auto split: prod.splits result.splits)
    with False show ?thesis by (intro exI [of _ 0]) simp
  qed
qed

text \<open>
  C18. \<^verbatim>\<open>WaitReady\<close> returns exactly when some check, after some number of waits, does not give an
  error, and then with the result of the first such check: it never returns an error itself, and it
  runs for ever when every check fails.
\<close>

theorem wait_ready_returns:
  "WaitReady check sleep s =
     (if \<exists>n. \<not> failed (fst (check (waited check sleep n s)))
      then Some (check (waited check sleep (LEAST n. \<not> failed (fst (check (waited check sleep n s)))) s))
      else None)"
proof (cases "\<exists>n. \<not> failed (fst (check (waited check sleep n s)))")
  case True
  let ?n = "LEAST n. \<not> failed (fst (check (waited check sleep n s)))"
  have "\<not> failed (fst (check (waited check sleep ?n s)))" using True by (rule LeastI_ex)
  moreover have "WaitReady check sleep s = WaitReady check sleep (waited check sleep ?n s)"
    by (rule WaitReady_after) (use not_less_Least in blast)
  ultimately show ?thesis using True WaitReady_step [of check sleep "waited check sleep ?n s"] by simp
next
  case False
  then have "WaitReady check sleep s = None"
    using WaitReady_Some [of check sleep s] by (cases "WaitReady check sleep s") auto
  with False show ?thesis by simp
qed

section \<open>The CA that is trusted\<close>

lemma load_ready:
  assumes "dir_ready f T" and "GetCertDir env = abs_path T" and "fs_certs (fs_nodes f) T = Some a"
  shows "loadHTTPClientWithCACert C env f h =
     (None, h\<lparr>hc_client := Some (case AppendCertsFromPEM C (bytes (art_CACert a)) of None \<Rightarrow> [] | Some pool \<Rightarrow> pool)\<rparr>)"
proof -
  have n: "CACertName \<in> set filenames" by (simp add: filenames_def)
  from assms(3) n have v: "data_view (fs_nodes f) T CACertName \<noteq> None"
    and a: "art_CACert a = Some (file_data (data_view (fs_nodes f) T CACertName))"
    by (auto simp: fs_certs_def split: if_splits)
  have "ReadFile (Join [abs_path T, CACertName]) f = (Inr (file_data (data_view (fs_nodes f) T CACertName)), f)"
    using readFile_ready [OF assms(1) n v] by (auto simp: readFile_def split: prod.splits sum.splits)
  with a show ?thesis
    by (simp add: loadHTTPClientWithCACert_def caCertFilePath_def assms(2) CACertName_def bytes_def)
qed

text \<open>
  C31. A new CA reaches the checker: after \<^verbatim>\<open>WriteCertsToDir\<close> has published a certificate, the event
  that the file of the old version was removed makes the client trust exactly the CA of the new one,
  and the new file is watched if the watch could be added.
\<close>

theorem ca_rotation_reaches_client:
  assumes "dir_ready f T" and "goos \<noteq> ''windows''" and "\<forall>r \<in> set (snd temp). ts_name (fst temp @ r)"
    and "GetCertDir env = abs_path T"
    and "WriteCertsToDir goos temp (abs_path T) a f = (Inr (), f')" and "isRemove op"
    and "AppendCertsFromPEM C (bytes (art_CACert a)) = Some pool"
  shows "watchCACert N C env [(WatchEvent name op, f')] h =
     h\<lparr>hc_client := Some pool, hc_watched := (watcher_Add N name f' = None)\<rparr>"
proof -
  note W = WriteCertsToDir_ready [OF assms(1-3,5)]
  from assms(6,7) show ?thesis by (simp add: Let_def load_ready [OF W(1) assms(4) W(2)] bytes_def)
qed

text \<open>
  C32. When the first check cannot read the CA file it panics, and from then on no check succeeds,
  whatever the file system and the network are: the \<^verbatim>\<open>sync.Once\<close> is spent, no watcher runs, and the
  client stays nil.
\<close>

theorem first_check_failure_sticks:
  assumes "\<not> onceWatch h" and "hc_client h = None"
    and "fst (loadHTTPClientWithCACert C env f h) \<noteq> None"
  shows "fst (health_Checker N H C env f h) = Panic \<and>
     (\<forall>N' H' f'. fst (health_Checker N' H' C env f' (snd (health_Checker N H C env f h))) \<noteq> Ok () \<and>
        snd (health_Checker N' H' C env f' (snd (health_Checker N H C env f h))) = snd (health_Checker N H C env f h))"
proof -
  have first: "health_Checker N H C env f h = (Panic, h\<lparr>onceWatch := True\<rparr>)"
    using assms by (auto simp: health_Checker_def Checker_once_def loadHTTPClientWithCACert_def split: prod.splits sum.splits)
  have "fst (health_Checker N' H' C env f' (h\<lparr>onceWatch := True\<rparr>)) \<noteq> Ok () \<and>
      snd (health_Checker N' H' C env f' (h\<lparr>onceWatch := True\<rparr>)) = h\<lparr>onceWatch := True\<rparr>" for N' H' f'
    using assms(2) by (auto simp: health_Checker_def split: result.split option.split)
  with first show ?thesis by simp
qed

text \<open>
  C17. The parts fit together at start-up, for a supported host: after the first successful \<^verbatim>\<open>sync\<close> the readiness check does
  not panic. It loads the CA of the certificate that was ensured, the one which the stored
  mutating configuration carries, and its answer is that of the request to the webhook server made with
  that CA.
\<close>

theorem ready_after_sync:
  assumes kube: "kube_ok k v" and crypto: "crypto_ok C V now" and os: "goos \<noteq> ''windows''"
    and T: "GetCertDir env = abs_path T" "dir_ready (h_fs (ctl_host s)) T" "temps_ok (h_temps (ctl_host s))"
    and ca: "\<And>sec. kv_Secret v (h_kube (ctl_host s)) (secret_at env) = Some sec \<Longrightarrow>
      given_ca_ok C V now (ca_of (secretToCerts sec))"
    and host: "host_supported C (sync_dnsName env)" and ok: "ctl_ok s"
    and run: "sync env cd C now goos k handlers s = (Ok (), s')"
    and h: "\<not> onceWatch h" "NewWatcher N = None" "watcher_Add N (caCertFilePath env) (h_fs (ctl_host s')) = None"
    and port: "(GetPort env :: (string, int) result) = Ok port" "NewRequest H (healthz_url port) = None"
  shows "\<exists>certs pool. validCert C now certs (sync_dnsName env) \<and>
     AppendCertsFromPEM C (bytes (art_CACert certs)) = Some pool \<and>
     (\<exists>old new. kv_MWC v (h_kube (ctl_host s)) (GetMutatingWebhookName env) = Some old \<and>
        kv_MWC v (h_kube (ctl_host s')) (GetMutatingWebhookName env) = Some new \<and>
        mutating_registered env cd handlers (art_CACert certs) old new) \<and>
     webhook_Checker N H C env (uninit_closed s') (h_fs (ctl_host s')) h =
       (case client_Do H pool (healthz_url port) of Inl err \<Rightarrow> Fail err | Inr _ \<Rightarrow> Ok (),
        h\<lparr>onceWatch := True, hc_client := Some pool, hc_watched := True\<rparr>)"
proof -
  obtain certs where a: "after_sync env cd C now k v handlers T (ctl_host s) (ctl_host s') certs"
    using sync_after [OF kube crypto os T ca host run] ..
  then have valid: "validCert C now certs (sync_dnsName env)" and d: "dir_ready (h_fs (ctl_host s')) T"
    and f: "fs_certs (fs_nodes (h_fs (ctl_host s'))) T = Some \<lparr>art_Key = Some (bytes (art_Key certs)),
       art_Cert = Some (bytes (art_Cert certs)), art_CAKey = Some (bytes (art_CAKey certs)),
       art_CACert = Some (bytes (art_CACert certs)), art_ResourceVersion = []\<rparr>"
    by (simp_all add: after_sync_def)
  from valid obtain pool where pool: "AppendCertsFromPEM C (bytes (art_CACert certs)) = Some pool"
    by (auto simp: validCert_def verify_pem_def split: if_splits option.splits)
  have "uninit_closed s'" using sync_channel(2) [OF ok run] by simp
  then have "webhook_Checker N H C env (uninit_closed s') (h_fs (ctl_host s')) h =
       (case client_Do H pool (healthz_url port) of Inl err \<Rightarrow> Fail err | Inr _ \<Rightarrow> Ok (),
        h\<lparr>onceWatch := True, hc_client := Some pool, hc_watched := True\<rparr>)"
    using h port pool
    by (simp add: webhook_Checker_def health_Checker_def Checker_once_def load_ready [OF d T(1) f] bytes_def split: sum.split)
  with valid pool after_sync_registered [OF kube a] show ?thesis by blast
qed

end
