(* ===== verification/Startup.thy ===== *)
theory Startup
  imports Client_Registry Webhook_Server Health_Check
begin

text \<open>
  \<^verbatim>\<open>cmd/main.go\<close>: the start-up of the program as a step relation. The main goroutine runs through its
  calls in order; \<^verbatim>\<open>webhook.Initialize\<close> starts the webhook controller and the end of \<^verbatim>\<open>main\<close> starts the
  goroutine that waits for the webhook and sets up the reconciler, and both run beside the main one. A
  call of the controller manager (a parameter) may succeed or fail. The calls of this program are the
  definitions of the other theories. Every request that the running manager serves is recorded with
  the persistence switches in force at that moment.
\<close>

section \<open>Flags and options\<close>

record flags =
  metricsAddr :: string
  probeAddr :: string
  enableLeaderElection :: bool
  secureMetrics :: bool
  enableHTTP2 :: bool
  enableVMIPersistence :: bool
  enableStatefulSetPersistence :: bool

definition default_flags :: flags where
  "default_flags = \<lparr>metricsAddr = ''0'', probeAddr = '':8081'', enableLeaderElection = False, secureMetrics = True,
     enableHTTP2 = False, enableVMIPersistence = True, enableStatefulSetPersistence = True\<rparr>"

text \<open>The field of \<^verbatim>\<open>tls.Config\<close> that is written.\<close>

record tls_config =
  NextProtos :: "string goslice"

definition disableHTTP2 :: "tls_config \<Rightarrow> tls_config" where
  "disableHTTP2 c = c\<lparr>NextProtos := Some [''http/1.1'']\<rparr>"

definition tlsOpts :: "flags \<Rightarrow> (tls_config \<Rightarrow> tls_config) list" where
  "tlsOpts fl = (if \<not> enableHTTP2 fl then [disableHTTP2] else [])"

record metrics_options =
  mo_BindAddress :: string
  mo_SecureServing :: bool
  mo_TLSOpts :: "(tls_config \<Rightarrow> tls_config) list"
  mo_Authenticated :: bool

definition metricsServerOptions :: "flags \<Rightarrow> metrics_options" where
  "metricsServerOptions fl = \<lparr>mo_BindAddress = metricsAddr fl, mo_SecureServing = secureMetrics fl,
     mo_TLSOpts = tlsOpts fl, mo_Authenticated = secureMetrics fl\<rparr>"

record manager_options =
  mg_Metrics :: metrics_options
  mg_WebhookServer :: webhook_options
  mg_HealthProbeBindAddress :: string
  mg_LeaderElection :: bool
  mg_LeaderElectionID :: string

definition main_options :: "env \<Rightarrow> flags \<Rightarrow> ('e, manager_options) result" where
  "main_options env fl =
     (case GetPort env of
        Fail e \<Rightarrow> Fail e | Panic \<Rightarrow> Panic | Exit \<Rightarrow> Exit
      | Ok port \<Rightarrow>
          Ok \<lparr>mg_Metrics = metricsServerOptions fl,
            mg_WebhookServer = \<lparr>wo_Host = ''0.0.0.0'', wo_Port = port, wo_CertDir = GetCertDir env\<rparr>,
            mg_HealthProbeBindAddress = probeAddr fl, mg_LeaderElection = enableLeaderElection fl,
            mg_LeaderElectionID = ''5d820af4.clay.io''\<rparr>)"

section \<open>The state\<close>

datatype main_pc =
    AtNewManager | AtNewRegistry | AtSetupWebhook | AtInitialize | AtInited
  | AtHealthz | AtReadyz | AtPersistence | AtGo | AtStart | Serving

datatype go_pc = NotStarted | WaitingReady | SettingUp | SetUp

record ('l, 'd, 'k, 'r, 'h) process =
  p_main :: main_pc
  p_go :: go_pc
  p_options :: "manager_options option"
  p_clients :: "('l, 'd, 'k, 'r) client_registry"
  p_routes :: "'h routes"
  p_handlers :: "'h gomap"
  p_kube :: "'k option"
  p_inited :: bool
  p_checks :: "string list"
  p_config :: PersistenceConfig
  p_served :: "PersistenceConfig list"
  p_exit :: "int option"

text \<open>
  What a run of the program is given: the environment, the flags, the connection, client-go, the
  feature gates, the registered builders and what they build.
\<close>

record ('l, 'hc, 'r, 'd, 'k, 'b, 'h) program =
  g_env :: env
  g_flags :: flags
  g_cfg :: "'l rest_config"
  g_client_go :: "('l, 'hc, 'r, 'd, 'k) client_go"
  g_gates :: gates
  g_builders :: "'b registry"
  g_build :: "'b \<Rightarrow> 'h"

definition start :: "('l, 'd, 'k, 'r, 'h) process" where
  "start = \<lparr>p_main = AtNewManager, p_go = NotStarted, p_options = None, p_clients = no_clients, p_routes = [],
     p_handlers = go_make, p_kube = None, p_inited = False, p_checks = [], p_config = GlobalConfig,
     p_served = [], p_exit = None\<rparr>"

text \<open>\<^verbatim>\<open>webhookcontroller.New\<close>: the client of the controller. A missing generic client is dereferenced.\<close>

definition controller_New ::
  "('l, 'hc, 'r, 'd, 'k) client_go \<Rightarrow> ('l, 'd, 'k, 'r) client_registry \<Rightarrow> (string, 'k) result" where
  "controller_New A R =
     (case GetGenericClientWithName A ''webhook-controller'' R of
        Ok None \<Rightarrow> Panic | Ok (Some gc) \<Rightarrow> Ok (gc_KubeClient gc)
      | Fail e \<Rightarrow> Fail e | Panic \<Rightarrow> Panic | Exit \<Rightarrow> Exit)"

text \<open>
  \<^verbatim>\<open>webhook.Initialize\<close>: on success the controller runs beside the caller with the client, and its
  channel was closed in time; the controller runs too when the wait is given up.
\<close>

definition Initialize ::
  "('l, 'hc, 'r, 'd, 'k) client_go \<Rightarrow> ('l, 'd, 'k, 'r) client_registry \<Rightarrow> nat option \<Rightarrow> bool \<Rightarrow> (string, unit) result \<times> 'k option" where
  "Initialize A R closedAt tie =
     (case controller_New A R of
        Ok client \<Rightarrow>
          (case Initialize_select closedAt tie of None \<Rightarrow> (Ok (), Some client) | Some err \<Rightarrow> (Fail err, Some client))
      | Fail e \<Rightarrow> (Fail e, None) | Panic \<Rightarrow> (Panic, None) | Exit \<Rightarrow> (Exit, None))"

lemma Initialize_returns:
  "fst (Initialize A R closedAt tie) = Ok () \<longleftrightarrow>
     (\<exists>client t. controller_New A R = Ok client \<and> closedAt = Some t \<and> (t < 20 \<or> t = 20 \<and> tie))"
  by (auto simp: Initialize_def Initialize_select_def split: result.splits option.splits if_splits)

text \<open>A panic of Go's runtime ends the process with status 2, \<^verbatim>\<open>klog.Fatalf\<close> with 255.\<close>

definition ends :: "int \<Rightarrow> ('l, 'd, 'k, 'r, 'h) process \<Rightarrow> ('l, 'd, 'k, 'r, 'h) process" where
  "ends code p = p\<lparr>p_exit := Some code\<rparr>"

text \<open>
  The answers of the readiness check that \<^verbatim>\<open>WaitReady\<close> repeats: the health check's answer is left open
  here, the test of the channel before it is not.
\<close>

definition ready_answer :: "bool \<Rightarrow> (string, unit) result \<Rightarrow> bool" where
  "ready_answer inited r \<longleftrightarrow> inited \<or> r = Fail ''webhook controller has not initialized''"

lemma ready_answer_complete: "ready_answer inited (fst (webhook_Checker N H C env inited f h))"
  by (simp add: ready_answer_def webhook_Checker_def)

section \<open>Steps\<close>

inductive main_step ::
  "('l, 'hc, 'r, 'd, 'k, 'b, 'h) program \<Rightarrow> ('l, 'd, 'k, 'r, 'h) process \<Rightarrow> ('l, 'd, 'k, 'r, 'h) process \<Rightarrow> bool"
  for G :: "('l, 'hc, 'r, 'd, 'k, 'b, 'h) program" where
  options_exit: "p_exit p = None \<Longrightarrow> p_main p = AtNewManager \<Longrightarrow>
     main_options (g_env G) (g_flags G) = (Exit :: (string, manager_options) result) \<Longrightarrow> main_step G p (ends 255 p)"
| new_manager: "p_exit p = None \<Longrightarrow> p_main p = AtNewManager \<Longrightarrow>
     main_options (g_env G) (g_flags G) = (Ok opts :: (string, manager_options) result) \<Longrightarrow>
     main_step G p (p\<lparr>p_options := Some opts, p_main := AtNewRegistry\<rparr>)"
| new_manager_failed: "p_exit p = None \<Longrightarrow> p_main p = AtNewManager \<Longrightarrow> main_step G p (ends 1 p)"
| new_registry: "p_exit p = None \<Longrightarrow> p_main p = AtNewRegistry \<Longrightarrow>
     NewRegistry (g_client_go G) (g_cfg G) (p_clients p) = (None, R) \<Longrightarrow>
     main_step G p (p\<lparr>p_clients := R, p_main := AtSetupWebhook\<rparr>)"
| new_registry_failed: "p_exit p = None \<Longrightarrow> p_main p = AtNewRegistry \<Longrightarrow>
     NewRegistry (g_client_go G) (g_cfg G) (p_clients p) = (Some err, R) \<Longrightarrow> main_step G p (ends 1 (p\<lparr>p_clients := R\<rparr>))"
| setup_webhook: "p_exit p = None \<Longrightarrow> p_main p = AtSetupWebhook \<Longrightarrow>
     SetupWithManager (g_gates G) (g_build G) (g_builders G) (p_routes p, p_handlers p) =
       (Ok ((rs, hs), g1) :: (string, _) result) \<Longrightarrow>
     main_step G p (p\<lparr>p_routes := rs, p_handlers := hs, p_main := AtInitialize\<rparr>)"
| setup_webhook_panic: "p_exit p = None \<Longrightarrow> p_main p = AtSetupWebhook \<Longrightarrow>
     SetupWithManager (g_gates G) (g_build G) (g_builders G) (p_routes p, p_handlers p) = (Panic :: (string, _) result) \<Longrightarrow>
     main_step G p (ends 2 p)"
| initialize: "p_exit p = None \<Longrightarrow> p_main p = AtInitialize \<Longrightarrow>
     controller_New (g_client_go G) (p_clients p) = Ok client \<Longrightarrow>
     main_step G p (p\<lparr>p_kube := Some client, p_main := AtInited\<rparr>)"
| initialize_panic: "p_exit p = None \<Longrightarrow> p_main p = AtInitialize \<Longrightarrow>
     controller_New (g_client_go G) (p_clients p) = Panic \<Longrightarrow> main_step G p (ends 2 p)"
| controller_synced: "p_exit p = None \<Longrightarrow> p_kube p \<noteq> None \<Longrightarrow> main_step G p (p\<lparr>p_inited := True\<rparr>)"
| inited: "p_exit p = None \<Longrightarrow> p_main p = AtInited \<Longrightarrow> p_inited p \<Longrightarrow> main_step G p (p\<lparr>p_main := AtHealthz\<rparr>)"
| inited_timeout: "p_exit p = None \<Longrightarrow> p_main p = AtInited \<Longrightarrow> main_step G p (ends 1 p)"
| add_healthz: "p_exit p = None \<Longrightarrow> p_main p = AtHealthz \<Longrightarrow>
     main_step G p (p\<lparr>p_checks := ''healthz'' # p_checks p, p_main := AtReadyz\<rparr>)"
| add_healthz_failed: "p_exit p = None \<Longrightarrow> p_main p = AtHealthz \<Longrightarrow> main_step G p (ends 1 p)"
| add_readyz: "p_exit p = None \<Longrightarrow> p_main p = AtReadyz \<Longrightarrow>
     main_step G p (p\<lparr>p_checks := ''webhook-ready'' # p_checks p, p_main := AtPersistence\<rparr>)"
| add_readyz_failed: "p_exit p = None \<Longrightarrow> p_main p = AtReadyz \<Longrightarrow> main_step G p (ends 1 p)"
| persistence: "p_exit p = None \<Longrightarrow> p_main p = AtPersistence \<Longrightarrow>
     main_step G p (p\<lparr>p_config := SetPersistenceConfig (enableVMIPersistence (g_flags G))
        (enableStatefulSetPersistence (g_flags G)) (p_config p), p_main := AtGo\<rparr>)"
| go_wait: "p_exit p = None \<Longrightarrow> p_main p = AtGo \<Longrightarrow> main_step G p (p\<lparr>p_go := WaitingReady, p_main := AtStart\<rparr>)"
| mgr_start: "p_exit p = None \<Longrightarrow> p_main p = AtStart \<Longrightarrow> main_step G p (p\<lparr>p_main := Serving\<rparr>)"
| mgr_stopped: "p_exit p = None \<Longrightarrow> p_main p = Serving \<Longrightarrow> main_step G p (ends 0 p)"
| mgr_failed: "p_exit p = None \<Longrightarrow> p_main p = AtStart \<or> p_main p = Serving \<Longrightarrow> main_step G p (ends 1 p)"
| ready: "p_exit p = None \<Longrightarrow> p_go p = WaitingReady \<Longrightarrow> ready_answer (p_inited p) (Ok ()) \<Longrightarrow>
     main_step G p (p\<lparr>p_go := SettingUp\<rparr>)"
| not_ready: "p_exit p = None \<Longrightarrow> p_go p = WaitingReady \<Longrightarrow> ready_answer (p_inited p) (Fail err) \<Longrightarrow> main_step G p p"
| ready_panic: "p_exit p = None \<Longrightarrow> p_go p = WaitingReady \<Longrightarrow> ready_answer (p_inited p) Panic \<Longrightarrow>
     main_step G p (ends 2 p)"
| setup_controllers: "p_exit p = None \<Longrightarrow> p_go p = SettingUp \<Longrightarrow> main_step G p (p\<lparr>p_go := SetUp\<rparr>)"
| setup_controllers_failed: "p_exit p = None \<Longrightarrow> p_go p = SettingUp \<Longrightarrow> main_step G p (ends 1 p)"
| serve_admission: "p_exit p = None \<Longrightarrow> p_main p = Serving \<Longrightarrow>
     main_step G p (p\<lparr>p_served := p_config p # p_served p\<rparr>)"
| serve_reconcile: "p_exit p = None \<Longrightarrow> p_main p = Serving \<Longrightarrow> p_go p = SetUp \<Longrightarrow>
     main_step G p (p\<lparr>p_served := p_config p # p_served p\<rparr>)"

inductive_cases main_stepE: "main_step G p q"

section \<open>What holds in every reachable state\<close>

fun main_rank :: "main_pc \<Rightarrow> nat" where
  "main_rank AtNewManager = 0"
| "main_rank AtNewRegistry = 1"
| "main_rank AtSetupWebhook = 2"
| "main_rank AtInitialize = 3"
| "main_rank AtInited = 4"
| "main_rank AtHealthz = 5"
| "main_rank AtReadyz = 6"
| "main_rank AtPersistence = 7"
| "main_rank AtGo = 8"
| "main_rank AtStart = 9"
| "main_rank Serving = 10"

definition flag_config :: "flags \<Rightarrow> PersistenceConfig" where
  "flag_config fl = \<lparr>EnableVMIPersistence = enableVMIPersistence fl,
     EnableStatefulSetPersistence = enableStatefulSetPersistence fl\<rparr>"

lemma SetPersistenceConfig_flags:
  "SetPersistenceConfig (enableVMIPersistence fl) (enableStatefulSetPersistence fl) g = flag_config fl"
  by (cases g) (simp add: SetPersistenceConfig_def flag_config_def)

definition start_inv :: "('l, 'hc, 'r, 'd, 'k, 'b, 'h) program \<Rightarrow> ('l, 'd, 'k, 'r, 'h) process \<Rightarrow> bool" where
  "start_inv G p \<longleftrightarrow>
     (main_rank (p_main p) > 1 \<longrightarrow> reg_cfg (p_clients p) = Some (g_cfg G)) \<and>
     (main_rank (p_main p) \<le> 2 \<longrightarrow> p_routes p = [] \<and> p_handlers p = go_make) \<and>
     (main_rank (p_main p) > 2 \<longrightarrow>
        (\<exists>g1. SetupWithManager (g_gates G) (g_build G) (g_builders G) ([], go_make) =
          (Ok ((p_routes p, p_handlers p), g1) :: (string, _) result))) \<and>
     (main_rank (p_main p) > 3 \<longleftrightarrow> p_kube p \<noteq> None) \<and>
     (p_inited p \<longrightarrow> p_kube p \<noteq> None) \<and>
     (main_rank (p_main p) > 4 \<longrightarrow> p_inited p) \<and>
     p_checks p = (if main_rank (p_main p) \<le> 5 then [] else if main_rank (p_main p) = 6 then [''healthz'']
       else [''webhook-ready'', ''healthz'']) \<and>
     (main_rank (p_main p) > 7 \<longrightarrow> p_config p = flag_config (g_flags G)) \<and>
     (main_rank (p_main p) \<le> 8 \<longrightarrow> p_go p = NotStarted) \<and>
     (p_go p = SettingUp \<or> p_go p = SetUp \<longrightarrow> p_inited p) \<and>
     set (p_served p) \<subseteq> {flag_config (g_flags G)}"

lemma start_inv_start: "start_inv G start"
  by (simp add: start_inv_def start_def)

lemma start_inv_step: "main_step G p q \<Longrightarrow> start_inv G p \<Longrightarrow> start_inv G q"
  by (induction rule: main_step.induct)
    (auto simp: start_inv_def ends_def NewRegistry_def SetPersistenceConfig_flags ready_answer_def split: sum.splits)

lemma start_inv_reachable: "rtranclp (main_step G) start p \<Longrightarrow> start_inv G p"
  by (induction rule: rtranclp_induct) (blast intro: start_inv_start start_inv_step)+

text \<open>
  C4. The order of the start-up, over every interleaving of the three goroutines and every failure:
  a request is only ever served with the persistence switches of the command line, never with the
  defaults; while the manager serves, the clients are registered, the admission handlers are those of
  the enabled builders, both probes are installed and the certificates are in place; and the reconciler
  is set up only after the webhook controller has initialised.
\<close>

theorem startup_order:
  assumes "rtranclp (main_step G) start p"
  shows "set (p_served p) \<subseteq> {flag_config (g_flags G)} \<and>
     (p_main p = Serving \<longrightarrow> p_config p = flag_config (g_flags G) \<and> reg_cfg (p_clients p) = Some (g_cfg G) \<and>
        p_inited p \<and> p_checks p = [''webhook-ready'', ''healthz''] \<and>
        (\<exists>g1. SetupWithManager (g_gates G) (g_build G) (g_builders G) ([], go_make) =
           (Ok ((p_routes p, p_handlers p), g1) :: (string, _) result))) \<and>
     (p_go p = SetUp \<longrightarrow> p_inited p \<and> p_config p = flag_config (g_flags G))"
proof -
  have i: "start_inv G p" by (rule start_inv_reachable [OF assms])
  moreover have "main_rank (p_main p) > 8" if "p_go p = SetUp"
    using i that by (auto simp: start_inv_def not_less [symmetric])
  ultimately show ?thesis by (auto simp: start_inv_def)
qed

text \<open>Nothing happens after the process has ended.\<close>

lemma ended_stays: "main_step G p q \<Longrightarrow> p_exit p = None"
  by (induction rule: main_step.induct) simp_all

end
