(* ===== verification/Handler_Builder.thy ===== *)
theory Handler_Builder
  imports Webhook_Server Mutating_Handler
begin

text \<open>
  \<^verbatim>\<open>internal/webhook/util/framework/builder.go\<close> and the builder of
  \<^verbatim>\<open>internal/webhook/pod/mutating/webhooks.go\<close>: how \<^verbatim>\<open>SetupWithManager\<close> turns a registered builder into
  the handler it serves. The controller manager is a parameter of which the client and the scheme
  are read.
\<close>

section \<open>The interface\<close>

text \<open>
  \<^verbatim>\<open>HandlerBuilder\<close>: after \<^verbatim>\<open>WithControllerManager\<close> a builder builds, and what it builds depends on
  the manager and not on what the builder was given before.
\<close>

locale handler_builder =
  fixes WithControllerManager :: "'m \<Rightarrow> 'b \<Rightarrow> 'b"
    and Build :: "'b \<Rightarrow> (string, 'h) result"
    and handler_of :: "'m \<Rightarrow> 'h"
  assumes builds: "Build (WithControllerManager mgr b) = Ok (handler_of mgr)"
begin

text \<open>The expression of the loop in \<^verbatim>\<open>SetupWithManager\<close>, and the second call of it on the same builder.\<close>

lemma rebuilt: "Build (WithControllerManager mgr (WithControllerManager mgr' b)) = Ok (handler_of mgr)"
  by (rule builds)

lemma no_panic: "Build (WithControllerManager mgr b) \<noteq> Panic"
  by (simp add: builds)

end

section \<open>The builder of the pod handler\<close>

record ('w, 's) ctrl_manager =
  GetClient :: "'w client"
  GetScheme :: 's

record ('w, 's) podMutateBuilder =
  pmb_mgr :: "('w, 's) ctrl_manager option"

record ('w, 'd) PodMutatingHandler =
  pmh_Client :: "'w client"
  pmh_Decoder :: 'd

definition pmb_WithControllerManager ::
  "('w, 's) ctrl_manager \<Rightarrow> ('w, 's) podMutateBuilder \<Rightarrow> ('w, 's) podMutateBuilder" where
  "pmb_WithControllerManager mgr b = b\<lparr>pmb_mgr := Some mgr\<rparr>"

definition pmb_Build :: "('s \<Rightarrow> 'd) \<Rightarrow> ('w, 's) podMutateBuilder \<Rightarrow> (string, ('w, 'd) PodMutatingHandler) result" where
  "pmb_Build NewDecoder b =
     (case pmb_mgr b of
        None \<Rightarrow> Panic
      | Some mgr \<Rightarrow> Ok \<lparr>pmh_Client = GetClient mgr, pmh_Decoder = NewDecoder (GetScheme mgr)\<rparr>)"

definition pod_handler :: "('s \<Rightarrow> 'd) \<Rightarrow> ('w, 's) ctrl_manager \<Rightarrow> ('w, 'd) PodMutatingHandler" where
  "pod_handler NewDecoder mgr = \<lparr>pmh_Client = GetClient mgr, pmh_Decoder = NewDecoder (GetScheme mgr)\<rparr>"

interpretation pod_builder: handler_builder pmb_WithControllerManager "pmb_Build NewDecoder" "pod_handler NewDecoder"
  for NewDecoder
  by unfold_locales (simp add: pmb_Build_def pmb_WithControllerManager_def pod_handler_def)

section \<open>What the program serves by default\<close>

text \<open>
  \<open>build\<close> is what \<^verbatim>\<open>handlerBuilder.WithControllerManager(mgr).Build()\<close> returns. With the gates as the
  package registers them, the program serves the pod handler, on the manager's client, under
  \<^verbatim>\<open>/mutate-pod\<close>, and its two own paths, and nothing else.
\<close>

lemma default_serves_pod_handler:
  assumes ok: "gate_ok F knows" and build: "\<And>b. pmb_Build NewDecoder (pmb_WithControllerManager mgr b) = Ok (build b)"
  shows "\<exists>gt hm g1. features_init F (DefaultMutableFeatureGate F) = Ok gt \<and>
     SetupWithManager (\<lambda>n. fg_Enabled F gt n = Ok True) build
        (add_pod_init b empty_registry) ([], go_make) =
       (Ok (([(''/mutate-pod'', Admission (pod_handler NewDecoder mgr)), (''/convert'', Conversion), (''/healthz'', Healthz)],
          hm), g1) :: (string, _) result)"
proof -
  have eq: "build = (\<lambda>b. pod_handler NewDecoder mgr)" using build by (simp add: pod_builder.builds fun_eq_iff)
  from features_registered [OF ok] obtain gt where
    gt: "features_init F (DefaultMutableFeatureGate F) = Ok gt" and
    k: "knows gt = [PodMutatingWebhook \<mapsto> True, DisablePVCReservation \<mapsto> False]" by blast
  have "fg_Enabled F gt PodMutatingWebhook = Ok True"
    using ok k by (simp add: gate_ok_def PodMutatingWebhook_def DisablePVCReservation_def)
  then have "SetupWithManager (\<lambda>n. fg_Enabled F gt n = Ok True) build
        (add_pod_init b empty_registry) ([], go_make) =
       (Ok (([(''/mutate-pod'', Admission (pod_handler NewDecoder mgr)), (''/convert'', Conversion), (''/healthz'', Healthz)],
          Some (fmupd ''/mutate-pod'' (pod_handler NewDecoder mgr) fmempty)), add_pod_init b empty_registry) :: (string, _) result)"
    by (simp add: eq SetupWithManager_def filterActiveHandlers_def disablePaths_def add_pod_registry Register_def
        go_make_def go_set_def Let_def)
  with gt show ?thesis by blast
qed

end
