(* ===== verification/Controller_Start.thy ===== *)
theory Controller_Start
  imports Webhook_Controller
begin

text \<open>
  The rest of \<^verbatim>\<open>webhook_controller.go\<close>: what \<^verbatim>\<open>New\<close> subscribes to and how \<^verbatim>\<open>Start\<close> runs, as a step
  relation over the informers that deliver events and fill their caches, the goroutine of \<^verbatim>\<open>Start\<close>, its
  worker and the context. client-go's informers and work queue are parameters: an informer delivers the
  events of the objects in its namespace, in any order and at any time.
\<close>

section \<open>Subscriptions\<close>

text \<open>The informers as resource and namespace: secrets of one namespace, configurations of all (\<^verbatim>\<open>NamespaceAll\<close>).\<close>

definition secretInformer :: "env \<Rightarrow> string \<times> string" where
  "secretInformer env = (''secrets'', GetNamespace env)"

definition admissionRegistrationInformer :: "string \<Rightarrow> string \<times> string" where
  "admissionRegistrationInformer resource = (resource, [])"

definition controller_synced :: "env \<Rightarrow> (string \<times> string) list" where
  "controller_synced env =
     [secretInformer env, admissionRegistrationInformer ''mutatingwebhookconfigurations'',
      admissionRegistrationInformer ''validatingwebhookconfigurations'']"

datatype kube_event =
    SecretAdded Secret
  | SecretUpdated Secret Secret
  | MutatingAdded MutatingWebhookConfiguration
  | MutatingUpdated MutatingWebhookConfiguration MutatingWebhookConfiguration
  | ValidatingAdded ValidatingWebhookConfiguration
  | ValidatingUpdated ValidatingWebhookConfiguration ValidatingWebhookConfiguration
  | ObjectDeleted string string

text \<open>The resource and the namespace of the object of an event.\<close>

fun event_object :: "kube_event \<Rightarrow> string \<times> string" where
  "event_object (SecretAdded s) = (''secrets'', om_Namespace (sec_Meta s))"
| "event_object (SecretUpdated old s) = (''secrets'', om_Namespace (sec_Meta s))"
| "event_object (MutatingAdded c) = (''mutatingwebhookconfigurations'', [])"
| "event_object (MutatingUpdated old c) = (''mutatingwebhookconfigurations'', [])"
| "event_object (ValidatingAdded c) = (''validatingwebhookconfigurations'', [])"
| "event_object (ValidatingUpdated old c) = (''validatingwebhookconfigurations'', [])"
| "event_object (ObjectDeleted r ns) = (r, ns)"

text \<open>The handlers that \<^verbatim>\<open>New\<close> installs; none of the three has a function for deletions.\<close>

fun handle_event :: "env \<Rightarrow> 'q workqueue \<Rightarrow> kube_event \<Rightarrow> 'q \<Rightarrow> 'q" where
  "handle_event env Q (SecretAdded s) q = secret_AddFunc env Q s q"
| "handle_event env Q (SecretUpdated old s) q = secret_UpdateFunc env Q old s q"
| "handle_event env Q (MutatingAdded c) q = mutating_AddFunc env Q c q"
| "handle_event env Q (MutatingUpdated old c) q = mutating_UpdateFunc env Q old c q"
| "handle_event env Q (ValidatingAdded c) q = validating_AddFunc env Q c q"
| "handle_event env Q (ValidatingUpdated old c) q = validating_UpdateFunc env Q old c q"
| "handle_event env Q (ObjectDeleted r ns) q = q"

section \<open>Start\<close>

datatype start_pc = AwaitingSync | AwaitingStop | StartReturned

record ('s, 'q) controller_run =
  cr_pc :: start_pc
  cr_state :: 's
  cr_queue :: 'q
  cr_events :: "kube_event list"
  cr_caches :: "(string \<times> string) set"
  cr_worker :: bool
  cr_ctxDone :: bool
  cr_crashed :: bool

definition started_run :: "'s \<Rightarrow> 'q \<Rightarrow> ('s, 'q) controller_run" where
  "started_run s q = \<lparr>cr_pc = AwaitingSync, cr_state = s, cr_queue = q, cr_events = [], cr_caches = {}, cr_worker = False,
     cr_ctxDone = False, cr_crashed = False\<rparr>"

text \<open>
  After \<^verbatim>\<open>informerFactory.Start\<close>: \<^verbatim>\<open>WaitForNamedCacheSync\<close> is true when all caches are filled and
  false when the context is done first; then the worker runs until the queue, which the return of \<^verbatim>\<open>Start\<close> shuts down,
  gives no more items. \<open>blocked q\<close> says that \<^verbatim>\<open>Get\<close> would wait.
\<close>

inductive controller_step ::
  "env \<Rightarrow> 'q workqueue \<Rightarrow> ('q \<Rightarrow> 'q) \<Rightarrow> ('q \<Rightarrow> bool) \<Rightarrow> ('s \<Rightarrow> (sync_error, unit) result \<times> 's) \<Rightarrow>
   ('s, 'q) controller_run \<Rightarrow> ('s, 'q) controller_run \<Rightarrow> bool"
  for env :: env and Q :: "'q workqueue" and ShutDown :: "'q \<Rightarrow> 'q" and blocked :: "'q \<Rightarrow> bool"
    and run :: "'s \<Rightarrow> (sync_error, unit) result \<times> 's"
where
  event: "event_object ev \<in> set (controller_synced env) \<Longrightarrow>
    controller_step env Q ShutDown blocked run r
      (r\<lparr>cr_queue := handle_event env Q ev (cr_queue r), cr_events := cr_events r @ [ev]\<rparr>)"
| cache: "x \<in> set (controller_synced env) \<Longrightarrow>
    controller_step env Q ShutDown blocked run r (r\<lparr>cr_caches := insert x (cr_caches r)\<rparr>)"
| ctx_done: "controller_step env Q ShutDown blocked run r (r\<lparr>cr_ctxDone := True\<rparr>)"
| synced: "cr_pc r = AwaitingSync \<Longrightarrow> set (controller_synced env) \<subseteq> cr_caches r \<Longrightarrow>
    controller_step env Q ShutDown blocked run r (r\<lparr>cr_pc := AwaitingStop, cr_worker := True\<rparr>)"
| not_synced: "cr_pc r = AwaitingSync \<Longrightarrow> cr_ctxDone r \<Longrightarrow>
    controller_step env Q ShutDown blocked run r (r\<lparr>cr_pc := StartReturned, cr_queue := ShutDown (cr_queue r)\<rparr>)"
| stopped: "cr_pc r = AwaitingStop \<Longrightarrow> cr_ctxDone r \<Longrightarrow>
    controller_step env Q ShutDown blocked run r (r\<lparr>cr_pc := StartReturned, cr_queue := ShutDown (cr_queue r)\<rparr>)"
| work: "cr_worker r \<Longrightarrow> \<not> cr_crashed r \<Longrightarrow> \<not> blocked (cr_queue r) \<Longrightarrow>
    processNextWorkItem Q run (cr_state r, cr_queue r) = (res, (s, q)) \<Longrightarrow>
    controller_step env Q ShutDown blocked run r
      (r\<lparr>cr_state := s, cr_queue := q, cr_worker := (res = Ok True), cr_crashed := (res = Panic)\<rparr>)"
| worker_again: "cr_pc r = AwaitingStop \<Longrightarrow> \<not> cr_ctxDone r \<Longrightarrow> \<not> cr_crashed r \<Longrightarrow>
    controller_step env Q ShutDown blocked run r (r\<lparr>cr_worker := True\<rparr>)"

section \<open>A queue without items\<close>

text \<open>
  The law of the work queue that is used: a queue that holds no item and has none scheduled, \<open>idle\<close>, stays so when it
  is shut down, and \<^verbatim>\<open>Get\<close> on it waits or reports that the queue is shut down.
\<close>

definition idle_ok :: "'q workqueue \<Rightarrow> ('q \<Rightarrow> 'q) \<Rightarrow> ('q \<Rightarrow> bool) \<Rightarrow> ('q \<Rightarrow> bool) \<Rightarrow> bool" where
  "idle_ok Q ShutDown blocked idle \<longleftrightarrow>
     (\<forall>q. idle q \<longrightarrow> idle (ShutDown q)) \<and>
     (\<forall>q key quit q'. idle q \<longrightarrow> \<not> blocked q \<longrightarrow> wq_Get Q q = ((key, quit), q') \<longrightarrow> quit \<and> idle q')"

fun relevant :: "env \<Rightarrow> kube_event \<Rightarrow> bool" where
  "relevant env (SecretAdded s) \<longleftrightarrow> om_Name (sec_Meta s) = GetSecretName env"
| "relevant env (SecretUpdated old s) \<longleftrightarrow> om_Name (sec_Meta s) = GetSecretName env"
| "relevant env (MutatingAdded c) \<longleftrightarrow> om_Name (mwc_Meta c) = GetMutatingWebhookName env"
| "relevant env (MutatingUpdated old c) \<longleftrightarrow> om_Name (mwc_Meta c) = GetMutatingWebhookName env"
| "relevant env (ValidatingAdded c) \<longleftrightarrow> om_Name (vwc_Meta c) = GetValidatingWebhookName env"
| "relevant env (ValidatingUpdated old c) \<longleftrightarrow> om_Name (vwc_Meta c) = GetValidatingWebhookName env"
| "relevant env (ObjectDeleted r ns) \<longleftrightarrow> False"

lemma handle_event_relevant: "handle_event env Q ev q = (if relevant env ev then wq_Add Q [] q else q)"
  by (cases ev) (auto simp: secret_AddFunc_def secret_UpdateFunc_def mutating_AddFunc_def mutating_UpdateFunc_def
      validating_AddFunc_def validating_UpdateFunc_def)

section \<open>What holds while the controller runs\<close>

lemma work_item_channel:
  assumes "ctl_ok s" and "processNextWorkItem Q (sync env cd C now goos k handlers) (s, q) = (res, (s', q'))"
  shows "ctl_ok s'" and "uninit_closed s \<Longrightarrow> uninit_closed s'"
    and "res = Panic \<Longrightarrow> \<exists>ca w w'. Ensure env cd k handlers ca w = (Panic, w')"
proof -
  obtain key quit q1 where g: "wq_Get Q q = ((key, quit), q1)" by (metis surj_pair)
  obtain rs s1 where y: "sync env cd C now goos k handlers s = (rs, s1)" by fastforce
  have c: "quit \<and> res = Ok False \<and> s' = s \<or> \<not> quit \<and> s' = s1 \<and> (res = Panic \<longrightarrow> rs = Panic)"
    using assms(2) g y by (cases rs) (auto simp: processNextWorkItem_def split: if_splits)
  note S = sync_channel [OF assms(1) y]
  show "ctl_ok s'" using c S(1) assms(1) by auto
  show "uninit_closed s \<Longrightarrow> uninit_closed s'" using c S(2) by auto
  show "\<exists>ca w w'. Ensure env cd k handlers ca w = (Panic, w')" if "res = Panic" using c S(3) that by auto
qed

definition run_ok where
  "run_ok env cd k handlers idle s0 r \<longleftrightarrow>
     ctl_ok (cr_state r) \<and>
     (cr_crashed r \<longrightarrow> (\<exists>ca w w'. Ensure env cd k handlers ca w = (Panic, w'))) \<and>
     (cr_worker r \<or> cr_pc r = AwaitingStop \<longrightarrow> set (controller_synced env) \<subseteq> cr_caches r) \<and>
     (\<not> cr_worker r \<and> \<not> set (controller_synced env) \<subseteq> cr_caches r \<longrightarrow> cr_state r = s0) \<and>
     (list_all (\<lambda>ev. \<not> relevant env ev) (cr_events r) \<longrightarrow> idle (cr_queue r) \<and> cr_state r = s0)"

lemma run_ok_step:
  assumes q: "idle_ok Q ShutDown blocked idle"
    and st: "controller_step env Q ShutDown blocked (sync env cd C now goos k handlers) r r'"
    and ok: "run_ok env cd k handlers idle s0 r"
  shows "run_ok env cd k handlers idle s0 r'"
  using st
proof (cases rule: controller_step.cases)
  case (work res s q1)
  have ctl: "ctl_ok (cr_state r)" using ok by (simp add: run_ok_def)
  note W = work_item_channel [OF ctl work(5)]
  have "idle q1 \<and> s = cr_state r" if "idle (cr_queue r)"
  proof -
    obtain key quit q2 where g: "wq_Get Q (cr_queue r) = ((key, quit), q2)" by (metis surj_pair)
    with q that work(4) have "quit" "idle q2" unfolding idle_ok_def by blast+
    with g work(5) show ?thesis by (simp add: processNextWorkItem_def)
  qed
  with work W ok show ?thesis unfolding run_ok_def by auto
next
  case (event ev)
  with ok show ?thesis by (auto simp: run_ok_def handle_event_relevant)
qed (use ok q in \<open>auto simp: run_ok_def idle_ok_def\<close>)

lemma run_ok_steps:
  assumes "idle_ok Q ShutDown blocked idle"
    and "rtranclp (controller_step env Q ShutDown blocked (sync env cd C now goos k handlers)) (started_run s0 q0) r"
    and "ctl_ok s0" and "idle q0"
  shows "run_ok env cd k handlers idle s0 r"
  using assms(2)
proof (induction rule: rtranclp_induct)
  case base
  show ?case using assms(3,4) by (simp add: run_ok_def started_run_def)
next
  case (step r1 r2)
  show ?case by (rule run_ok_step [OF assms(1) step.hyps(2) step.IH])
qed

text \<open>
  C30. A run of the webhook controller, from the start with an empty queue and over every order of events,
  cache fills, work items and the end of the context. \<^verbatim>\<open>sync\<close> is not called before the three caches are
  filled, and not before an event for the secret of its name in its namespace or for one of the two
  webhook configurations has arrived: \<^verbatim>\<open>Start\<close> itself puts nothing into the queue. The channel that
  announces the initialisation is closed at most once, and a panic of the worker can only come from the webhook
  configurations.
\<close>

theorem controller_waits_for_event:
  assumes "idle_ok Q ShutDown blocked idle"
    and "rtranclp (controller_step env Q ShutDown blocked (sync env cd C now goos k handlers)) (started_run s0 q0) r"
    and "ctl_ok s0" and "idle q0"
  shows "ctl_ok (cr_state r) \<and>
     (\<not> set (controller_synced env) \<subseteq> cr_caches r \<longrightarrow> cr_state r = s0) \<and>
     (list_all (\<lambda>ev. \<not> relevant env ev) (cr_events r) \<longrightarrow> cr_state r = s0) \<and>
     (cr_crashed r \<longrightarrow> (\<exists>ca w w'. Ensure env cd k handlers ca w = (Panic, w')))"
  using run_ok_steps [OF assms] unfolding run_ok_def by blast

end
