(* ===== verification/Reference_Kube.thy ===== *)
theory Reference_Kube
  imports Webhook_Config
begin

text \<open>
  A small server that satisfies \<^const>\<open>kube_ok\<close>, codecs and configurations to run the webhook
  controller on. It shows that the hypotheses of the theorems can hold; no theorem rests on it.
\<close>

section \<open>The store and its clientset\<close>

record kstore =
  ks_MWC :: "string \<Rightarrow> MutatingWebhookConfiguration option"
  ks_VWC :: "string \<Rightarrow> ValidatingWebhookConfiguration option"
  ks_Secret :: "string \<times> string \<Rightarrow> Secret option"

definition keyed :: "('o \<Rightarrow> 'k) \<Rightarrow> ('k \<Rightarrow> 'o option) \<Rightarrow> 'k \<Rightarrow> 'o option" where
  "keyed key m k = (case m k of None \<Rightarrow> None | Some x \<Rightarrow> if key x = k then Some x else None)"

definition sec_key :: "Secret \<Rightarrow> string \<times> string" where
  "sec_key s = (om_Namespace (sec_Meta s), om_Name (sec_Meta s))"

definition ks_view :: "kstore kube_view" where
  "ks_view = \<lparr>kv_MWC = (\<lambda>w. keyed (\<lambda>c. om_Name (mwc_Meta c)) (ks_MWC w)),
     kv_VWC = (\<lambda>w. keyed (\<lambda>c. om_Name (vwc_Meta c)) (ks_VWC w)),
     kv_Secret = (\<lambda>w. keyed sec_key (ks_Secret w))\<rparr>"

definition ks_update ::
  "('o \<Rightarrow> 'k) \<Rightarrow> ('o \<Rightarrow> string) \<Rightarrow> ('o \<Rightarrow> object_meta) \<Rightarrow> bool \<Rightarrow> (kstore \<Rightarrow> 'k \<Rightarrow> 'o option) \<Rightarrow>
   (('k \<Rightarrow> 'o option) \<Rightarrow> kstore \<Rightarrow> kstore) \<Rightarrow> 'o \<Rightarrow> kstore \<Rightarrow> go_error \<times> kstore" where
  "ks_update key nm meta blind get put x w =
     (case keyed key (get w) (key x) of
        None \<Rightarrow> (Some (NotFound (nm x)), w)
      | Some old \<Rightarrow>
          if om_ResourceVersion (meta x) = om_ResourceVersion (meta old) \<or>
             blind \<and> om_ResourceVersion (meta x) = []
          then (None, put ((get w)(key x \<mapsto> x)) w) else (Some (Conflict (nm x)), w))"

definition ks_client :: "kstore kube" where
  "ks_client = \<lparr>
     GetMWC = (\<lambda>n w. found n (kv_MWC ks_view w n) w),
     GetVWC = (\<lambda>n w. found n (kv_VWC ks_view w n) w),
     UpdateMWC = ks_update (\<lambda>c. om_Name (mwc_Meta c)) (\<lambda>c. om_Name (mwc_Meta c)) mwc_Meta False ks_MWC
        (\<lambda>m w. w\<lparr>ks_MWC := m\<rparr>),
     UpdateVWC = ks_update (\<lambda>c. om_Name (vwc_Meta c)) (\<lambda>c. om_Name (vwc_Meta c)) vwc_Meta False ks_VWC
        (\<lambda>m w. w\<lparr>ks_VWC := m\<rparr>),
     GetSecret = (\<lambda>ns n w. found n (kv_Secret ks_view w (ns, n)) w),
     CreateSecret = (\<lambda>s w. case kv_Secret ks_view w (sec_key s) of
          Some _ \<Rightarrow> (Some (AlreadyExists (om_Name (sec_Meta s))), w)
        | None \<Rightarrow> (None, w\<lparr>ks_Secret := (ks_Secret w)(sec_key s \<mapsto> s)\<rparr>)),
     UpdateSecret = ks_update sec_key (\<lambda>s. om_Name (sec_Meta s)) sec_Meta True ks_Secret
        (\<lambda>m w. w\<lparr>ks_Secret := m\<rparr>)\<rparr>"

lemma keyed_upd [simp]: "keyed key (m(key x \<mapsto> x)) = (keyed key m)(key x \<mapsto> x)"
  by (auto simp: keyed_def fun_eq_iff)

lemma ks_ok: "kube_ok ks_client ks_view"
proof -
  have "kube_reads_ok ks_client ks_view" by (simp add: kube_reads_ok_def ks_client_def)
  moreover have "kube_keys_ok ks_view"
    by (auto simp: kube_keys_ok_def ks_view_def keyed_def sec_key_def split: option.splits if_splits)
  moreover have "kube_updates_ok ks_client ks_view"
    unfolding kube_updates_ok_def
    by (auto simp: ks_client_def ks_view_def ks_update_def stored_as_def
        keyed_upd [where key = "\<lambda>c. om_Name (mwc_Meta c)"] keyed_upd [where key = "\<lambda>c. om_Name (vwc_Meta c)"])
  moreover have "kube_secrets_ok ks_client ks_view"
    unfolding kube_secrets_ok_def sec_key_def [symmetric]
    by (auto simp: ks_client_def ks_view_def ks_update_def stored_as_def split: option.split)
  ultimately show ?thesis by (simp add: kube_ok_def)
qed

section \<open>Configurations\<close>

definition a_webhook :: MutatingWebhook where
  "a_webhook = \<lparr>mw_ClientConfig = \<lparr>cc_URL = None,
     cc_Service = Some \<lparr>sr_Namespace = ''elsewhere'', sr_Name = ''other'', sr_Path = Some ''/mutate-pod'',
       sr_rest = []\<rparr>, cc_CABundle = None\<rparr>, mw_rest = ''mpod.kb.io''\<rparr>"

definition config_meta :: "string \<Rightarrow> object_meta" where
  "config_meta n = zero_meta\<lparr>om_Name := n\<rparr>"

definition env0 :: env where
  "env0 = (\<lambda>n. if n = ''WEBHOOK_CERT_DIR'' then ''/certs'' else [])"

definition configs :: "MutatingWebhook list \<Rightarrow> kstore" where
  "configs whs = \<lparr>
     ks_MWC = [GetMutatingWebhookName env0 \<mapsto>
       \<lparr>mwc_Meta = config_meta (GetMutatingWebhookName env0), mwc_Webhooks = Some whs\<rparr>],
     ks_VWC = [GetValidatingWebhookName env0 \<mapsto>
       \<lparr>vwc_Meta = config_meta (GetValidatingWebhookName env0), vwc_Webhooks = None\<rparr>],
     ks_Secret = Map.empty\<rparr>"

text \<open>A codec that knows the two templates of the examples.\<close>

definition config_json :: config_codec where
  "config_json = \<lparr>
     marshalMW = (\<lambda>whs. if whs = Some [a_webhook] then Inr ''[mpod]'' else Inl ''unsupported''),
     unmarshalMW = (\<lambda>s. if s = ''[mpod]'' then Inr (Some [a_webhook]) else Inl ''unsupported''),
     marshalVW = (\<lambda>whs. if whs = None then Inr ''null'' else Inl ''unsupported''),
     unmarshalVW = (\<lambda>s. if s = ''null'' then Inr None else Inl ''unsupported''),
     urlPath = (\<lambda>u. Inl ''unsupported'')\<rparr>"

definition pod_handlers :: "unit gomap" where
  "pod_handlers = Some (fmupd ''/mutate-pod'' () fmempty)"

lemma configs_view:
  "kv_MWC ks_view (configs whs) (GetMutatingWebhookName env0) =
     Some \<lparr>mwc_Meta = config_meta (GetMutatingWebhookName env0), mwc_Webhooks = Some whs\<rparr>"
  "kv_VWC ks_view (configs whs) (GetValidatingWebhookName env0) =
     Some \<lparr>vwc_Meta = config_meta (GetValidatingWebhookName env0), vwc_Webhooks = None\<rparr>"
  by (simp_all add: ks_view_def keyed_def configs_def config_meta_def)

lemma env0_values:
  "GetHost env0 = []" "GetNamespace env0 = ''persistent-pod-state-system''"
  "GetServiceName env0 = ''persistentpodstate-webhook-service''"
  by (simp_all add: GetHost_def GetNamespace_def GetServiceName_def env0_def)

lemma configs_desired:
  "\<exists>mc'. mutating_desired env0 config_json pod_handlers ca
      \<lparr>mwc_Meta = config_meta (GetMutatingWebhookName env0), mwc_Webhooks = Some [a_webhook]\<rparr> = Ok mc'"
  "\<exists>vc'. validating_desired env0 config_json pod_handlers ca
      \<lparr>vwc_Meta = config_meta (GetValidatingWebhookName env0), vwc_Webhooks = None\<rparr> = Ok vc'"
  by (simp_all add: mutating_desired_def parseMutatingTemplate_def validating_desired_def parseValidatingTemplate_def
      config_json_def config_meta_def zero_meta_def go_make_def items_def getPath_def a_webhook_def pod_handlers_def
      env0_values Let_def)

lemma configs_ensured_in:
  assumes "kv_MWC ks_view w = kv_MWC ks_view (configs [a_webhook])" "kv_VWC ks_view w = kv_VWC ks_view (configs [a_webhook])"
  shows "\<exists>w1. Ensure env0 config_json ks_client pod_handlers ca w = (Ok (), w1)"
proof -
  obtain mc' vc' where d: "mutating_desired env0 config_json pod_handlers ca
      \<lparr>mwc_Meta = config_meta (GetMutatingWebhookName env0), mwc_Webhooks = Some [a_webhook]\<rparr> = Ok mc'"
    "validating_desired env0 config_json pod_handlers ca
      \<lparr>vwc_Meta = config_meta (GetValidatingWebhookName env0), vwc_Webhooks = None\<rparr> = Ok vc'"
    using configs_desired [of ca] by blast
  from ensured [OF ks_ok _ _ d, of w] assms show ?thesis by (simp add: configs_view)
qed

lemmas configs_ensured = configs_ensured_in [OF refl refl]

theorem ensure_registers_witness:
  "\<exists>new wh. kv_MWC ks_view (snd (Ensure env0 config_json ks_client pod_handlers (Some ''CA'')
        (configs [a_webhook]))) (GetMutatingWebhookName env0) = Some new \<and>
     mwc_Webhooks new = Some [wh] \<and> reached_as env0 (Some ''CA'') (mw_ClientConfig a_webhook) (mw_ClientConfig wh)"
proof -
  from configs_ensured [of "Some ''CA''"] obtain w1 where
    w1: "Ensure env0 config_json ks_client pod_handlers (Some ''CA'') (configs [a_webhook]) = (Ok (), w1)" ..
  from ensure_registers [OF ks_ok w1, THEN conjunct1] obtain new where
    n: "kv_MWC ks_view w1 (GetMutatingWebhookName env0) = Some new"
    "mutating_registered env0 config_json pod_handlers (Some ''CA'')
      \<lparr>mwc_Meta = config_meta (GetMutatingWebhookName env0), mwc_Webhooks = Some [a_webhook]\<rparr> new"
    by (auto simp: configs_view)
  have "handled config_json pod_handlers (mw_ClientConfig a_webhook)"
    by (simp add: handled_def getPath_def a_webhook_def pod_handlers_def)
  with n(2) obtain wh where "items (mwc_Webhooks new) = [wh]"
    "reached_as env0 (Some ''CA'') (mw_ClientConfig a_webhook) (mw_ClientConfig wh)"
    by (auto simp: mutating_registered_def registers_def config_meta_def zero_meta_def items_def list_all2_Cons1)
  then show ?thesis using n(1) w1 by (auto simp: items_def split: option.splits)
qed

theorem ensure_all_or_nothing_witness:
  "snd (Ensure env0 config_json ks_client pod_handlers (Some ''CA'') (configs [])) = configs [] \<and>
   (\<exists>w1 mc'. Ensure env0 config_json ks_client pod_handlers (Some ''CA'') (configs [a_webhook]) = (Ok (), w1) \<and>
      mutating_desired env0 config_json pod_handlers (Some ''CA'')
        \<lparr>mwc_Meta = config_meta (GetMutatingWebhookName env0), mwc_Webhooks = Some [a_webhook]\<rparr> = Ok mc' \<and>
      map_option mwc_Webhooks (kv_MWC ks_view w1 (GetMutatingWebhookName env0)) = Some (mwc_Webhooks mc'))"
proof
  have "Ensure env0 config_json ks_client pod_handlers (Some ''CA'') (configs []) =
      (Fail (BadTemplate ''unsupported''),
       snd (Ensure env0 config_json ks_client pod_handlers (Some ''CA'') (configs [])))"
    by (simp add: Ensure_def kube_reads [OF ks_ok] configs_view parseMutatingTemplate_def config_json_def
        config_meta_def zero_meta_def)
  from ensure_all_or_nothing [OF ks_ok this]
  show "snd (Ensure env0 config_json ks_client pod_handlers (Some ''CA'') (configs [])) = configs []" by simp
next
  from configs_ensured [of "Some ''CA''"] obtain w1 where
    w1: "Ensure env0 config_json ks_client pod_handlers (Some ''CA'') (configs [a_webhook]) = (Ok (), w1)" ..
  from ensure_all_or_nothing [OF ks_ok w1] w1
  show "\<exists>w1 mc'. Ensure env0 config_json ks_client pod_handlers (Some ''CA'') (configs [a_webhook]) = (Ok (), w1) \<and>
      mutating_desired env0 config_json pod_handlers (Some ''CA'')
        \<lparr>mwc_Meta = config_meta (GetMutatingWebhookName env0), mwc_Webhooks = Some [a_webhook]\<rparr> = Ok mc' \<and>
      map_option mwc_Webhooks (kv_MWC ks_view w1 (GetMutatingWebhookName env0)) = Some (mwc_Webhooks mc')"
    by (auto simp: configs_view)
qed

end
