(* ===== verification/Reference_Dir.thy ===== *)
theory Reference_Dir
  imports Atomic_Update
begin

text \<open>
  Concrete directories on which the theorems about the atomic writer are applied: the empty
  \<^verbatim>\<open>/certs\<close>, the same with one published version, and the latter with the link that a run leaves
  which fails in the rename and again in the removal.
\<close>

section \<open>Directories\<close>

definition certs :: fpath where
  "certs = [''certs'']"

definition dir_fs :: "nodes \<Rightarrow> bool list \<Rightarrow> fs" where
  "dir_fs ns bs = \<lparr>fs_nodes = ns, fs_cwd = [], fs_umask = 18, fs_faults = bs, fs_history = []\<rparr>"

definition empty_nodes :: nodes where
  "empty_nodes = [(certs, Dir 493)]"

definition version_nodes :: nodes where
  "version_nodes =
     [(certs @ [''..data''], Link ''..7''), (certs @ [''ca''], Link ''..data/ca''),
      (certs @ [''..7'', ''ca''], File ''old'' 420), (certs @ [''..7''], Dir 493), (certs, Dir 493)]"

definition leftover_nodes :: nodes where
  "leftover_nodes = (certs @ [''..data_tmp''], Link ''..8'') # version_nodes"

definition one_file :: "string \<Rightarrow> string \<Rightarrow> payload" where
  "one_file n d = [(n, \<lparr>fp_Data = Some d, fp_Mode = 420\<rparr>)]"

lemmas dir_defs = certs_def dir_fs_def empty_nodes_def version_nodes_def leftover_nodes_def
  one_file_def dataDirName_def newDataDirName_def

lemma certs_path: "abs_path certs = ''/certs''"
  by (simp add: certs_def abs_path_def)

lemma flat_one: "visible_name n \<Longrightarrow> flat (one_file n d)"
  by (simp add: one_file_def)

lemma visible_ca: "visible_name ''ca''"
  by (simp add: visible_name_def name_ok_def maxFileNameLength_def HasPrefix_def)

lemma ts_names: "ts_name ''..7''" "ts_name ''..91''" "ts_name ''..92''"
  by (simp_all add: ts_name_def name_ok_def HasPrefix_def dataDirName_def newDataDirName_def)

lemma rands_ok: "\<forall>r \<in> set [''1'', ''2'']. ts_name (''..9'' @ r)"
  by (simp add: ts_names)

lemma plain_certs: "look ns certs = Some (Dir m) \<Longrightarrow> plain ns certs"
proof -
  have "plain ns []" by (auto simp: plain_def names_ok_def)
  moreover assume "look ns certs = Some (Dir m)"
  ultimately have "plain ns ([] @ [''certs''])"
    unfolding plain_snoc by (simp add: certs_def name_ok_def)
  then show ?thesis by (simp add: certs_def)
qed

lemma inv_empty: "writer_inv empty_nodes certs"
  unfolding writer_inv_def by (intro conjI plain_certs) (simp_all add: dir_defs look_def)

lemma tidy_empty: "tidy empty_nodes certs"
  unfolding tidy_def using inv_empty by (simp add: dir_defs look_def data_view_def)

lemma data_version:
  assumes "\<And>q. look ns (certs @ ''..7'' # q) = look version_nodes (certs @ ''..7'' # q)"
  shows "data_dir ns certs ''..7''"
proof -
  have "q = [''ca''] \<or> look version_nodes (certs @ ''..7'' # q) = None" if "q \<noteq> []" for q
    using that by (auto simp: dir_defs look_def)
  then show ?thesis
    using ts_names(1) visible_ca unfolding data_dir_def assms
    by (auto simp: dir_defs look_def)
qed

lemma inv_version: "writer_inv version_nodes certs"
proof -
  have "plain version_nodes certs" by (rule plain_certs) (simp add: dir_defs look_def)
  moreover have "look version_nodes (certs @ [dataDirName]) = Some (Link ''..7'')"
    by (simp add: dir_defs look_def)
  ultimately show ?thesis using data_version [of version_nodes] by (simp add: writer_inv_def)
qed

lemma inv_leftover: "writer_inv leftover_nodes certs"
proof -
  have "plain leftover_nodes certs" by (rule plain_certs) (simp add: dir_defs look_def)
  moreover have "look leftover_nodes (certs @ [dataDirName]) = Some (Link ''..7'')"
    by (simp add: dir_defs look_def)
  moreover have "data_dir leftover_nodes certs ''..7''"
    by (rule data_version) (simp add: dir_defs look_def)
  ultimately show ?thesis by (simp add: writer_inv_def)
qed

lemma version_view: "data_view version_nodes certs n = (if n = ''ca'' then Some (File ''old'' 420) else None)"
  by (simp add: data_view_def dir_defs look_def)

lemma leftover_view: "data_view leftover_nodes certs n = data_view version_nodes certs n"
  by (simp add: data_view_def dir_defs look_def)

lemma tidy_version: "tidy version_nodes certs"
  unfolding tidy_def version_view using inv_version by (simp add: dir_defs look_def visible_link_def)

lemma dir_fs_simps [simp]: "fs_nodes (dir_fs ns bs) = ns" "fs_faults (dir_fs ns bs) = bs"
  by (simp_all add: dir_fs_def)

section \<open>Witnesses\<close>

text \<open>\<^verbatim>\<open>write_atomic\<close>, with the fifth and the ninth call failing.\<close>

theorem write_atomic_witness:
  "case Write ''linux'' ''..9'' [''1'', ''2''] (abs_path certs) (one_file ''ca'' ''new'')
      (dir_fs version_nodes [False, False, False, False, True, False, False, False, True]) of
     (r, f') \<Rightarrow> along (old_or_new version_nodes certs (one_file ''ca'' ''new''))
       (dir_fs version_nodes [False, False, False, False, True, False, False, False, True]) f'"
  using write_atomic [of "dir_fs version_nodes [False, False, False, False, True, False, False, False, True]"
      certs "one_file ''ca'' ''new''" "''linux''" "[''1'', ''2'']" "''..9''"]
    inv_version flat_one [OF visible_ca] rands_ok
  by (simp split: prod.split)

theorem write_publishes_witness:
  "\<exists>f'. Write ''linux'' ''..9'' [''1'', ''2''] (abs_path certs) (one_file ''tls'' ''new'') (dir_fs version_nodes []) = (Inr (), f') \<and>
     ReadFile (abs_path (certs @ [''tls''])) f' = (Inr ''new'', f') \<and>
     look (fs_nodes f') (certs @ [''ca'']) = None"
proof -
  have "visible_name ''tls''"
    by (simp add: visible_name_def name_ok_def maxFileNameLength_def HasPrefix_def)
  moreover have "look version_nodes (certs @ [''..91'']) = None" by (simp add: dir_defs look_def)
  moreover have "linkable version_nodes certs (one_file ''tls'' ''new'')"
    by (simp add: linkable_def dir_defs look_def)
  ultimately show ?thesis
    using write_publishes [of "dir_fs version_nodes []" certs "one_file ''tls'' ''new''" "''linux''"
        "[''1'', ''2'']" "''..9''"] tidy_version flat_one [of "''tls''"] rands_ok version_view [of "''ca''"]
    by (auto simp: one_file_def content_def)
qed

text \<open>The left-over link is what a run leaves whose rename and clean-up fail.\<close>

lemma leftover_reached:
  "look (fs_nodes (snd (Write ''linux'' ''..'' [''8''] ''/certs'' (one_file ''ca'' ''new'')
     (dir_fs version_nodes [False, False, False, False, False, False, False, False, False, False, False,
        False, True, True])))) (certs @ [newDataDirName]) = Some (Link ''..8'')"
  by code_simp


theorem validated_payload_stays_below_witness:
  "\<exists>q. names_ok q \<and> Join [abs_path certs, ''..data''] = abs_path (certs @ q)"
proof (rule validated_payload_stays_below)
  show "names_ok certs" by (simp add: certs_def name_ok_def)
  show "validatePayload (one_file ''./..data'' ''x'') = Inr (one_file ''..data'' ''x'')"
    by (simp add: one_file_def validatePayload_def validatePath_def Let_def IsAbs_def
        maxFileNameLength_def maxPathLength_def Clean_def clean_elems_def clean_step_def HasPrefix_def)
  show "(''..data'', \<lparr>fp_Data = Some ''x'', fp_Mode = 420\<rparr>) \<in> set (one_file ''..data'' ''x'')"
    by (simp add: one_file_def)
qed

end
