(* ===== verification/Reference_Certs.thy ===== *)
theory Reference_Certs
  imports Controller_Start Reference_Kube Reference_Dir "HOL-Library.Countable"
begin

text \<open>
  A symbolic cryptography that satisfies \<open>crypto_ok\<close>: a key is a number, a certificate lists what it
  says, and the encodings number the terms. With it the certificate stores of the model are
  interpreted, and the theorems about certificates and about \<^verbatim>\<open>sync\<close> applied.
\<close>

section \<open>Symbolic certificates\<close>

datatype sym_cert = SymCert (sy_key: nat) (sy_dns: "string list") (sy_ips: "string list")
  (sy_from: int) (sy_until: int) (sy_ca: bool) (sy_issuer: nat) (sy_server: bool)

instance sym_cert :: countable
  by countable_datatype

definition enc :: "'a::countable \<Rightarrow> string" where
  "enc x = replicate (to_nat x) CHR ''x''"

definition dec :: "string \<Rightarrow> 'a::countable" where
  "dec s = from_nat (length s)"

lemma dec_enc [simp]: "dec (enc x) = x"
  by (simp add: dec_def enc_def)

fun pem_block :: "char \<Rightarrow> string \<Rightarrow> string option" where
  "pem_block t [] = None"
| "pem_block t (c # b) = (if c = t then Some b else None)"

definition sym_host :: "string \<Rightarrow> string option" where
  "sym_host h =
     (if h = ''127.0.0.1'' then Some ''::ffff:127.0.0.1'' else if h = ''::1'' then Some ''::1'' else None)"

definition sym_to4 :: "string \<Rightarrow> string option" where
  "sym_to4 ip = (if ip = ''::ffff:127.0.0.1'' \<or> ip = ''127.0.0.1'' then Some ''127.0.0.1'' else None)"

definition sym_names :: "string list \<Rightarrow> string list \<Rightarrow> string \<Rightarrow> bool" where
  "sym_names dns ips h =
     (case sym_host (bare_host h) of
        Some ip \<Rightarrow> (\<exists>x \<in> set ips. ip = x \<or> sym_to4 ip \<noteq> None \<and> sym_to4 ip = sym_to4 x)
      | None \<Rightarrow> h \<in> set dns)"

definition sym_valid :: "int \<Rightarrow> sym_cert \<Rightarrow> bool" where
  "sym_valid t c \<longleftrightarrow> sy_from c \<le> t \<and> t \<le> sy_until c"

definition sym_crypto :: "(nat, sym_cert, nat) crypto" where
  "sym_crypto = \<lparr>
     GenerateKey = (\<lambda>n r. (Inr r, Suc r)),
     RandInt = (\<lambda>n r. (Inr (int r), Suc r)),
     CreateCertificate = (\<lambda>t ca pub key r.
       (Inr (enc (SymCert pub (items (ct_DNSNames t)) (items (ct_IPAddresses t)) (ct_NotBefore t) (ct_NotAfter t)
          False key (ServerAuth \<in> set (ct_ExtKeyUsage t)))), Suc r)),
     NewSelfSignedCACert = (\<lambda>now n k r. (Inr (SymCert k [] [] now (now + 3600 * 24 * 365 * 10) True k True), Suc r)),
     ParseCertificate = (\<lambda>b. Inr (dec b)),
     ParseCertsPEM = (\<lambda>p. case pem_block CHR ''C'' p of None \<Rightarrow> Inl ''no certificate'' | Some b \<Rightarrow> Inr [dec b]),
     ParsePrivateKeyPEM = (\<lambda>p. case pem_block CHR ''K'' p of None \<Rightarrow> Inl ''no key'' | Some b \<Rightarrow> Inr (Some (dec b))),
     CertRaw = enc,
     CertNotBefore = sy_from,
     MarshalPKCS1PrivateKey = enc,
     PemEncode = (\<lambda>ty b. (if ty = ''KEY'' then CHR ''K'' else CHR ''C'') # b),
     PemDecode = (\<lambda>p. if p = [] then None else Some (tl p)),
     RSAPrivateKeyBlockType = ''KEY'',
     CertificateBlockType = ''CERTIFICATE'',
     X509KeyPair = (\<lambda>cert key. case (pem_block CHR ''C'' cert, pem_block CHR ''K'' key) of
       (Some c, Some k) \<Rightarrow> sy_key (dec c) = dec k | _ \<Rightarrow> False),
     AppendCertsFromPEM = (\<lambda>p. map_option (\<lambda>b. [dec b]) (pem_block CHR ''C'' p)),
     VerifyCert = (\<lambda>c h pool t. sym_valid t c \<and> sy_server c \<and> (h = [] \<or> sym_names (sy_dns c) (sy_ips c) h) \<and>
       (\<exists>ca \<in> set pool. sy_key ca = sy_issuer c \<and> sy_ca ca \<and> sym_valid t ca)),
     ParseIP = sym_host,
     To4 = sym_to4,
     AddDate = (\<lambda>t y m d. t + 3600 * 24 * (365 * int y + 30 * int m + int d))\<rparr>"

definition sym_view :: "(nat, sym_cert) cert_view" where
  "sym_view = \<lparr>cv_key = sy_key, cv_NotAfter = sy_until, cv_isCA = sy_ca\<rparr>"

lemma sym_host_verdict:
  "host_verdict sym_crypto t h = Some match \<Longrightarrow>
     sym_names (items (ct_DNSNames t)) (items (ct_IPAddresses t)) h = match"
  by (auto simp: host_verdict_def sym_names_def sym_crypto_def ip_equal_def split: option.splits if_splits)

lemma pem_block_cons: "pem_block t p = Some b \<longleftrightarrow> p = t # b"
  by (cases p) auto

lemma sym_ok: "crypto_ok sym_crypto sym_view now"
proof -
  have "pem_ok sym_crypto sym_view"
    unfolding pem_ok_def
    by (auto simp: sym_crypto_def sym_view_def EncodeCertPEM_def EncodePrivateKeyPEM_def pem_block_cons split: option.splits)
  moreover have "signing_ok sym_crypto sym_view"
    using sym_host_verdict unfolding signing_ok_def
    by (auto simp: sym_crypto_def sym_view_def in_force_def sym_valid_def)
  moreover have "net_ok sym_crypto"
    by (auto simp: net_ok_def sym_crypto_def sym_host_def sym_to4_def bare_host_def split: if_splits)
  moreover have "clock_ok sym_crypto sym_view now"
    by (simp add: clock_ok_def sym_crypto_def sym_view_def)
  ultimately show ?thesis by (simp add: crypto_ok_def)
qed

text \<open>The laws of the stores, for every clock, secret, directory and host.\<close>

interpretation sym_secret: secret_store sym_crypto sym_view now ks_client ks_view sec dns for now sec dns
  by unfold_locales (rule sym_ok, rule ks_ok)

interpretation sym_dir: cert_dir sym_crypto sym_view now "''linux''" T dns for now T dns
  by unfold_locales (rule sym_ok, simp)

section \<open>Certificates\<close>

lemma sym_generates: "\<exists>a r'. Generate sym_crypto now cp h r = (Inr a, r')" if "h \<noteq> []"
proof (cases "validCACert sym_crypto now cp")
  case None
  with that show ?thesis
    by (simp add: Generate_def signing_pair_def NewPrivateKey_def NewSignedCert_def server_config_def sym_crypto_def Let_def)
next
  case (Some p)
  obtain k ca where "p = (k, ca)" by fastforce
  with Some that show ?thesis
    by (simp add: Generate_def signing_pair_def NewPrivateKey_def NewSignedCert_def server_config_def sym_crypto_def Let_def)
qed

definition host0 :: "(kstore, nat) host" where
  "host0 = \<lparr>h_kube = configs [a_webhook], h_fs = dir_fs empty_nodes [], h_rand = 0, h_gen = new_generator,
     h_temps = (\<lambda>_. (''..9'', [''1'', ''2'']))\<rparr>"

lemma host0_simps [simp]:
  "h_kube host0 = configs [a_webhook]" "h_fs host0 = dir_fs empty_nodes []" "h_gen host0 = new_generator"
  "h_temps host0 = (\<lambda>_. (''..9'', [''1'', ''2'']))"
  by (simp_all add: host0_def)

lemma no_secret: "kv_Secret ks_view (configs whs) sec = None"
  by (simp add: ks_view_def keyed_def configs_def)

lemma dir0: "dir_ready (dir_fs empty_nodes []) certs" "temps_ok (\<lambda>_. (''..9'', [''1'', ''2'']))"
proof -
  have "look empty_nodes (certs @ [n]) = None" for n by (simp add: dir_defs look_def)
  with tidy_empty show "dir_ready (dir_fs empty_nodes []) certs" by (simp add: dir_ready_def linked_names_def)
  show "temps_ok (\<lambda>_. (''..9'', [''1'', ''2'']))" using rands_ok by (simp add: temps_ok_def)
qed

lemma sym_localhost: "host_supported sym_crypto ''localhost''" "host_supported sym_crypto ''127.0.0.1''"
  "bare_host ''[127.0.0.1]'' = ''127.0.0.1''" "bare_host ''::1'' = ''::1''"
  "ParseIP sym_crypto ''127.0.0.1'' = Some ''::ffff:127.0.0.1''" "ParseIP sym_crypto ''::1'' = Some ''::1''"
  "To4 sym_crypto ''::1'' = None"
  by (simp_all add: sym_crypto_def sym_host_def sym_to4_def host_supported_def dns_name_def host_chars_def bare_host_def)

theorem generated_cert_valid_witness:
  "\<exists>a b c d ra rb rc rd. Generate sym_crypto 0 new_generator ''localhost'' 0 = (Inr a, ra) \<and> validCert sym_crypto 0 a ''localhost'' \<and>
     Generate sym_crypto 0 new_generator ''127.0.0.1'' 0 = (Inr b, rb) \<and> validCert sym_crypto 0 b ''127.0.0.1'' \<and>
     Generate sym_crypto 0 new_generator ''::1'' 0 = (Inr c, rc) \<and> \<not> validCert sym_crypto 0 c ''::1'' \<and>
     Generate sym_crypto 0 new_generator ''[127.0.0.1]'' 0 = (Inr d, rd) \<and> \<not> validCert sym_crypto 0 d ''[127.0.0.1]''"
proof -
  note gen = sym_generates [of _ 0 new_generator 0]
  obtain a ra where a: "Generate sym_crypto 0 new_generator ''localhost'' 0 = (Inr a, ra)" using gen by blast
  obtain b rb where b: "Generate sym_crypto 0 new_generator ''127.0.0.1'' 0 = (Inr b, rb)" using gen by blast
  obtain c rc where c: "Generate sym_crypto 0 new_generator ''::1'' 0 = (Inr c, rc)" using gen by blast
  obtain d rd where d: "Generate sym_crypto 0 new_generator ''[127.0.0.1]'' 0 = (Inr d, rd)" using gen by blast
  note valid = generated_cert_valid [OF sym_ok new_generator_ok]
  from valid [OF _ a] valid [OF _ b] valid [OF _ c] valid [OF _ d] a b c d show ?thesis
    by (simp add: sym_localhost)
qed

theorem secret_ensure_refines_witness:
  "case secret_EnsureCert sym_crypto 0 ks_client (''ns'', ''certs'') ''localhost'' host0 of (res, h') \<Rightarrow>
     ensure_spec (\<lambda>a. validCert sym_crypto 0 a ''localhost'') None res
       (map_option secretToCerts (kv_Secret ks_view (h_kube h') (''ns'', ''certs'')))"
proof -
  obtain res h' where r: "secret_EnsureCert sym_crypto 0 ks_client (''ns'', ''certs'') ''localhost'' host0 = (res, h')"
    by fastforce
  from secret_ensure_refines [OF sym_ok ks_ok _ _ _ _ r] show ?thesis
    by (simp add: r new_generator_ok no_secret sym_localhost)
qed

theorem dir_ensure_refines_witness:
  "case fs_EnsureCert sym_crypto 0 ''linux'' (abs_path certs) ''localhost'' host0 of (res, h') \<Rightarrow>
     ensure_spec (\<lambda>a. validCert sym_crypto 0 a ''localhost'') (fs_certs empty_nodes certs) res
       (fs_certs (fs_nodes (h_fs h')) certs)"
proof -
  obtain res h' where r: "fs_EnsureCert sym_crypto 0 ''linux'' (abs_path certs) ''localhost'' host0 = (res, h')"
    by fastforce
  from dir_ensure_refines [OF sym_ok _ _ _ _ _ _ r] show ?thesis
    by (simp add: r new_generator_ok dir0 sym_localhost)
qed

lemma empty_free: "\<exists>r \<in> set (snd (''..9'', [''1'', ''2''])). look empty_nodes (certs @ [fst (''..9'', [''1'', ''2'']) @ r]) = None"
  by (auto simp: dir_defs look_def)

theorem certs_dir_roundtrip_witness:
  "let a = \<lparr>art_Key = Some ''k'', art_Cert = Some ''c'', art_CAKey = None, art_CACert = Some ''cc'', art_ResourceVersion = ''7''\<rparr>;
       f' = snd (WriteCertsToDir ''linux'' (''..9'', [''1'', ''2'']) (abs_path certs) a (dir_fs empty_nodes []))
   in fst (fs_read (abs_path certs) f') = Inr (a\<lparr>art_CAKey := Some [], art_ResourceVersion := []\<rparr>)"
proof -
  let ?a = "\<lparr>art_Key = Some ''k'', art_Cert = Some ''c'', art_CAKey = None, art_CACert = Some ''cc'', art_ResourceVersion = ''7''\<rparr>"
  have rs: "\<forall>r \<in> set (snd (''..9'', [''1'', ''2''])). ts_name (fst (''..9'', [''1'', ''2'']) @ r)" using rands_ok by simp
  have os: "''linux'' \<noteq> ''windows''" by simp
  from empty_free WriteCertsToDir_runs [OF dir0(1) os rs] obtain f' where
    w: "WriteCertsToDir ''linux'' (''..9'', [''1'', ''2'']) (abs_path certs) ?a (dir_fs empty_nodes []) = (Inr (), f')"
    by auto
  from certs_dir_roundtrip [OF dir0(1) os rs w] w show ?thesis by (simp add: bytes_def)
qed

section \<open>sync\<close>

definition controller0 :: "(kstore, nat) controller" where
  "controller0 = \<lparr>ctl_host = host0, onceInit = False, uninit_closed = False\<rparr>"

lemma controller0_simps [simp]: "ctl_host controller0 = host0" "ctl_ok controller0"
  by (simp_all add: controller0_def ctl_ok_def)

lemma env0_sync: "GetCertDir env0 = abs_path certs" "\<not> uses_fs env0"
  "sync_dnsName env0 = ''persistentpodstate-webhook-service.persistent-pod-state-system.svc''"
  by (simp_all add: GetCertDir_def env0_def certs_path uses_fs_def GetCertWriter_def FsCertWriter_def GetHost_def
      sync_dnsName_def ServiceToCommonName_def GetNamespace_def GetServiceName_def)

lemma env0_host: "host_supported sym_crypto (sync_dnsName env0)"
  by (simp add: host_supported_def env0_sync sym_crypto_def sym_host_def dns_name_def host_chars_def)

lemma sync0_ensured: "\<exists>certs h1. sync_ensureCert env0 sym_crypto 0 ''linux'' ks_client host0 = (Inr certs, h1)"
proof -
  let ?d = "sync_dnsName env0" and ?sec = "(GetNamespace env0, GetSecretName env0)"
  obtain a r where g: "Generate sym_crypto 0 new_generator ?d 0 = (Inr a, r)"
    using sym_generates [OF sync_dnsName_not_empty] by blast
  from g new_generator_ok have f: "from_generator sym_crypto sym_view 0 ?d a" by (auto simp: from_generator_def)
  have v: "validCert sym_crypto 0 a ?d"
    by (rule from_generator_valid(1) [OF sym_ok f sync_dnsName_not_empty env0_host])
  have "\<exists>w. CreateSecret ks_client (certsToSecret a ?sec) (configs [a_webhook]) = (None, w)"
    by (simp add: ks_client_def no_secret)
  then obtain w where c: "CreateSecret ks_client (certsToSecret a ?sec) (configs [a_webhook]) = (None, w)" ..
  have "host0\<lparr>h_gen := new_generator\<rparr> = host0" "h_rand host0 = 0" by (simp_all add: host0_def)
  then have "secret_EnsureCert sym_crypto 0 ks_client ?sec ?d (host0\<lparr>h_gen := new_generator\<rparr>) =
      ((Inr a, True), host0\<lparr>h_rand := r, h_kube := w\<rparr>)"
    using g v c sync_dnsName_not_empty [of env0]
    by (simp add: secret_EnsureCert_def handleCommon_def createIfNotExists_def secretCertWriter_def secret_read_def
        secret_write_def buildSecret_def generate_in_def kube_reads [OF ks_ok] no_secret)
  then show ?thesis
    using env0_sync(2) by (simp add: sync_ensureCert_def writer_options_defs Let_def)
qed

lemma sync0_runs: "\<exists>s'. sync env0 config_json sym_crypto 0 ''linux'' ks_client pod_handlers controller0 = (Ok (), s')"
proof -
  from sync0_ensured obtain a h1 where e: "sync_ensureCert env0 sym_crypto 0 ''linux'' ks_client host0 = (Inr a, h1)"
    by blast
  note E = ensureCert_secret [OF ks_ok sym_ok env0_sync(2) _ env0_host e]
  have h1: "h_fs h1 = dir_fs empty_nodes []" "h_temps h1 = (\<lambda>_. (''..9'', [''1'', ''2'']))"
    "kv_MWC ks_view (h_kube h1) = kv_MWC ks_view (configs [a_webhook])"
    "kv_VWC ks_view (h_kube h1) = kv_VWC ks_view (configs [a_webhook])"
    using E(3-6) by (simp_all add: no_secret)
  have "\<exists>f'. WriteCertsToDir ''linux'' (''..9'', [''1'', ''2'']) (abs_path certs) a (dir_fs empty_nodes []) = (Inr (), f')"
    by (rule WriteCertsToDir_runs [OF dir0(1)]) (use rands_ok empty_free in simp_all)
  then obtain f' where "WriteCertsToDir ''linux'' (''..9'', [''1'', ''2'']) (abs_path certs) a (dir_fs empty_nodes []) = (Inr (), f')" ..
  moreover obtain w where "Ensure env0 config_json ks_client pod_handlers (art_CACert a) (h_kube h1) = (Ok (), w)"
    using configs_ensured_in [OF h1(3,4)] by blast
  ultimately show ?thesis
    using e h1 env0_sync(1) by (simp add: sync_def writeCertsToDir_def onceInit_Do_def controller0_def)
qed

lemma configs_stable:
  "kv_MWC ks_view (configs [a_webhook]) (GetMutatingWebhookName env0) = Some mc \<Longrightarrow>
     json_stable (marshalMW config_json) (unmarshalMW config_json) (mwc_Webhooks mc)"
  "kv_VWC ks_view (configs [a_webhook]) (GetValidatingWebhookName env0) = Some vc \<Longrightarrow>
     json_stable (marshalVW config_json) (unmarshalVW config_json) (vwc_Webhooks vc)"
  by (auto simp: configs_view json_stable_def config_json_def)

theorem sync_consistent_witness:
  "\<exists>s' a. sync env0 config_json sym_crypto 0 ''linux'' ks_client pod_handlers controller0 = (Ok (), s') \<and>
     shows_exactly (fs_nodes (h_fs (ctl_host s'))) certs (certToProjectionMap a) \<and> uninit_closed s'"
proof -
  from sync0_runs obtain s' where
    r: "sync env0 config_json sym_crypto 0 ''linux'' ks_client pod_handlers controller0 = (Ok (), s')" ..
  have "''linux'' \<noteq> ''windows''" by simp
  from sync_consistent [OF ks_ok sym_ok this env0_sync(1) _ _ _ env0_host _ r] r show ?thesis
    by (auto simp: dir0 no_secret)
qed

theorem sync_settles_witness:
  "let run = sync env0 config_json sym_crypto 0 ''linux'' ks_client pod_handlers; s1 = snd (run controller0)
   in fst (run s1) = Ok () \<and> h_kube (ctl_host (snd (run s1))) = h_kube (ctl_host s1)"
proof -
  from sync0_runs obtain s1 where
    r: "sync env0 config_json sym_crypto 0 ''linux'' ks_client pod_handlers controller0 = (Ok (), s1)" ..
  have "''linux'' \<noteq> ''windows''" by simp
  from sync_settles [OF ks_ok sym_ok this env0_sync(1) _ _ _ env0_host _ _ _ r] r show ?thesis
    by (auto simp: dir0 no_secret configs_stable)
qed

text \<open>A queue of keys with the flag that it is shut down.\<close>

definition key_queue :: "(string list \<times> bool) workqueue" where
  "key_queue = \<lparr>wq_Add = (\<lambda>k (ks, down). (if down \<or> k \<in> set ks then ks else ks @ [k], down)),
     wq_Get = (\<lambda>(ks, down). case ks of [] \<Rightarrow> (([], True), ([], down)) | k # ks' \<Rightarrow> ((k, False), (ks', down))),
     wq_Done = (\<lambda>_ q. q), wq_AddAfter = (\<lambda>_ _ q. q), wq_Forget = (\<lambda>_ q. q),
     wq_AddRateLimited = (\<lambda>k (ks, down). (ks @ [k], down))\<rparr>"

definition shut_down :: "string list \<times> bool \<Rightarrow> string list \<times> bool" where
  "shut_down q = (fst q, True)"

definition get_blocks :: "string list \<times> bool \<Rightarrow> bool" where
  "get_blocks q \<longleftrightarrow> fst q = [] \<and> \<not> snd q"

lemma key_queue_idle: "idle_ok key_queue shut_down get_blocks (\<lambda>q. fst q = [])"
  by (auto simp: idle_ok_def shut_down_def get_blocks_def key_queue_def split: list.splits)

text \<open>Another secret is added, the caches fill, the worker starts, the context ends, the worker stops.\<close>

definition other_secret :: Secret where
  "other_secret = \<lparr>sec_Meta = (config_meta ''other'')\<lparr>om_Namespace := GetNamespace env0\<rparr>, sec_Data = None\<rparr>"

lemma other_secret_irrelevant: "\<not> relevant env0 (SecretAdded other_secret)"
  by (simp add: other_secret_def config_meta_def GetSecretName_def env0_def)

lemma caches_fill:
  "\<exists>r'. rtranclp (controller_step env Q D b run) r r' \<and> set (controller_synced env) \<subseteq> cr_caches r' \<and>
     cr_events r' = cr_events r \<and> cr_pc r' = cr_pc r \<and> cr_queue r' = cr_queue r \<and> cr_crashed r' = cr_crashed r"
proof -
  note c = controller_step.cache [where env = env and Q = Q and ShutDown = D and blocked = b and run = run]
  obtain x y z where s: "controller_synced env = [x, y, z]" by (simp add: controller_synced_def)
  then have "x \<in> set (controller_synced env)" "y \<in> set (controller_synced env)" "z \<in> set (controller_synced env)"
    by simp_all
  from rtranclp.rtrancl_into_rtrancl [OF rtranclp.rtrancl_into_rtrancl [OF r_into_rtranclp
      [where r = "controller_step env Q D b run", OF c [OF this(1)]] c [OF this(2)]] c [OF this(3)]]
  show ?thesis by (intro exI conjI) (assumption, simp_all add: s)
qed

lemma quiet_run:
  "\<exists>r. rtranclp (controller_step env0 key_queue shut_down get_blocks run) (started_run s ([], False)) r \<and>
     cr_events r = [SecretAdded other_secret] \<and> cr_pc r = StartReturned \<and> \<not> cr_worker r"
proof -
  let ?S = "controller_step env0 key_queue shut_down get_blocks run"
  let ?r0 = "started_run s ([] :: string list, False)"
  have "event_object (SecretAdded other_secret) \<in> set (controller_synced env0)"
    by (simp add: other_secret_def controller_synced_def secretInformer_def)
  note e = controller_step.event [where Q = key_queue and ShutDown = shut_down and blocked = get_blocks and run = run
      and r = ?r0, OF this]
  obtain r1 where "?S ?r0 r1" "cr_events r1 = [SecretAdded other_secret]" "cr_queue r1 = ([], False)"
    "cr_pc r1 = AwaitingSync" "\<not> cr_crashed r1"
    by (rule that [OF e]) (simp_all add: handle_event_relevant other_secret_irrelevant started_run_def
      del: handle_event.simps relevant.simps)
  moreover from this obtain r2 where r2: "rtranclp ?S r1 r2" "set (controller_synced env0) \<subseteq> cr_caches r2"
    "cr_events r2 = [SecretAdded other_secret]" "cr_queue r2 = ([], False)" "cr_pc r2 = AwaitingSync" "\<not> cr_crashed r2"
    using caches_fill [of env0 key_queue shut_down get_blocks run r1] by auto
  ultimately have "rtranclp ?S ?r0 r2" by (meson converse_rtranclp_into_rtranclp)
  note r3 = rtranclp.rtrancl_into_rtrancl [OF this controller_step.synced [OF r2(5,2)]]
  note r4 = rtranclp.rtrancl_into_rtrancl [OF r3 controller_step.ctx_done]
  then obtain r5 where r5: "rtranclp ?S ?r0 r5" "cr_pc r5 = AwaitingStop" "cr_ctxDone r5" "cr_worker r5" "\<not> cr_crashed r5"
    "cr_queue r5 = ([], False)" "cr_events r5 = [SecretAdded other_secret]"
    by (rule that) (use r2 in simp_all)
  from rtranclp.rtrancl_into_rtrancl [OF r5(1) controller_step.stopped [OF r5(2,3)]]
  obtain r6 where r6: "rtranclp ?S ?r0 r6" "cr_pc r6 = StartReturned" "cr_worker r6" "\<not> cr_crashed r6"
    "cr_queue r6 = ([], True)" "cr_events r6 = [SecretAdded other_secret]"
    by (rule that) (use r5 in \<open>simp_all add: shut_down_def\<close>)
  have nb: "\<not> get_blocks (cr_queue r6)" using r6(5) by (simp add: get_blocks_def)
  obtain res s' q' where w: "processNextWorkItem key_queue run (cr_state r6, cr_queue r6) = (res, (s', q'))"
    by (metis surj_pair)
  then have "res = Ok False" using r6(5) by (simp add: processNextWorkItem_def key_queue_def)
  with rtranclp.rtrancl_into_rtrancl [OF r6(1) controller_step.work [where blocked = get_blocks, OF r6(3,4) nb w]] r6(2,6)
  show ?thesis by (intro exI conjI) (assumption, simp_all)
qed

theorem controller_waits_for_event_witness:
  "\<exists>r. rtranclp (controller_step env0 key_queue shut_down get_blocks
        (sync env0 config_json sym_crypto 0 ''linux'' ks_client pod_handlers)) (started_run controller0 ([], False)) r \<and>
     cr_events r = [SecretAdded other_secret] \<and> cr_pc r = StartReturned \<and> cr_state r = controller0"
proof -
  obtain r where r: "rtranclp (controller_step env0 key_queue shut_down get_blocks
        (sync env0 config_json sym_crypto 0 ''linux'' ks_client pod_handlers)) (started_run controller0 ([], False)) r"
    "cr_events r = [SecretAdded other_secret]" "cr_pc r = StartReturned"
    using quiet_run [of "sync env0 config_json sym_crypto 0 ''linux'' ks_client pod_handlers" controller0] by auto
  have "fst ([] :: string list, False) = []" by simp
  from controller_waits_for_event [OF key_queue_idle r(1) controller0_simps(2) this] r other_secret_irrelevant
  have "cr_state r = controller0" by (simp del: relevant.simps)
  with r show ?thesis by blast
qed

end
