(* ===== verification/Reference_Startup.thy ===== *)
theory Reference_Startup
  imports Startup Handler_Builder Reference_Certs Reference_Cluster
begin

text \<open>
  A connection whose clients remember the user agent and the path they were made with, a watcher and a
  network that answer, and a run of the program with them, on which the theorems about the checks, the
  registry and the start-up are applied.
\<close>

section \<open>Clients\<close>

definition plain_clients :: "(unit, unit, string \<times> string, unit, string \<times> string) client_go" where
  "plain_clients = \<lparr>DefaultKubernetesUserAgent = ''default'', WithoutConversion = ''codecs'',
     HTTPClientFor = (\<lambda>_. Inr ()), NewTokenBucketRateLimiter = (\<lambda>_ _. ()),
     RESTClientForConfigAndClient = (\<lambda>c _. Inr (rc_UserAgent c, rc_APIPath c)),
     NewDiscoveryClientForConfigAndClient = (\<lambda>_ _. Inr ()), NewDiscoveryClientForConfig = (\<lambda>_. Inr ()),
     kube_NewForConfig = (\<lambda>c. Inr (rc_UserAgent c, rc_ContentType c))\<rparr>"

definition connection :: "unit rest_config" where
  "connection = \<lparr>rc_UserAgent = [], rc_ContentType = [], rc_QPS = 20, rc_Burst = 30, rc_RateLimiter = None,
     rc_GroupVersion = None, rc_APIPath = [], rc_NegotiatedSerializer = [], rc_rest = []\<rparr>"

lemmas client_defs = newForConfig_def newForConfigOrDie_def clientset_NewForConfig_def
  clientset_NewForConfigAndClient_def apps_NewForConfigAndClient_def setConfigDefaults_def plain_clients_def
  connection_def Let_def

lemma plain_registry:
  "\<exists>R. NewRegistry plain_clients connection no_clients = (None, R) \<and> reg_cfg R = Some connection"
  by (simp add: NewRegistry_def client_defs)

lemma plain_named:
  "\<exists>gc. newForConfig plain_clients (connection\<lparr>rc_UserAgent := ''/'' @ n\<rparr>) = Inr gc"
  by (simp add: client_defs)


section \<open>The checks\<close>

definition watching :: fsnotify where
  "watching = \<lparr>NewWatcher = None, watcher_Add = (\<lambda>_ _. None)\<rparr>"

definition answering :: "sym_cert http" where
  "answering = \<lparr>NewRequest = (\<lambda>_. None), client_Do = (\<lambda>_ _. Inr 200)\<rparr>"

definition new_health :: "sym_cert health" where
  "new_health = \<lparr>onceWatch = False, hc_client = None, hc_watched = False\<rparr>"

theorem ready_after_sync_witness:
  "\<exists>s'. sync env0 config_json sym_crypto 0 ''linux'' ks_client pod_handlers controller0 = (Ok (), s') \<and>
     fst (webhook_Checker watching answering sym_crypto env0 (uninit_closed s') (h_fs (ctl_host s')) new_health) = Ok ()"
proof -
  from sync0_runs obtain s' where
    r: "sync env0 config_json sym_crypto 0 ''linux'' ks_client pod_handlers controller0 = (Ok (), s')" ..
  have os: "''linux'' \<noteq> ''windows''" by simp
  have port: "(GetPort env0 :: (string, int) result) = Ok 9876" by (simp add: GetPort_def env0_def)
  from ready_after_sync [OF ks_ok sym_ok os env0_sync(1) _ _ _ env0_host _ r, where h = new_health and N = watching
      and H = answering, OF _ _ _ _ _ _ _ port] r
  show ?thesis by (auto simp: dir0 no_secret watching_def answering_def new_health_def)
qed

text \<open>The empty directory has no CA file.\<close>

lemma no_ca_file: "fst (loadHTTPClientWithCACert sym_crypto env0 (dir_fs empty_nodes []) new_health) \<noteq> None"
proof -
  have j: "caCertFilePath env0 = ''/certs/ca-cert.pem''"
    by (simp add: caCertFilePath_def GetCertDir_def env0_def) code_simp
  have "fst (ReadFile ''/certs/ca-cert.pem'' (dir_fs empty_nodes [])) = Inl ENOENT" by code_simp
  with j show ?thesis
    by (auto simp: loadHTTPClientWithCACert_def split: prod.split sum.split)
qed

theorem first_check_failure_sticks_witness:
  "let h = snd (health_Checker watching answering sym_crypto env0 (dir_fs empty_nodes []) new_health)
   in fst (health_Checker watching answering sym_crypto env0 (dir_fs version_nodes []) h) \<noteq> Ok ()"
proof -
  have "\<not> onceWatch new_health" "hc_client new_health = None" by (simp_all add: new_health_def)
  from first_check_failure_sticks [OF this no_ca_file, of watching answering] show ?thesis by (simp add: Let_def)
qed

theorem ca_rotation_reaches_client_witness:
  "\<exists>a f'. WriteCertsToDir ''linux'' (''..9'', [''1'', ''2'']) (abs_path certs) a (dir_fs empty_nodes []) = (Inr (), f') \<and>
     hc_client (watchCACert watching sym_crypto env0 [(WatchEvent ''ca'' op_Remove, f')] new_health) =
       AppendCertsFromPEM sym_crypto (bytes (art_CACert a))"
proof -
  let ?a = "\<lparr>art_Key = None, art_Cert = None, art_CAKey = None, art_CACert = Some ''C'', art_ResourceVersion = []\<rparr>"
  have rs: "\<forall>r \<in> set (snd (''..9'', [''1'', ''2''])). ts_name (fst (''..9'', [''1'', ''2'']) @ r)" using rands_ok by simp
  have os: "''linux'' \<noteq> ''windows''" by simp
  from empty_free WriteCertsToDir_runs [OF dir0(1) os rs] obtain f' where
    w: "WriteCertsToDir ''linux'' (''..9'', [''1'', ''2'']) (abs_path certs) ?a (dir_fs empty_nodes []) = (Inr (), f')"
    by auto
  have "isRemove op_Remove" by (simp add: isRemove_def)
  moreover obtain pool where p: "AppendCertsFromPEM sym_crypto (bytes (art_CACert ?a)) = Some pool"
    by (simp add: sym_crypto_def bytes_def)
  ultimately have "hc_client (watchCACert watching sym_crypto env0 [(WatchEvent ''ca'' op_Remove, f')] new_health) = Some pool"
    by (subst ca_rotation_reaches_client [OF dir0(1) os rs env0_sync(1) w]) simp_all
  with w p show ?thesis by metis
qed

section \<open>A run of the program\<close>

definition no_vmi :: flags where
  "no_vmi = default_flags\<lparr>enableVMIPersistence := False\<rparr>"

text \<open>A feature gate that remembers the defaults it was given, and a manager.\<close>

definition plain_gate :: "(string \<rightharpoonup> bool) feature_gate" where
  "plain_gate = \<lparr>NewFeatureGate = (\<lambda>_. None),
     fg_Add = (\<lambda>specs g. (None, g ++ (map_option spec_Default \<circ> map_of specs))),
     fg_Enabled = (\<lambda>g n. case g n of None \<Rightarrow> Panic | Some b \<Rightarrow> Ok b)\<rparr>"

lemma plain_gate_ok: "gate_ok plain_gate id"
  by (simp add: gate_ok_def plain_gate_def)

definition manager0 :: "(store, unit) ctrl_manager" where
  "manager0 = \<lparr>GetClient = st_client, GetScheme = ()\<rparr>"

definition builder0 :: "(store, unit) podMutateBuilder" where
  "builder0 = \<lparr>pmb_mgr = None\<rparr>"

type_synonym handler0 = "(store, unit) PodMutatingHandler"

definition run0 ::
  "(unit, unit, string \<times> string, unit, string \<times> string, (store, unit) podMutateBuilder, handler0) program" where
  "run0 = \<lparr>g_env = env0, g_flags = no_vmi, g_cfg = connection, g_client_go = plain_clients,
     g_gates = (\<lambda>n. \<exists>g. features_init plain_gate (DefaultMutableFeatureGate plain_gate) = Ok g \<and>
       fg_Enabled plain_gate g n = Ok True),
     g_builders = add_pod_init builder0 empty_registry, g_build = (\<lambda>b. pod_handler id manager0)\<rparr>"

lemma run0_setup:
  "\<exists>rs hs g1. SetupWithManager (g_gates run0) (g_build run0) (g_builders run0) ([], go_make) =
     (Ok ((rs, hs), g1) :: (string, _) result)"
proof -
  have "pmb_Build id (pmb_WithControllerManager manager0 b) = Ok (pod_handler id manager0)" for b
    by (rule pod_builder.builds)
  from default_serves_pod_handler [OF plain_gate_ok this, of builder0] obtain gt hm g1 where
    "features_init plain_gate (DefaultMutableFeatureGate plain_gate) = Ok gt"
    "SetupWithManager (\<lambda>n. fg_Enabled plain_gate gt n = Ok True) (\<lambda>b. pod_handler id manager0)
        (add_pod_init builder0 empty_registry) ([], go_make) =
       (Ok (([(''/mutate-pod'', Admission (pod_handler id manager0)), (''/convert'', Conversion), (''/healthz'', Healthz)],
          hm), g1) :: (string, _) result)" by blast
  then show ?thesis by (simp add: run0_def)
qed

text \<open>One step after another from the start.\<close>

abbreviation reached :: "(unit, unit, string \<times> string, string \<times> string, handler0) process \<Rightarrow> bool" where
  "reached p \<equiv> rtranclp (main_step run0) start p"

lemma run0_client: "\<exists>k. reg_cfg R = Some connection \<longrightarrow> controller_New plain_clients R = Ok k"
  by (simp add: controller_New_def GetGenericClientWithName_def client_defs)

lemma reach_next: "reached p \<Longrightarrow> main_step run0 p q \<Longrightarrow> reached q"
  by (rule rtranclp.rtrancl_into_rtrancl)

lemma run0_simps [simp]: "g_client_go run0 = plain_clients" "g_cfg run0 = connection" "g_flags run0 = no_vmi"
  by (simp_all add: run0_def)

lemma run0_initialised:
  "\<exists>p. reached p \<and> p_exit p = None \<and> p_main p = AtInited \<and> p_kube p \<noteq> None"
proof -
  obtain opts where "main_options (g_env run0) (g_flags run0) = (Ok opts :: (string, _) result)"
    by (simp add: main_options_def run0_def GetPort_def env0_def)
  note 1 = reach_next [OF rtranclp.rtrancl_refl main_step.new_manager [OF _ _ this]]
  obtain R where R: "NewRegistry (g_client_go run0) (g_cfg run0) no_clients = (None, R)" "reg_cfg R = Some connection"
    using plain_registry by auto
  let ?p1 = "start\<lparr>p_options := Some opts, p_main := AtNewRegistry\<rparr>"
  have "reached ?p1" by (rule 1) (simp_all add: start_def)
  then have 2: "reached (?p1\<lparr>p_clients := R, p_main := AtSetupWebhook\<rparr>)" (is "reached ?p2")
    by (rule reach_next) (rule main_step.new_registry, simp_all add: start_def R [simplified])
  obtain rs hs g1 where S: "SetupWithManager (g_gates run0) (g_build run0) (g_builders run0) ([], go_make) =
     (Ok ((rs, hs), g1) :: (string, _) result)" using run0_setup by blast
  have S': "SetupWithManager (g_gates run0) (g_build run0) (g_builders run0) (p_routes ?p2, p_handlers ?p2) =
     (Ok ((rs, hs), g1) :: (string, _) result)" using S by (simp add: start_def)
  have 3: "reached (?p2\<lparr>p_routes := rs, p_handlers := hs, p_main := AtInitialize\<rparr>)" (is "reached ?p3")
    by (rule reach_next [OF 2], rule main_step.setup_webhook [OF _ _ S']) (simp_all add: start_def)
  obtain k where k: "controller_New plain_clients R = Ok k" using run0_client R(2) by blast
  have 4: "reached (?p3\<lparr>p_kube := Some k, p_main := AtInited\<rparr>)" (is "reached ?p4")
    by (rule reach_next [OF 3]) (rule main_step.initialize, simp_all add: start_def k)
  have "p_exit ?p4 = None \<and> p_main ?p4 = AtInited \<and> p_kube ?p4 \<noteq> None" by (simp add: start_def)
  with 4 show ?thesis by (intro exI [of _ ?p4]) (rule conjI)
qed

lemma run0_serving: "\<exists>p. reached p \<and> p_exit p = None \<and> p_main p = Serving"
proof -
  from run0_initialised obtain p where p: "reached p" "p_exit p = None" "p_main p = AtInited" "p_kube p \<noteq> None" by blast
  have "reached (p\<lparr>p_inited := True\<rparr>)" (is "reached ?a") by (rule reach_next [OF p(1) main_step.controller_synced]) fact+
  then have "reached (?a\<lparr>p_main := AtHealthz\<rparr>)" (is "reached ?b")
    by (rule reach_next) (rule main_step.inited, simp_all add: p)
  then have "reached (?b\<lparr>p_checks := ''healthz'' # p_checks ?b, p_main := AtReadyz\<rparr>)" (is "reached ?c")
    by (rule reach_next) (rule main_step.add_healthz, simp_all add: p)
  then have "reached (?c\<lparr>p_checks := ''webhook-ready'' # p_checks ?c, p_main := AtPersistence\<rparr>)" (is "reached ?d")
    by (rule reach_next) (rule main_step.add_readyz, simp_all add: p)
  then have "reached (?d\<lparr>p_config := SetPersistenceConfig (enableVMIPersistence (g_flags run0))
        (enableStatefulSetPersistence (g_flags run0)) (p_config ?d), p_main := AtGo\<rparr>)" (is "reached ?e")
    by (rule reach_next) (rule main_step.persistence, simp_all add: p)
  then have "reached (?e\<lparr>p_go := WaitingReady, p_main := AtStart\<rparr>)" (is "reached ?f")
    by (rule reach_next) (rule main_step.go_wait, simp_all add: p)
  then have g: "reached (?f\<lparr>p_main := Serving\<rparr>)" (is "reached ?g")
    by (rule reach_next) (rule main_step.mgr_start, simp_all add: p)
  moreover have "p_exit ?g = None \<and> p_main ?g = Serving" by (simp add: p)
  ultimately show ?thesis by (intro exI [of _ ?g]) (rule conjI)
qed

theorem startup_order_witness:
  "\<exists>p. reached p \<and> p_main p = Serving \<and> p_inited p \<and>
     p_config p = \<lparr>EnableVMIPersistence = False, EnableStatefulSetPersistence = True\<rparr>"
proof -
  from run0_serving obtain p where p: "reached p" "p_main p = Serving" by blast
  from startup_order [OF p(1)] p show ?thesis
    by (intro exI [of _ p]) (simp add: flag_config_def no_vmi_def default_flags_def)
qed

end
