(* ===== verification/Typed_Client.thy ===== *)
theory Typed_Client
  imports Cluster_Client Client_Registry
begin

text \<open>
  The typed client of the generated clientset,
  \<^verbatim>\<open>clientset/versioned/typed/apps/v1alpha1/persistentpodstate.go\<close> and \<^verbatim>\<open>apps_client.go\<close>, with the accessors
  of \<^verbatim>\<open>clientset/versioned/clientset.go\<close>. Each method builds one request with client-go's request
  builder and sends it. The builder is not part of this repository: a request is the list of the builder
  calls, in the order of the code, and sending it is an operation of the record \<open>rest_interface\<close>.

  A Go interface is a record of its methods (\<open>pps_interface\<close>); the typed client here and the fake of
  \<open>Fake_Client\<close> are two values of that record. The locale \<open>pps_store\<close> states what a user of the interface
  relies on, and its script lemma is proved from that alone. Contexts are left out: that a call is
  cancelled is one of its errors.
\<close>

section \<open>Options, lists and replies\<close>

record list_options =
  lo_LabelSelector :: string
  lo_FieldSelector :: string
  lo_Watch :: bool
  lo_TimeoutSeconds :: "64 word option"  \<comment> \<open>an \<^verbatim>\<open>int64\<close>, read by \<^const>\<open>sint\<close>\<close>
  lo_rest :: opaque

record PersistentPodStateList =
  ListMeta :: opaque
  Items :: "PersistentPodState goslice"

definition zero_Spec :: PersistentPodStateSpec where
  "zero_Spec = \<lparr>spec_TargetReference = \<lparr>tr_APIVersion = [], tr_Kind = [], tr_Name = []\<rparr>,
     PersistentPodAnnotations = None, RequiredPersistentTopology = None\<rparr>"

definition zero_PPS :: PersistentPodState where
  "zero_PPS = \<lparr>pps_Meta = zero_meta, pps_Spec = zero_Spec, pps_Status = zero_Status\<rparr>"

definition zero_PPSList :: PersistentPodStateList where
  "zero_PPSList = \<lparr>ListMeta = [], Items = None\<rparr>"

text \<open>
  A method that returns \<^verbatim>\<open>(*T, error)\<close> returns both, also when it fails; it may panic. A method that
  returns only an error has no pointer in its reply.
\<close>

type_synonym 'o reply = "(unit, 'o option \<times> go_error) result"
type_synonym error_reply = "(unit, go_error) result"

section \<open>The interface\<close>

record ('w, 'i) pps_interface =
  pi_Create :: "PersistentPodState option \<Rightarrow> opaque \<Rightarrow> 'w \<Rightarrow> PersistentPodState reply \<times> 'w"
  pi_Update :: "PersistentPodState option \<Rightarrow> opaque \<Rightarrow> 'w \<Rightarrow> PersistentPodState reply \<times> 'w"
  pi_UpdateStatus :: "PersistentPodState option \<Rightarrow> opaque \<Rightarrow> 'w \<Rightarrow> PersistentPodState reply \<times> 'w"
  pi_Delete :: "string \<Rightarrow> opaque \<Rightarrow> 'w \<Rightarrow> error_reply \<times> 'w"
  pi_DeleteCollection :: "opaque \<Rightarrow> list_options \<Rightarrow> 'w \<Rightarrow> error_reply \<times> 'w"
  pi_Get :: "string \<Rightarrow> opaque \<Rightarrow> 'w \<Rightarrow> PersistentPodState reply \<times> 'w"
  pi_List :: "list_options \<Rightarrow> 'w \<Rightarrow> PersistentPodStateList reply \<times> 'w"
  pi_Watch :: "list_options \<Rightarrow> 'w \<Rightarrow> 'i reply \<times> 'w"
  pi_Patch :: "string \<Rightarrow> string \<Rightarrow> string \<Rightarrow> opaque \<Rightarrow> string list \<Rightarrow> 'w \<Rightarrow> PersistentPodState reply \<times> 'w"

section \<open>Requests\<close>

datatype rest_verb = VGet | VPost | VPut | VDelete | VPatch string

datatype rest_params =
    GetParams opaque
  | ListParams list_options
  | CreateParams opaque
  | UpdateParams opaque
  | PatchParams opaque

datatype rest_body =
    ObjectBody "PersistentPodState option"
  | DeleteBody opaque
  | BytesBody string

datatype rest_call =
    Namespace string
  | Resource string
  | Name string
  | SubResource "string list"
  | VersionedParams rest_params
  | Timeout "64 word"
  | Body rest_body

text \<open>\<^verbatim>\<open>Do(ctx).Into(result)\<close>, \<^verbatim>\<open>Do(ctx).Error()\<close> and \<^verbatim>\<open>Watch(ctx)\<close> of client-go's request.\<close>

record ('w, 'i) rest_interface =
  Into_PPS :: "rest_verb \<Rightarrow> rest_call list \<Rightarrow> PersistentPodState \<Rightarrow> 'w \<Rightarrow> (PersistentPodState \<times> go_error) \<times> 'w"
  Into_List :: "rest_verb \<Rightarrow> rest_call list \<Rightarrow> PersistentPodStateList \<Rightarrow> 'w \<Rightarrow> (PersistentPodStateList \<times> go_error) \<times> 'w"
  Do_Error :: "rest_verb \<Rightarrow> rest_call list \<Rightarrow> 'w \<Rightarrow> go_error \<times> 'w"
  Do_Watch :: "rest_verb \<Rightarrow> rest_call list \<Rightarrow> 'w \<Rightarrow> ('i option \<times> go_error) \<times> 'w"

fun into :: "('o \<times> go_error) \<times> 'w \<Rightarrow> 'o reply \<times> 'w" where
  "into ((result, err), w) = (Ok (Some result, err), w)"

section \<open>The typed client\<close>

record ('w, 'i) AppsV1alpha1Client =
  restClient :: "('w, 'i) rest_interface"

record ('w, 'i) persistentPodStates =
  pp_client :: "('w, 'i) rest_interface option"
  pp_ns :: string

definition apps_New :: "('w, 'i) rest_interface \<Rightarrow> ('w, 'i) AppsV1alpha1Client" where
  "apps_New c = \<lparr>restClient = c\<rparr>"

text \<open>\<^verbatim>\<open>RESTClient\<close> may be called on a nil client; the interface it returns then is nil.\<close>

definition RESTClient :: "('w, 'i) AppsV1alpha1Client option \<Rightarrow> ('w, 'i) rest_interface option" where
  "RESTClient c = (case c of None \<Rightarrow> None | Some c \<Rightarrow> Some (restClient c))"

definition newPersistentPodStates ::
  "('w, 'i) AppsV1alpha1Client option \<Rightarrow> string \<Rightarrow> ('w, 'i) persistentPodStates" where
  "newPersistentPodStates c namespace = \<lparr>pp_client = RESTClient c, pp_ns = namespace\<rparr>"

text \<open>A call on a nil interface panics.\<close>

definition on_client ::
  "('w, 'i) persistentPodStates \<Rightarrow> (('w, 'i) rest_interface \<Rightarrow> 'w \<Rightarrow> (unit, 'b) result \<times> 'w) \<Rightarrow>
   'w \<Rightarrow> (unit, 'b) result \<times> 'w" where
  "on_client c f w = (case pp_client c of None \<Rightarrow> (Panic, w) | Some r \<Rightarrow> f r w)"

definition typed_Get ::
  "('w, 'i) persistentPodStates \<Rightarrow> string \<Rightarrow> opaque \<Rightarrow> 'w \<Rightarrow> PersistentPodState reply \<times> 'w" where
  "typed_Get c name options = on_client c (\<lambda>client w.
     into (Into_PPS client VGet
       [Namespace (pp_ns c), Resource ''persistentpodstates'', Name name, VersionedParams (GetParams options)]
       zero_PPS w))"

text \<open>
  \<^verbatim>\<open>time.Duration(*opts.TimeoutSeconds) * time.Second\<close>, a product of two \<^verbatim>\<open>int64\<close> that wraps around;
  \<^verbatim>\<open>List\<close>, \<^verbatim>\<open>Watch\<close> and \<^verbatim>\<open>DeleteCollection\<close> each compute it.
\<close>

definition time_Second :: "64 word" where
  "time_Second = 1000000000"

definition list_timeout :: "list_options \<Rightarrow> 64 word" where
  "list_timeout opts = (case lo_TimeoutSeconds opts of None \<Rightarrow> 0 | Some s \<Rightarrow> s * time_Second)"

definition typed_List ::
  "('w, 'i) persistentPodStates \<Rightarrow> list_options \<Rightarrow> 'w \<Rightarrow> PersistentPodStateList reply \<times> 'w" where
  "typed_List c opts = on_client c (\<lambda>client w.
     into (Into_List client VGet
       [Namespace (pp_ns c), Resource ''persistentpodstates'', VersionedParams (ListParams opts),
        Timeout (list_timeout opts)]
       zero_PPSList w))"

definition typed_Watch :: "('w, 'i) persistentPodStates \<Rightarrow> list_options \<Rightarrow> 'w \<Rightarrow> 'i reply \<times> 'w" where
  "typed_Watch c opts = on_client c (\<lambda>client w.
     (case Do_Watch client VGet
        [Namespace (pp_ns c), Resource ''persistentpodstates'',
         VersionedParams (ListParams (opts\<lparr>lo_Watch := True\<rparr>)), Timeout (list_timeout opts)] w of
        (r, w1) \<Rightarrow> (Ok r, w1)))"

definition typed_Create ::
  "('w, 'i) persistentPodStates \<Rightarrow> PersistentPodState option \<Rightarrow> opaque \<Rightarrow> 'w \<Rightarrow> PersistentPodState reply \<times> 'w" where
  "typed_Create c persistentPodState opts = on_client c (\<lambda>client w.
     into (Into_PPS client VPost
       [Namespace (pp_ns c), Resource ''persistentpodstates'', VersionedParams (CreateParams opts),
        Body (ObjectBody persistentPodState)]
       zero_PPS w))"

text \<open>\<^verbatim>\<open>Update\<close> and \<^verbatim>\<open>UpdateStatus\<close> read the name of the object they are given.\<close>

definition typed_Update ::
  "('w, 'i) persistentPodStates \<Rightarrow> PersistentPodState option \<Rightarrow> opaque \<Rightarrow> 'w \<Rightarrow> PersistentPodState reply \<times> 'w" where
  "typed_Update c persistentPodState opts = on_client c (\<lambda>client w.
     (case persistentPodState of
        None \<Rightarrow> (Panic, w)
      | Some p \<Rightarrow>
          into (Into_PPS client VPut
            [Namespace (pp_ns c), Resource ''persistentpodstates'', Name (om_Name (pps_Meta p)),
             VersionedParams (UpdateParams opts), Body (ObjectBody persistentPodState)]
            zero_PPS w)))"

definition typed_UpdateStatus ::
  "('w, 'i) persistentPodStates \<Rightarrow> PersistentPodState option \<Rightarrow> opaque \<Rightarrow> 'w \<Rightarrow> PersistentPodState reply \<times> 'w" where
  "typed_UpdateStatus c persistentPodState opts = on_client c (\<lambda>client w.
     (case persistentPodState of
        None \<Rightarrow> (Panic, w)
      | Some p \<Rightarrow>
          into (Into_PPS client VPut
            [Namespace (pp_ns c), Resource ''persistentpodstates'', Name (om_Name (pps_Meta p)),
             SubResource [''status''], VersionedParams (UpdateParams opts), Body (ObjectBody persistentPodState)]
            zero_PPS w)))"

definition typed_Delete ::
  "('w, 'i) persistentPodStates \<Rightarrow> string \<Rightarrow> opaque \<Rightarrow> 'w \<Rightarrow> error_reply \<times> 'w" where
  "typed_Delete c name opts = on_client c (\<lambda>client w.
     (case Do_Error client VDelete
        [Namespace (pp_ns c), Resource ''persistentpodstates'', Name name, Body (DeleteBody opts)] w of
        (err, w1) \<Rightarrow> (Ok err, w1)))"

definition typed_DeleteCollection ::
  "('w, 'i) persistentPodStates \<Rightarrow> opaque \<Rightarrow> list_options \<Rightarrow> 'w \<Rightarrow> error_reply \<times> 'w" where
  "typed_DeleteCollection c opts listOpts = on_client c (\<lambda>client w.
     (case Do_Error client VDelete
        [Namespace (pp_ns c), Resource ''persistentpodstates'', VersionedParams (ListParams listOpts),
         Timeout (list_timeout listOpts), Body (DeleteBody opts)] w of
        (err, w1) \<Rightarrow> (Ok err, w1)))"

definition typed_Patch ::
  "('w, 'i) persistentPodStates \<Rightarrow> string \<Rightarrow> string \<Rightarrow> string \<Rightarrow> opaque \<Rightarrow> string list \<Rightarrow> 'w \<Rightarrow>
   PersistentPodState reply \<times> 'w" where
  "typed_Patch c name pt data opts subresources = on_client c (\<lambda>client w.
     into (Into_PPS client (VPatch pt)
       [Namespace (pp_ns c), Resource ''persistentpodstates'', Name name, SubResource subresources,
        VersionedParams (PatchParams opts), Body (BytesBody data)]
       zero_PPS w))"

definition typed_PersistentPodStates ::
  "('w, 'i) AppsV1alpha1Client option \<Rightarrow> string \<Rightarrow> ('w, 'i) pps_interface" where
  "typed_PersistentPodStates a namespace =
     (let c = newPersistentPodStates a namespace in
      \<lparr>pi_Create = typed_Create c, pi_Update = typed_Update c, pi_UpdateStatus = typed_UpdateStatus c,
       pi_Delete = typed_Delete c, pi_DeleteCollection = typed_DeleteCollection c, pi_Get = typed_Get c,
       pi_List = typed_List c, pi_Watch = typed_Watch c, pi_Patch = typed_Patch c\<rparr>)"

section \<open>Accessors of the clientset\<close>

text \<open>
  \<^verbatim>\<open>Clientset\<close> as the interface \<^verbatim>\<open>versioned.Interface\<close>; \<^verbatim>\<open>c\<close> may be nil, and only \<^verbatim>\<open>Discovery\<close> looks. The
  group's client is a pointer that the interface \<^verbatim>\<open>AppsV1alpha1Interface\<close> holds.
\<close>

definition clientset_AppsV1alpha1 :: "('d, 'r) Clientset option \<Rightarrow> (unit, 'r) result" where
  "clientset_AppsV1alpha1 c = (case c of None \<Rightarrow> Panic | Some c \<Rightarrow> Ok (cs_appsV1alpha1 c))"

definition clientset_Discovery :: "('d, 'r) Clientset option \<Rightarrow> 'd option" where
  "clientset_Discovery c = (case c of None \<Rightarrow> None | Some c \<Rightarrow> Some (cs_DiscoveryClient c))"

definition clientset_New ::
  "(('w, 'i) rest_interface \<Rightarrow> 'd) \<Rightarrow> ('w, 'i) rest_interface \<Rightarrow> ('d, ('w, 'i) AppsV1alpha1Client) Clientset" where
  "clientset_New NewDiscoveryClient c =
     \<lparr>cs_DiscoveryClient = NewDiscoveryClient c, cs_appsV1alpha1 = apps_New c\<rparr>"

section \<open>What a user of the interface relies on\<close>

text \<open>
  Objects that a server for the resource's schema accepts and gives back as they were sent: the text
  is ASCII, a list or map that JSON leaves out when it is empty (\<^verbatim>\<open>omitempty\<close>) is not empty but not nil,
  and the topology keys, which the schema requires, are not nil.
\<close>

definition ascii :: "string \<Rightarrow> bool" where
  "ascii s \<longleftrightarrow> (\<forall>c \<in> set s. of_char c < (128 :: nat))"

definition plain_map :: "string gomap \<Rightarrow> bool" where
  "plain_map m \<longleftrightarrow> (case m of None \<Rightarrow> True | Some f \<Rightarrow> f \<noteq> fmempty \<and> fmpred (\<lambda>k x. ascii k \<and> ascii x) f)"

definition plain_spec :: "PersistentPodStateSpec \<Rightarrow> bool" where
  "plain_spec s \<longleftrightarrow>
     (let r = spec_TargetReference s in ascii (tr_APIVersion r) \<and> ascii (tr_Kind r) \<and> ascii (tr_Name r)) \<and>
     (case PersistentPodAnnotations s of None \<Rightarrow> True | Some as \<Rightarrow> as \<noteq> [] \<and> list_all (\<lambda>a. ascii (ppa_Key a)) as) \<and>
     (case RequiredPersistentTopology s of
        None \<Rightarrow> True
      | Some t \<Rightarrow> (case NodeTopologyKeys t of None \<Rightarrow> False | Some ks \<Rightarrow> list_all ascii ks))"

definition plain_pod_state :: "PodState \<Rightarrow> bool" where
  "plain_pod_state p \<longleftrightarrow> ascii (ps_NodeName p) \<and> ascii (ps_PodIP p) \<and> plain_map (ps_NodeTopologyLabels p) \<and>
     plain_map (ps_Annotations p)"

definition plain_status :: "PersistentPodStateStatus \<Rightarrow> bool" where
  "plain_status st \<longleftrightarrow>
     (case PodStates st of None \<Rightarrow> True | Some f \<Rightarrow> f \<noteq> fmempty \<and> fmpred (\<lambda>k x. ascii k \<and> plain_pod_state x) f)"

definition new_PPS :: "string \<Rightarrow> string \<Rightarrow> PersistentPodStateSpec \<Rightarrow> PersistentPodState" where
  "new_PPS ns n s = \<lparr>pps_Meta = zero_meta\<lparr>om_Name := n, om_Namespace := ns\<rparr>, pps_Spec = s, pps_Status = zero_Status\<rparr>"

text \<open>
  For one namespace \<open>ns\<close>, in terms of a view \<open>v\<close> of the stored objects: the server or the tracker answers,
  a read returns the stored object, a create of a plain new object stores the specification, an update of the
  status of an object just read stores a plain status, and a delete removes the object. All calls have
  default options (no dry run, no preconditions). The name has to be one that the store accepts
  (\<open>valid\<close>), and the state one in which a delete removes at once, the objects having no finalizers (\<open>good\<close>).
  Nothing is said of the object that comes with an error: the typed client returns an empty one and the fake none.
\<close>

locale pps_store =
  fixes api :: "('w, 'i) pps_interface"
    and v :: "'w \<Rightarrow> string \<times> string \<Rightarrow> PersistentPodState option"
    and good :: "'w \<Rightarrow> bool"
    and valid :: "string \<Rightarrow> bool"
    and ns :: string
  assumes get_found: "good w \<Longrightarrow> valid n \<Longrightarrow> v w (ns, n) = Some p \<Longrightarrow>
      \<exists>w'. pi_Get api n [] w = (Ok (Some p, None), w') \<and> good w' \<and> v w' = v w"
    and get_missing: "good w \<Longrightarrow> valid n \<Longrightarrow> v w (ns, n) = None \<Longrightarrow>
      \<exists>x w'. pi_Get api n [] w = (Ok (x, Some (NotFound n)), w') \<and> good w' \<and> v w' = v w"
    and create_new: "good w \<Longrightarrow> valid n \<Longrightarrow> plain_spec s \<Longrightarrow> v w (ns, n) = None \<Longrightarrow>
      \<exists>p' w'. pi_Create api (Some (new_PPS ns n s)) [] w = (Ok (Some p', None), w') \<and> good w' \<and>
        v w' = (v w)((ns, n) \<mapsto> p') \<and> pps_Spec p' = s \<and> pps_Status p' = zero_Status"
    and create_again: "good w \<Longrightarrow> valid n \<Longrightarrow> plain_spec s \<Longrightarrow> v w (ns, n) \<noteq> None \<Longrightarrow>
      \<exists>x w'. pi_Create api (Some (new_PPS ns n s)) [] w = (Ok (x, Some (AlreadyExists n)), w') \<and> good w' \<and> v w' = v w"
    and status: "good w \<Longrightarrow> valid n \<Longrightarrow> plain_status st \<Longrightarrow> v w (ns, n) = Some p \<Longrightarrow>
      \<exists>p' w'. pi_UpdateStatus api (Some (p\<lparr>pps_Status := st\<rparr>)) [] w = (Ok (Some p', None), w') \<and> good w' \<and>
        v w' = (v w)((ns, n) \<mapsto> p') \<and> pps_Spec p' = pps_Spec p \<and> pps_Status p' = st"
    and delete_found: "good w \<Longrightarrow> valid n \<Longrightarrow> v w (ns, n) \<noteq> None \<Longrightarrow>
      \<exists>w'. pi_Delete api n [] w = (Ok None, w') \<and> good w' \<and> v w' = (v w)((ns, n) := None)"
    and delete_missing: "good w \<Longrightarrow> valid n \<Longrightarrow> v w (ns, n) = None \<Longrightarrow>
      \<exists>w'. pi_Delete api n [] w = (Ok (Some (NotFound n)), w') \<and> good w' \<and> v w' = v w"

text \<open>
  A user of the interface: a sequence of commands on the objects of one namespace, and what it sees of
  each. Setting a status reads the object and sends it back with the new status.
\<close>

datatype command =
    CGet string
  | CCreate string PersistentPodStateSpec
  | CSetStatus string PersistentPodStateStatus
  | CDelete string

datatype observation =
    Seen PersistentPodStateSpec PersistentPodStateStatus
  | Accepted
  | Refused api_error
  | Crashed

fun see :: "PersistentPodState reply \<Rightarrow> observation" where
  "see (Ok (x, Some e)) = Refused e"
| "see (Ok (Some p, None)) = Seen (pps_Spec p) (pps_Status p)"
| "see (Ok (None, None)) = Crashed"
| "see _ = Crashed"

fun see_error :: "error_reply \<Rightarrow> observation" where
  "see_error (Ok (Some e)) = Refused e"
| "see_error (Ok None) = Accepted"
| "see_error _ = Crashed"

fun run_command :: "('w, 'i) pps_interface \<Rightarrow> string \<Rightarrow> command \<Rightarrow> 'w \<Rightarrow> observation \<times> 'w" where
  "run_command api ns (CGet n) w = (case pi_Get api n [] w of (r, w1) \<Rightarrow> (see r, w1))"
| "run_command api ns (CCreate n s) w =
     (case pi_Create api (Some (new_PPS ns n s)) [] w of (r, w1) \<Rightarrow> (see r, w1))"
| "run_command api ns (CSetStatus n st) w =
     (case pi_Get api n [] w of
        (Ok (Some p, None), w1) \<Rightarrow>
          (case pi_UpdateStatus api (Some (p\<lparr>pps_Status := st\<rparr>)) [] w1 of (r, w2) \<Rightarrow> (see r, w2))
      | (r, w1) \<Rightarrow> (see r, w1))"
| "run_command api ns (CDelete n) w = (case pi_Delete api n [] w of (r, w1) \<Rightarrow> (see_error r, w1))"

fun run_script :: "('w, 'i) pps_interface \<Rightarrow> string \<Rightarrow> command list \<Rightarrow> 'w \<Rightarrow> observation list \<times> 'w" where
  "run_script api ns [] w = ([], w)"
| "run_script api ns (c # cs) w =
     (case run_command api ns c w of (x, w1) \<Rightarrow> (case run_script api ns cs w1 of (xs, w2) \<Rightarrow> (x # xs, w2)))"

text \<open>What the script should see: a map from names to specification and status.\<close>

type_synonym pps_map = "string \<Rightarrow> (PersistentPodStateSpec \<times> PersistentPodStateStatus) option"

definition lookup_or :: "string \<Rightarrow> pps_map \<Rightarrow> (PersistentPodStateSpec \<times> PersistentPodStateStatus \<Rightarrow> observation \<times> pps_map) \<Rightarrow>
  observation \<times> pps_map" where
  "lookup_or n m f = (case m n of None \<Rightarrow> (Refused (NotFound n), m) | Some x \<Rightarrow> f x)"

fun spec_command :: "command \<Rightarrow> pps_map \<Rightarrow> observation \<times> pps_map" where
  "spec_command (CGet n) m = lookup_or n m (\<lambda>(s, st). (Seen s st, m))"
| "spec_command (CCreate n s) m =
     (if m n = None then (Seen s zero_Status, m(n \<mapsto> (s, zero_Status))) else (Refused (AlreadyExists n), m))"
| "spec_command (CSetStatus n st) m = lookup_or n m (\<lambda>(s, _). (Seen s st, m(n \<mapsto> (s, st))))"
| "spec_command (CDelete n) m = lookup_or n m (\<lambda>_. (Accepted, m(n := None)))"

fun spec_script :: "command list \<Rightarrow> pps_map \<Rightarrow> observation list \<times> pps_map" where
  "spec_script [] m = ([], m)"
| "spec_script (c # cs) m =
     (case spec_command c m of (x, m1) \<Rightarrow> (case spec_script cs m1 of (xs, m2) \<Rightarrow> (x # xs, m2)))"

fun command_name :: "command \<Rightarrow> string" where
  "command_name (CGet n) = n"
| "command_name (CCreate n s) = n"
| "command_name (CSetStatus n st) = n"
| "command_name (CDelete n) = n"

fun command_plain :: "command \<Rightarrow> bool" where
  "command_plain (CCreate n s) \<longleftrightarrow> plain_spec s"
| "command_plain (CSetStatus n st) \<longleftrightarrow> plain_status st"
| "command_plain _ \<longleftrightarrow> True"

definition abs_pps :: "string \<Rightarrow> (string \<times> string \<Rightarrow> PersistentPodState option) \<Rightarrow> pps_map" where
  "abs_pps ns m n = map_option (\<lambda>p. (pps_Spec p, pps_Status p)) (m (ns, n))"

lemma abs_pps_upd [simp]:
  "abs_pps ns (m((ns, n) \<mapsto> p)) = (abs_pps ns m)(n \<mapsto> (pps_Spec p, pps_Status p))"
  "abs_pps ns (m((ns, n) := None)) = (abs_pps ns m)(n := None)"
  by (auto simp: abs_pps_def)

lemma new_PPS_simps [simp]:
  "pps_key (new_PPS ns n s) = (ns, n)" "om_ResourceVersion (pps_Meta (new_PPS ns n s)) = []"
  "pps_Spec (new_PPS ns n s) = s" "pps_Status (new_PPS ns n s) = zero_Status"
  by (simp_all add: new_PPS_def pps_key_def zero_meta_def)

text \<open>What is seen agrees with the map, and so do the stored objects afterwards.\<close>

definition follows ::
  "('w \<Rightarrow> bool) \<Rightarrow> ('w \<Rightarrow> string \<times> string \<Rightarrow> PersistentPodState option) \<Rightarrow> string \<Rightarrow> 'x \<times> 'w \<Rightarrow> 'x \<times> pps_map \<Rightarrow> bool" where
  "follows good v ns r s \<longleftrightarrow> fst r = fst s \<and> good (snd r) \<and> abs_pps ns (v (snd r)) = snd s"

context pps_store
begin

lemma follows_get:
  assumes "good w" and "valid n"
  shows "follows good v ns (run_command api ns (CGet n) w) (spec_command (CGet n) (abs_pps ns (v w)))"
proof (cases "v w (ns, n)")
  case None
  with get_missing [OF assms] show ?thesis
    by (auto simp: follows_def lookup_or_def abs_pps_def [of ns "v w" n])
next
  case (Some p)
  with get_found [OF assms, of p] show ?thesis
    by (auto simp: follows_def lookup_or_def abs_pps_def [of ns "v w" n])
qed

lemma follows_create:
  assumes "good w" and "valid n" and "plain_spec s"
  shows "follows good v ns (run_command api ns (CCreate n s) w) (spec_command (CCreate n s) (abs_pps ns (v w)))"
proof (cases "v w (ns, n)")
  case None
  then show ?thesis
    using create_new [OF assms] by (auto simp: follows_def abs_pps_def [of ns "v w" n])
next
  case (Some p)
  then show ?thesis
    using create_again [OF assms] by (auto simp: follows_def abs_pps_def [of ns "v w" n])
qed

lemma follows_status:
  assumes "good w" and "valid n" and "plain_status st"
  shows "follows good v ns (run_command api ns (CSetStatus n st) w) (spec_command (CSetStatus n st) (abs_pps ns (v w)))"
proof (cases "v w (ns, n)")
  case None
  with get_missing [OF assms(1,2)] show ?thesis
    by (auto simp: follows_def lookup_or_def abs_pps_def [of ns "v w" n] split: option.splits)
next
  case (Some p)
  then obtain w1 where w1: "pi_Get api n [] w = (Ok (Some p, None), w1)" "good w1" "v w1 = v w"
    using get_found [OF assms(1,2)] by blast
  with Some status [of w1 n st p] assms(2,3) show ?thesis
    by (auto simp: follows_def lookup_or_def abs_pps_def [of ns "v w" n])
qed

lemma follows_delete:
  assumes "good w" and "valid n"
  shows "follows good v ns (run_command api ns (CDelete n) w) (spec_command (CDelete n) (abs_pps ns (v w)))"
proof (cases "v w (ns, n)")
  case None
  with delete_missing [OF assms] show ?thesis
    by (auto simp: follows_def lookup_or_def abs_pps_def [of ns "v w" n])
next
  case (Some p)
  with delete_found [OF assms] show ?thesis
    by (auto simp: follows_def lookup_or_def abs_pps_def [of ns "v w" n])
qed

lemma follows_command:
  "good w \<Longrightarrow> valid (command_name c) \<Longrightarrow> command_plain c \<Longrightarrow>
     follows good v ns (run_command api ns c w) (spec_command c (abs_pps ns (v w)))"
  by (cases c) (simp_all only: command_name.simps command_plain.simps follows_get follows_create follows_status follows_delete)

lemma script_refines:
  assumes "good w" and "list_all (\<lambda>c. valid (command_name c) \<and> command_plain c) cs"
  shows "follows good v ns (run_script api ns cs w) (spec_script cs (abs_pps ns (v w)))"
  using assms
proof (induction cs arbitrary: w)
  case Nil
  then show ?case by (simp add: follows_def)
next
  case (Cons c cs)
  obtain x w1 where r: "run_command api ns c w = (x, w1)" by fastforce
  from Cons.prems follows_command [of w c] have f: "follows good v ns (x, w1) (spec_command c (abs_pps ns (v w)))"
    by (simp add: r)
  with Cons.IH [of w1] Cons.prems show ?case
    by (auto simp: r follows_def split: prod.splits)
qed

end

section \<open>A server that answers every request\<close>

text \<open>
  The resource that a chain of builder calls addresses, as client-go documents the calls, and the
  behaviour of an API server for the resource of this repository in a namespace that exists. A request
  that fails leaves the object it should fill as it was. The resource has a status subresource: a
  create drops the status that was sent, and an update through it changes nothing but the status. The laws
  are limited to plain new objects and statuses, which the schema accepts, to updates of a plain object as
  it was read, to requests with default options, and to deletes of objects without finalizers
  (\<open>finalized\<close>), which neither a create of such an object nor a status update adds.
\<close>

record rest_request =
  rq_Namespace :: string
  rq_Resource :: string
  rq_Name :: string
  rq_SubResource :: "string list"
  rq_Body :: "rest_body option"

fun add_call :: "rest_call \<Rightarrow> rest_request \<Rightarrow> rest_request" where
  "add_call (Namespace s) q = q\<lparr>rq_Namespace := s\<rparr>"
| "add_call (Resource s) q = q\<lparr>rq_Resource := s\<rparr>"
| "add_call (Name s) q = q\<lparr>rq_Name := s\<rparr>"
| "add_call (SubResource ss) q = q\<lparr>rq_SubResource := ss\<rparr>"
| "add_call (Body b) q = q\<lparr>rq_Body := Some b\<rparr>"
| "add_call _ q = q"

definition request_of :: "rest_call list \<Rightarrow> rest_request" where
  "request_of calls = fold add_call calls
     \<lparr>rq_Namespace = [], rq_Resource = [], rq_Name = [], rq_SubResource = [], rq_Body = None\<rparr>"

definition addresses :: "rest_call list \<Rightarrow> string \<Rightarrow> string \<Rightarrow> string list \<Rightarrow> bool" where
  "addresses calls ns n sub \<longleftrightarrow> rq_Resource (request_of calls) = ''persistentpodstates'' \<and>
     rq_Namespace (request_of calls) = ns \<and> rq_Name (request_of calls) = n \<and> rq_SubResource (request_of calls) = sub"

definition sends :: "rest_call list \<Rightarrow> PersistentPodState \<Rightarrow> bool" where
  "sends calls p \<longleftrightarrow> rq_Body (request_of calls) = Some (ObjectBody (Some p))"

definition default_options :: "rest_call list \<Rightarrow> bool" where
  "default_options calls \<longleftrightarrow>
     list_all (\<lambda>c. case c of
        VersionedParams p \<Rightarrow> p \<in> {GetParams [], CreateParams [], UpdateParams []}
      | Body (DeleteBody opts) \<Rightarrow> opts = []
      | _ \<Rightarrow> True) calls"

definition rest_reads_ok where
  "rest_reads_ok R v valid ns \<longleftrightarrow>
     (\<forall>calls n w. addresses calls ns n [] \<longrightarrow> default_options calls \<longrightarrow> valid n \<longrightarrow>
        Into_PPS R VGet calls zero_PPS w =
          (case v w (ns, n) of None \<Rightarrow> ((zero_PPS, Some (NotFound n)), w) | Some p \<Rightarrow> ((p, None), w)))"

definition rest_creates_ok where
  "rest_creates_ok R v valid finalized ns \<longleftrightarrow>
     (\<forall>calls n s w. addresses calls ns [] [] \<longrightarrow> default_options calls \<longrightarrow> sends calls (new_PPS ns n s) \<longrightarrow>
        valid n \<longrightarrow> plain_spec s \<longrightarrow>
        (if v w (ns, n) = None
         then \<exists>p' w'. Into_PPS R VPost calls zero_PPS w = ((p', None), w') \<and> \<not> finalized p' \<and>
           pps_Spec p' = s \<and> pps_Status p' = zero_Status \<and> v w' = (v w)((ns, n) \<mapsto> p')
         else Into_PPS R VPost calls zero_PPS w = ((zero_PPS, Some (AlreadyExists n)), w)))"

definition rest_updates_ok where
  "rest_updates_ok R v valid finalized ns \<longleftrightarrow>
     (\<forall>calls n st old w. addresses calls ns n [''status''] \<longrightarrow> default_options calls \<longrightarrow>
        sends calls (old\<lparr>pps_Status := st\<rparr>) \<longrightarrow> valid n \<longrightarrow> plain_status st \<longrightarrow> v w (ns, n) = Some old \<longrightarrow>
        plain_spec (pps_Spec old) \<longrightarrow>
        (\<exists>p' w'. Into_PPS R VPut calls zero_PPS w = ((p', None), w') \<and> (finalized p' \<longleftrightarrow> finalized old) \<and>
           pps_Spec p' = pps_Spec old \<and> pps_Status p' = st \<and> v w' = (v w)((ns, n) \<mapsto> p'))) \<and>
     (\<forall>w n p. v w (ns, n) = Some p \<longrightarrow> pps_key p = (ns, n))"

definition rest_deletes_ok where
  "rest_deletes_ok R v valid finalized ns \<longleftrightarrow>
     (\<forall>calls n w. addresses calls ns n [] \<longrightarrow> default_options calls \<longrightarrow> valid n \<longrightarrow>
        (case v w (ns, n) of
           None \<Rightarrow> Do_Error R VDelete calls w = (Some (NotFound n), w)
         | Some p \<Rightarrow> \<not> finalized p \<longrightarrow>
             (\<exists>w'. Do_Error R VDelete calls w = (None, w') \<and> v w' = (v w)((ns, n) := None))))"

definition rest_ok ::
  "('w, 'i) rest_interface \<Rightarrow> ('w \<Rightarrow> string \<times> string \<Rightarrow> PersistentPodState option) \<Rightarrow> (string \<Rightarrow> bool) \<Rightarrow>
   (PersistentPodState \<Rightarrow> bool) \<Rightarrow> string \<Rightarrow> bool" where
  "rest_ok R v valid finalized ns \<longleftrightarrow>
     rest_reads_ok R v valid ns \<and> rest_creates_ok R v valid finalized ns \<and> rest_updates_ok R v valid finalized ns \<and>
     rest_deletes_ok R v valid finalized ns"

definition plain_objects ::
  "('w \<Rightarrow> string \<times> string \<Rightarrow> PersistentPodState option) \<Rightarrow> (PersistentPodState \<Rightarrow> bool) \<Rightarrow> string \<Rightarrow> 'w \<Rightarrow> bool" where
  "plain_objects v finalized ns w \<longleftrightarrow> (\<forall>n p. v w (ns, n) = Some p \<longrightarrow> \<not> finalized p \<and> plain_spec (pps_Spec p))"

definition typed_client :: "('w, 'i) rest_interface \<Rightarrow> string \<Rightarrow> ('w, 'i) pps_interface" where
  "typed_client R ns = typed_PersistentPodStates (Some (apps_New R)) ns"

lemma typed_client_simps [simp]:
  "pp_client (newPersistentPodStates (Some (apps_New R)) ns) = Some R"
  "pp_ns (newPersistentPodStates (Some (apps_New R)) ns) = ns"
  by (simp_all add: newPersistentPodStates_def RESTClient_def apps_New_def)

lemmas typed_defs = typed_client_def typed_PersistentPodStates_def Let_def on_client_def
  typed_Get_def typed_Create_def typed_UpdateStatus_def typed_Delete_def

lemmas request_defs = addresses_def sends_def request_of_def default_options_def

locale rest_store =
  fixes R :: "('w, 'i) rest_interface"
    and v :: "'w \<Rightarrow> string \<times> string \<Rightarrow> PersistentPodState option"
    and valid :: "string \<Rightarrow> bool"
    and finalized :: "PersistentPodState \<Rightarrow> bool"
    and ns :: string
  assumes rest: "rest_ok R v valid finalized ns"
begin

lemma read:
  "addresses calls ns n [] \<Longrightarrow> default_options calls \<Longrightarrow> valid n \<Longrightarrow>
     Into_PPS R VGet calls zero_PPS w =
       (case v w (ns, n) of None \<Rightarrow> ((zero_PPS, Some (NotFound n)), w) | Some p \<Rightarrow> ((p, None), w))"
  using rest by (simp add: rest_ok_def rest_reads_ok_def)

lemma create:
  "addresses calls ns [] [] \<Longrightarrow> default_options calls \<Longrightarrow> sends calls (new_PPS ns n s) \<Longrightarrow> valid n \<Longrightarrow> plain_spec s \<Longrightarrow>
     (if v w (ns, n) = None
      then \<exists>p' w'. Into_PPS R VPost calls zero_PPS w = ((p', None), w') \<and> \<not> finalized p' \<and>
        pps_Spec p' = s \<and> pps_Status p' = zero_Status \<and> v w' = (v w)((ns, n) \<mapsto> p')
      else Into_PPS R VPost calls zero_PPS w = ((zero_PPS, Some (AlreadyExists n)), w))"
  using rest unfolding rest_ok_def rest_creates_ok_def by blast

lemma put_status:
  "addresses calls ns n [''status''] \<Longrightarrow> default_options calls \<Longrightarrow> sends calls (old\<lparr>pps_Status := st\<rparr>) \<Longrightarrow> valid n \<Longrightarrow>
     plain_status st \<Longrightarrow> v w (ns, n) = Some old \<Longrightarrow> plain_spec (pps_Spec old) \<Longrightarrow>
     \<exists>p' w'. Into_PPS R VPut calls zero_PPS w = ((p', None), w') \<and> (finalized p' \<longleftrightarrow> finalized old) \<and>
        pps_Spec p' = pps_Spec old \<and> pps_Status p' = st \<and> v w' = (v w)((ns, n) \<mapsto> p')"
  using rest unfolding rest_ok_def rest_updates_ok_def by blast

lemma stored_key: "v w (ns, n) = Some p \<Longrightarrow> pps_key p = (ns, n)"
  using rest unfolding rest_ok_def rest_updates_ok_def by blast

lemma remove:
  "addresses calls ns n [] \<Longrightarrow> default_options calls \<Longrightarrow> valid n \<Longrightarrow>
     (case v w (ns, n) of
        None \<Rightarrow> Do_Error R VDelete calls w = (Some (NotFound n), w)
      | Some p \<Rightarrow> \<not> finalized p \<longrightarrow> (\<exists>w'. Do_Error R VDelete calls w = (None, w') \<and> v w' = (v w)((ns, n) := None)))"
  using rest unfolding rest_ok_def rest_deletes_ok_def by blast

lemma plain_objects_upd:
  "plain_objects v finalized ns w \<Longrightarrow> \<not> finalized p \<Longrightarrow> plain_spec (pps_Spec p) \<Longrightarrow> v w' = (v w)((ns, n) \<mapsto> p) \<Longrightarrow> plain_objects v finalized ns w'"
  "plain_objects v finalized ns w \<Longrightarrow> v w' = (v w)((ns, n) := None) \<Longrightarrow> plain_objects v finalized ns w'"
  by (auto simp: plain_objects_def)

end

sublocale rest_store \<subseteq> typed: pps_store "typed_client R ns" v "plain_objects v finalized ns" valid ns
proof unfold_locales
  fix w n p
  assume "plain_objects v finalized ns w" "valid n" "v w (ns, n) = Some p"
  then show "\<exists>w'. pi_Get (typed_client R ns) n [] w = (Ok (Some p, None), w') \<and> plain_objects v finalized ns w' \<and> v w' = v w"
    by (simp add: typed_defs read request_defs)
next
  fix w n
  assume "plain_objects v finalized ns w" "valid n" "v w (ns, n) = None"
  then show "\<exists>x w'. pi_Get (typed_client R ns) n [] w = (Ok (x, Some (NotFound n)), w') \<and> plain_objects v finalized ns w' \<and> v w' = v w"
    by (simp add: typed_defs read request_defs)
next
  fix w n s
  assume a: "plain_objects v finalized ns w" "valid n" "plain_spec s" "v w (ns, n) = None"
  let ?calls = "[Namespace ns, Resource ''persistentpodstates'', VersionedParams (CreateParams []), Body (ObjectBody (Some (new_PPS ns n s)))]"
  have "addresses ?calls ns [] []" "default_options ?calls" "sends ?calls (new_PPS ns n s)" by (simp_all add: request_defs)
  from create [OF this a(2,3), of w] a(4) obtain p' w' where "Into_PPS R VPost ?calls zero_PPS w = ((p', None), w')"
    "\<not> finalized p'" "pps_Spec p' = s" "pps_Status p' = zero_Status" "v w' = (v w)((ns, n) \<mapsto> p')" by auto
  with a(3) plain_objects_upd(1) [OF a(1)]
  show "\<exists>p' w'. pi_Create (typed_client R ns) (Some (new_PPS ns n s)) [] w = (Ok (Some p', None), w') \<and>
      plain_objects v finalized ns w' \<and> v w' = (v w)((ns, n) \<mapsto> p') \<and> pps_Spec p' = s \<and> pps_Status p' = zero_Status"
    by (auto simp: typed_defs)
next
  fix w n s
  assume a: "plain_objects v finalized ns w" "valid n" "plain_spec s" "v w (ns, n) \<noteq> None"
  let ?calls = "[Namespace ns, Resource ''persistentpodstates'', VersionedParams (CreateParams []), Body (ObjectBody (Some (new_PPS ns n s)))]"
  have "addresses ?calls ns [] []" "default_options ?calls" "sends ?calls (new_PPS ns n s)" by (simp_all add: request_defs)
  from create [OF this a(2,3), of w] a(1,4)
  show "\<exists>x w'. pi_Create (typed_client R ns) (Some (new_PPS ns n s)) [] w = (Ok (x, Some (AlreadyExists n)), w') \<and>
      plain_objects v finalized ns w' \<and> v w' = v w"
    by (auto simp: typed_defs)
next
  fix w n st p
  assume a: "plain_objects v finalized ns w" "valid n" "plain_status st" "v w (ns, n) = Some p"
  let ?q = "p\<lparr>pps_Status := st\<rparr>"
  let ?calls = "[Namespace ns, Resource ''persistentpodstates'', Name (om_Name (pps_Meta p)), SubResource [''status''],
    VersionedParams (UpdateParams []), Body (ObjectBody (Some ?q))]"
  from stored_key [OF a(4)] have "om_Name (pps_Meta p) = n" by (simp add: pps_key_def)
  then have b: "addresses ?calls ns n [''status'']" "default_options ?calls" "sends ?calls ?q" by (simp_all add: request_defs)
  have pl: "plain_spec (pps_Spec p)" using a(1,4) by (simp add: plain_objects_def)
  from put_status [OF b a(2-4) pl] obtain p' w' where u: "Into_PPS R VPut ?calls zero_PPS w = ((p', None), w')"
    "finalized p' \<longleftrightarrow> finalized p" "pps_Spec p' = pps_Spec p" "pps_Status p' = st" "v w' = (v w)((ns, n) \<mapsto> p')" by blast
  have "\<not> finalized p'" using a(1,4) u(2) by (simp add: plain_objects_def)
  from plain_objects_upd(1) [OF a(1) this _ u(5)] pl u
  show "\<exists>p' w'. pi_UpdateStatus (typed_client R ns) (Some ?q) [] w = (Ok (Some p', None), w') \<and>
      plain_objects v finalized ns w' \<and> v w' = (v w)((ns, n) \<mapsto> p') \<and> pps_Spec p' = pps_Spec p \<and> pps_Status p' = st"
    by (auto simp: typed_defs)
next
  fix w n
  assume a: "plain_objects v finalized ns w" "valid n" "v w (ns, n) \<noteq> None"
  then obtain p where p: "v w (ns, n) = Some p" "\<not> finalized p" by (auto simp: plain_objects_def)
  with a(2) remove [of "[Namespace ns, Resource ''persistentpodstates'', Name n, Body (DeleteBody [])]" n w]
  obtain w' where "Do_Error R VDelete [Namespace ns, Resource ''persistentpodstates'', Name n, Body (DeleteBody [])] w = (None, w')"
    "v w' = (v w)((ns, n) := None)" by (auto simp: request_defs)
  with plain_objects_upd(2) [OF a(1)]
  show "\<exists>w'. pi_Delete (typed_client R ns) n [] w = (Ok None, w') \<and> plain_objects v finalized ns w' \<and> v w' = (v w)((ns, n) := None)"
    by (auto simp: typed_defs)
next
  fix w n
  assume a: "plain_objects v finalized ns w" "valid n" "v w (ns, n) = None"
  then show "\<exists>w'. pi_Delete (typed_client R ns) n [] w = (Ok (Some (NotFound n)), w') \<and> plain_objects v finalized ns w' \<and> v w' = v w"
    using remove [of "[Namespace ns, Resource ''persistentpodstates'', Name n, Body (DeleteBody [])]" n w]
    by (auto simp: typed_defs request_defs)
qed

section \<open>Timeouts\<close>

lemma sint_times_Second:
  "sint (s * time_Second) = sint s * 1000000000 \<longleftrightarrow> - 9223372036 \<le> sint s \<and> sint s \<le> 9223372036"
  for s :: "64 word"
proof -
  have "sint (s * time_Second) = signed_take_bit 63 (sint s * 1000000000)"
    by (simp add: time_Second_def sint_word_ariths)
  also have "\<dots> = sint s * 1000000000 \<longleftrightarrow> - (2 ^ 63) \<le> sint s * 1000000000 \<and> sint s * 1000000000 < 2 ^ 63"
    by (simp add: signed_take_bit_int_eq_self_iff)
  finally show ?thesis by auto
qed

text \<open>
  C24. \<^verbatim>\<open>List\<close>, \<^verbatim>\<open>Watch\<close> and \<^verbatim>\<open>DeleteCollection\<close> send the timeout of their options, in nanoseconds, with the
  request. It is the one that was asked for exactly when its seconds are between -9223372036 and
  9223372036; beyond that the product wraps around: one second more gives a negative timeout, and
  \<open>2 ^ 55\<close> seconds give the same request timeout as options without one.
\<close>

theorem request_timeout:
  "let c = newPersistentPodStates (Some (apps_New R)) ns;
       lo = opts\<lparr>lo_TimeoutSeconds := Some s\<rparr>;
       d = list_timeout lo
   in
     typed_List c lo w = into (Into_List R VGet [Namespace ns, Resource ''persistentpodstates'',
       VersionedParams (ListParams lo), Timeout d] zero_PPSList w) \<and>
     typed_Watch c lo w = apfst Ok (Do_Watch R VGet [Namespace ns, Resource ''persistentpodstates'',
       VersionedParams (ListParams (lo\<lparr>lo_Watch := True\<rparr>)), Timeout d] w) \<and>
     typed_DeleteCollection c dopts lo w = apfst Ok (Do_Error R VDelete [Namespace ns, Resource ''persistentpodstates'',
       VersionedParams (ListParams lo), Timeout d, Body (DeleteBody dopts)] w) \<and>
     (sint d = sint s * 10 ^ 9 \<longleftrightarrow> - 9223372036 \<le> sint s \<and> sint s \<le> 9223372036) \<and>
     sint (list_timeout (opts\<lparr>lo_TimeoutSeconds := Some 9223372037\<rparr>)) < 0 \<and>
     list_timeout (opts\<lparr>lo_TimeoutSeconds := Some (2 ^ 55)\<rparr>) = list_timeout (opts\<lparr>lo_TimeoutSeconds := None\<rparr>)"
proof -
  have "sint (s * time_Second) = sint s * 10 ^ 9 \<longleftrightarrow> - 9223372036 \<le> sint s \<and> sint s \<le> 9223372036"
    using sint_times_Second [of s] by simp
  then show ?thesis
    by (auto simp: Let_def typed_List_def typed_Watch_def typed_DeleteCollection_def on_client_def
        list_timeout_def time_Second_def apfst_def map_prod_def split: prod.split)
qed

end
