(* ===== verification/Schemes.thy ===== *)
theory Schemes
  imports Cluster_Client Client_Registry
begin

text \<open>
  The schemes, which map Go types to kinds: the types of this repository's group
  (\<^verbatim>\<open>groupversion_info.go\<close> and the \<^verbatim>\<open>init\<close> of \<^verbatim>\<open>persistentpodstate_types.go\<close>), the scheme of the generated
  clientset, the one of its fake, and the scheme of the manager in \<^verbatim>\<open>cmd/main.go\<close>. A scheme \<open>'s\<close> and the functions that add
  types to it belong to apimachinery and controller-runtime and are parameters.
\<close>

record 's scheme_api =
  NewScheme :: 's
  AddToGroupVersion :: "string \<times> string \<Rightarrow> 's \<Rightarrow> 's"
  Builder_AddToScheme :: "string \<times> string \<Rightarrow> string list \<Rightarrow> 's \<Rightarrow> go_error \<times> 's"
  clientgo_AddToScheme :: "'s \<Rightarrow> go_error \<times> 's"
  kubevirt_AddToScheme :: "'s \<Rightarrow> go_error \<times> 's"
  calico_AddToScheme :: "'s \<Rightarrow> go_error \<times> 's"

section \<open>The types of the group\<close>

text \<open>\<^verbatim>\<open>SchemeBuilder.Register\<close> in the package's \<^verbatim>\<open>init\<close>: the Go types by their names.\<close>

definition registered_types :: "string list" where
  "registered_types = [''PersistentPodState'', ''PersistentPodStateList'']"

definition apps_AddToScheme :: "'s scheme_api \<Rightarrow> 's \<Rightarrow> go_error \<times> 's" where
  "apps_AddToScheme A = Builder_AddToScheme A SchemeGroupVersion registered_types"

type_synonym group_resource = "string \<times> string"

definition WithResource :: "string \<Rightarrow> string \<times> string \<times> string" where
  "WithResource resource = (fst SchemeGroupVersion, snd SchemeGroupVersion, resource)"

definition api_Resource :: "string \<Rightarrow> group_resource" where
  "api_Resource resource = (case WithResource resource of (g, v, r) \<Rightarrow> (g, r))"

section \<open>Filling a scheme\<close>

text \<open>\<^verbatim>\<open>runtime.SchemeBuilder.AddToScheme\<close>: the functions in order, up to the first error.\<close>

fun add_all :: "('s \<Rightarrow> go_error \<times> 's) list \<Rightarrow> 's \<Rightarrow> go_error \<times> 's" where
  "add_all [] s = (None, s)"
| "add_all (f # fs) s = (case f s of (Some e, s1) \<Rightarrow> (Some e, s1) | (None, s1) \<Rightarrow> add_all fs s1)"

definition clientset_AddToScheme :: "'s scheme_api \<Rightarrow> 's \<Rightarrow> go_error \<times> 's" where
  "clientset_AddToScheme A = add_all [apps_AddToScheme A]"

text \<open>\<^verbatim>\<open>utilruntime.Must\<close> panics on an error.\<close>

fun Must :: "go_error \<times> 's \<Rightarrow> (unit, 's) result" where
  "Must (None, s) = Ok s"
| "Must (Some e, s) = Panic"

definition clientset_scheme :: "'s scheme_api \<Rightarrow> (unit, 's) result" where
  "clientset_scheme A = Must (clientset_AddToScheme A (AddToGroupVersion A ([], ''v1'') (NewScheme A)))"

definition fake_AddToScheme :: "'s scheme_api \<Rightarrow> 's \<Rightarrow> go_error \<times> 's" where
  "fake_AddToScheme A = add_all [apps_AddToScheme A]"

definition fake_scheme :: "'s scheme_api \<Rightarrow> (unit, 's) result" where
  "fake_scheme A = Must (fake_AddToScheme A (AddToGroupVersion A ([], ''v1'') (NewScheme A)))"

fun must_all :: "('s \<Rightarrow> go_error \<times> 's) list \<Rightarrow> 's \<Rightarrow> (unit, 's) result" where
  "must_all [] s = Ok s"
| "must_all (f # fs) s =
     (case Must (f s) of Ok s1 \<Rightarrow> must_all fs s1 | Fail e \<Rightarrow> Fail e | Panic \<Rightarrow> Panic | Exit \<Rightarrow> Exit)"

definition manager_scheme :: "'s scheme_api \<Rightarrow> (unit, 's) result" where
  "manager_scheme A =
     must_all [clientgo_AddToScheme A, apps_AddToScheme A, kubevirt_AddToScheme A, calico_AddToScheme A] (NewScheme A)"

section \<open>What a filled scheme knows\<close>

text \<open>
  Adding types never takes any away, and a builder that reports no error has added its types to its
  group and version. Kinds are read off a scheme by \<open>knows\<close>.
\<close>

definition scheme_ok :: "'s scheme_api \<Rightarrow> ('s \<Rightarrow> (string \<times> string) \<times> string \<Rightarrow> bool) \<Rightarrow> bool" where
  "scheme_ok A knows \<longleftrightarrow>
     (\<forall>gv s k. knows s k \<longrightarrow> knows (AddToGroupVersion A gv s) k) \<and>
     (\<forall>gv ts s k. knows s k \<longrightarrow> knows (snd (Builder_AddToScheme A gv ts s)) k) \<and>
     (\<forall>gv ts s. fst (Builder_AddToScheme A gv ts s) = None \<longrightarrow>
        (\<forall>t \<in> set ts. knows (snd (Builder_AddToScheme A gv ts s)) (gv, t))) \<and>
     (\<forall>f \<in> {clientgo_AddToScheme A, kubevirt_AddToScheme A, calico_AddToScheme A}.
        \<forall>s k. knows s k \<longrightarrow> knows (snd (f s)) k)"

lemma Must_Ok [simp]: "Must r = Ok s \<longleftrightarrow> r = (None, s)"
  by (cases r rule: Must.cases) auto

lemma Must_not_Fail [simp]: "Must r \<noteq> Fail e" "Must r \<noteq> Exit"
  by (cases r rule: Must.cases; simp)+

lemma must_all_Ok_Cons:
  "must_all (f # fs) s = Ok s' \<longleftrightarrow> (\<exists>s1. f s = (None, s1) \<and> must_all fs s1 = Ok s')"
  by (auto split: result.splits)

text \<open>All three schemes, once their package is initialised, know both types of the group.\<close>

lemma schemes_know_group:
  assumes A: "scheme_ok A knows" and k: "k \<in> set registered_types"
  shows "clientset_scheme A = Ok s \<Longrightarrow> knows s (SchemeGroupVersion, k)"
    and "fake_scheme A = Ok s \<Longrightarrow> knows s (SchemeGroupVersion, k)"
    and "manager_scheme A = Ok s \<Longrightarrow> knows s (SchemeGroupVersion, k)"
proof -
  have b: "knows s2 (SchemeGroupVersion, k)" if "apps_AddToScheme A s1 = (None, s2)" for s1 s2
    using A k that unfolding scheme_ok_def apps_AddToScheme_def by (metis fst_conv snd_conv)
  then show "clientset_scheme A = Ok s \<Longrightarrow> knows s (SchemeGroupVersion, k)"
    and "fake_scheme A = Ok s \<Longrightarrow> knows s (SchemeGroupVersion, k)"
    by (auto simp: clientset_scheme_def clientset_AddToScheme_def fake_scheme_def fake_AddToScheme_def
        split: prod.splits option.splits)
  have keep: "knows s2 x" if "f s1 = (None, s2)" "f \<in> {kubevirt_AddToScheme A, calico_AddToScheme A}" "knows s1 x"
    for f s1 s2 x
    using A that unfolding scheme_ok_def by (metis insertCI snd_conv)
  assume "manager_scheme A = Ok s"
  then obtain s1 s2 s3 where "apps_AddToScheme A s1 = (None, s2)" "kubevirt_AddToScheme A s2 = (None, s3)"
    "calico_AddToScheme A s3 = (None, s)"
    unfolding manager_scheme_def must_all_Ok_Cons must_all.simps(1) by auto
  with b keep show "knows s (SchemeGroupVersion, k)" by blast
qed

end
