(* ===== verification/Fake_Client.thy ===== *)
theory Fake_Client
  imports Typed_Client Schemes
begin

text \<open>
  The fake clientset that the generator makes for tests, \<^verbatim>\<open>clientset/versioned/fake/clientset_generated.go\<close> and
  \<^verbatim>\<open>typed/apps/v1alpha1/fake\<close>. Its methods describe the call as an action, hand it to client-go's
  \<^verbatim>\<open>testing.Fake\<close> and assert the type of the object that comes back; an object of another type is a panic.
  \<^verbatim>\<open>testing.Fake\<close> (\<open>'f\<close>) and its object tracker (with state \<open>'w\<close>) are parameters.
\<close>

section \<open>Objects and actions\<close>

type_synonym gvr = "string \<times> string \<times> string"

text \<open>
  A non-nil \<^verbatim>\<open>runtime.Object\<close>: a pointer to one of the two types of the group, which may be nil, an
  object of another Go type, given by the resource that its kind stands for (also an
  \<^verbatim>\<open>unstructured.Unstructured\<close>, which may be of any kind), or a list of another Go type, given by its items.
\<close>

datatype runtime_object =
    ObjPPS "PersistentPodState option"
  | ObjList "PersistentPodStateList option"
  | ObjOther gvr opaque
  | ObjOtherList "runtime_object list"

datatype fake_action =
    GetAction gvr string string
  | ListAction gvr string string list_options
  | WatchAction gvr string list_options
  | CreateAction gvr string "PersistentPodState option"
  | UpdateAction gvr string string "PersistentPodState option"
  | DeleteAction gvr string string opaque
  | DeleteCollectionAction gvr string list_options
  | PatchAction gvr string string string string "string list"

fun action_GetResource :: "fake_action \<Rightarrow> gvr" where
  "action_GetResource (GetAction g ns n) = g"
| "action_GetResource (ListAction g k ns opts) = g"
| "action_GetResource (WatchAction g ns opts) = g"
| "action_GetResource (CreateAction g ns p) = g"
| "action_GetResource (UpdateAction g sub ns p) = g"
| "action_GetResource (DeleteAction g ns n opts) = g"
| "action_GetResource (DeleteCollectionAction g ns opts) = g"
| "action_GetResource (PatchAction g ns n pt data sub) = g"

fun action_GetNamespace :: "fake_action \<Rightarrow> string" where
  "action_GetNamespace (GetAction g ns n) = ns"
| "action_GetNamespace (ListAction g k ns opts) = ns"
| "action_GetNamespace (WatchAction g ns opts) = ns"
| "action_GetNamespace (CreateAction g ns p) = ns"
| "action_GetNamespace (UpdateAction g sub ns p) = ns"
| "action_GetNamespace (DeleteAction g ns n opts) = ns"
| "action_GetNamespace (DeleteCollectionAction g ns opts) = ns"
| "action_GetNamespace (PatchAction g ns n pt data sub) = ns"

text \<open>A label selector is the set of the labels it matches.\<close>

type_synonym selector = "string gomap \<Rightarrow> bool"

type_synonym 'w reaction = "fake_action \<Rightarrow> 'w \<Rightarrow> (bool \<times> runtime_object option \<times> go_error) \<times> 'w"
type_synonym ('w, 'i) watch_reaction = "fake_action \<Rightarrow> 'w \<Rightarrow> (bool \<times> 'i option \<times> go_error) \<times> 'w"

record ('s, 'w, 'f, 'i) testing_api =
  NewObjectTracker :: "'s \<Rightarrow> 'w"
  tracker_Add :: "runtime_object \<Rightarrow> 'w \<Rightarrow> go_error \<times> 'w"
  ObjectReaction :: "'w reaction"
  tracker_Watch :: "gvr \<Rightarrow> string \<Rightarrow> 'w \<Rightarrow> ('i option \<times> go_error) \<times> 'w"
  zero_Fake :: 'f
  AddReactor :: "string \<Rightarrow> string \<Rightarrow> 'w reaction \<Rightarrow> 'f \<Rightarrow> 'f"
  AddWatchReactor :: "string \<Rightarrow> ('w, 'i) watch_reaction \<Rightarrow> 'f \<Rightarrow> 'f"
  Invokes :: "'f \<Rightarrow> fake_action \<Rightarrow> runtime_object \<Rightarrow> 'w \<Rightarrow> (runtime_object option \<times> go_error) \<times> 'w"
  InvokesWatch :: "'f \<Rightarrow> fake_action \<Rightarrow> 'w \<Rightarrow> ('i option \<times> go_error) \<times> 'w"
  ExtractFromListOptions :: "list_options \<Rightarrow> selector option"
  labels_Everything :: selector

section \<open>The fake of the resource\<close>

definition persistentpodstatesResource :: gvr where
  "persistentpodstatesResource = WithResource ''persistentpodstates''"

definition persistentpodstatesKind :: string where
  "persistentpodstatesKind = ''PersistentPodState''"

record 'f FakePersistentPodStates =
  fpp_Fake :: 'f
  fpp_ns :: string

text \<open>\<^verbatim>\<open>if obj == nil { return nil, err }; return obj.(*v1alpha1.PersistentPodState), err\<close>\<close>

fun assert_PPS :: "(runtime_object option \<times> go_error) \<times> 'w \<Rightarrow> PersistentPodState reply \<times> 'w" where
  "assert_PPS ((None, err), w) = (Ok (None, err), w)"
| "assert_PPS ((Some (ObjPPS p), err), w) = (Ok (p, err), w)"
| "assert_PPS ((Some _, err), w) = (Panic, w)"

definition fake_Get where
  "fake_Get A c name (options :: opaque) w =
     assert_PPS (Invokes A (fpp_Fake c) (GetAction persistentpodstatesResource (fpp_ns c) name)
       (ObjPPS (Some zero_PPS)) w)"

text \<open>The items whose labels match, in order; appending to a nil slice leaves it nil until the first.\<close>

definition matching_items :: "selector \<Rightarrow> PersistentPodState list \<Rightarrow> PersistentPodState goslice" where
  "matching_items label objs =
     (case filter (\<lambda>item. label (om_Labels (pps_Meta item))) objs of [] \<Rightarrow> None | x # xs \<Rightarrow> Some (x # xs))"

definition fake_List where
  "fake_List A c opts w =
     (case Invokes A (fpp_Fake c)
        (ListAction persistentpodstatesResource persistentpodstatesKind (fpp_ns c) opts)
        (ObjList (Some zero_PPSList)) w of
        ((None, err), w1) \<Rightarrow> (Ok (None, err), w1)
      | ((Some obj, err), w1) \<Rightarrow>
          (let label = (case ExtractFromListOptions A opts of None \<Rightarrow> labels_Everything A | Some l \<Rightarrow> l) in
           case obj of
             ObjList (Some l) \<Rightarrow>
               (Ok (Some \<lparr>ListMeta = ListMeta l,
                  Items = matching_items label (case Items l of None \<Rightarrow> [] | Some objs \<Rightarrow> objs)\<rparr>, err), w1)
           | _ \<Rightarrow> (Panic, w1)))"

definition fake_Watch where
  "fake_Watch A c opts w =
     (case InvokesWatch A (fpp_Fake c) (WatchAction persistentpodstatesResource (fpp_ns c) opts) w of
        (r, w1) \<Rightarrow> (Ok r, w1))"

definition fake_Create where
  "fake_Create A c persistentPodState (opts :: opaque) w =
     assert_PPS (Invokes A (fpp_Fake c)
       (CreateAction persistentpodstatesResource (fpp_ns c) persistentPodState) (ObjPPS (Some zero_PPS)) w)"

definition fake_Update where
  "fake_Update A c persistentPodState (opts :: opaque) w =
     assert_PPS (Invokes A (fpp_Fake c)
       (UpdateAction persistentpodstatesResource [] (fpp_ns c) persistentPodState) (ObjPPS (Some zero_PPS)) w)"

definition fake_UpdateStatus where
  "fake_UpdateStatus A c persistentPodState (opts :: opaque) w =
     assert_PPS (Invokes A (fpp_Fake c)
       (UpdateAction persistentpodstatesResource ''status'' (fpp_ns c) persistentPodState) (ObjPPS (Some zero_PPS)) w)"

definition fake_Delete where
  "fake_Delete A c name opts w =
     (case Invokes A (fpp_Fake c) (DeleteAction persistentpodstatesResource (fpp_ns c) name opts)
        (ObjPPS (Some zero_PPS)) w of
        ((_, err), w1) \<Rightarrow> (Ok err, w1))"

definition fake_DeleteCollection where
  "fake_DeleteCollection A c (opts :: opaque) listOpts w =
     (case Invokes A (fpp_Fake c) (DeleteCollectionAction persistentpodstatesResource (fpp_ns c) listOpts)
        (ObjList (Some zero_PPSList)) w of
        ((_, err), w1) \<Rightarrow> (Ok err, w1))"

definition fake_Patch where
  "fake_Patch A c name pt data (opts :: opaque) subresources w =
     assert_PPS (Invokes A (fpp_Fake c)
       (PatchAction persistentpodstatesResource (fpp_ns c) name pt data subresources) (ObjPPS (Some zero_PPS)) w)"

definition fake_PersistentPodStates ::
  "('s, 'w, 'f, 'i) testing_api \<Rightarrow> 'f \<Rightarrow> string \<Rightarrow> ('w, 'i) pps_interface" where
  "fake_PersistentPodStates A f namespace =
     (let c = \<lparr>fpp_Fake = f, fpp_ns = namespace\<rparr> in
      \<lparr>pi_Create = fake_Create A c, pi_Update = fake_Update A c, pi_UpdateStatus = fake_UpdateStatus A c,
       pi_Delete = fake_Delete A c, pi_DeleteCollection = fake_DeleteCollection A c, pi_Get = fake_Get A c,
       pi_List = fake_List A c, pi_Watch = fake_Watch A c, pi_Patch = fake_Patch A c\<rparr>)"

section \<open>The fake clientset\<close>

record 'f fake_Clientset =
  fcs_Fake :: 'f

text \<open>The loop over the objects; the first error is a panic.\<close>

fun add_objects :: "('s, 'w, 'f, 'i) testing_api \<Rightarrow> runtime_object list \<Rightarrow> 'w \<Rightarrow> go_error \<times> 'w" where
  "add_objects A [] w = (None, w)"
| "add_objects A (obj # objects) w =
     (case tracker_Add A obj w of (Some err, w1) \<Rightarrow> (Some err, w1) | (None, w1) \<Rightarrow> add_objects A objects w1)"

definition watch_reactor :: "('s, 'w, 'f, 'i) testing_api \<Rightarrow> ('w, 'i) watch_reaction" where
  "watch_reactor A action w =
     (case tracker_Watch A (action_GetResource action) (action_GetNamespace action) w of
        ((watch, Some err), w1) \<Rightarrow> ((False, None, Some err), w1)
      | ((watch, None), w1) \<Rightarrow> ((True, watch, None), w1))"

definition NewSimpleClientset ::
  "('s, 'w, 'f, 'i) testing_api \<Rightarrow> 's \<Rightarrow> runtime_object list \<Rightarrow> (unit, 'f fake_Clientset) result \<times> 'w" where
  "NewSimpleClientset A scheme objects =
     (case add_objects A objects (NewObjectTracker A scheme) of
        (Some err, w) \<Rightarrow> (Panic, w)
      | (None, w) \<Rightarrow>
          (Ok \<lparr>fcs_Fake = AddWatchReactor A ''*'' (watch_reactor A)
             (AddReactor A ''*'' ''*'' (ObjectReaction A) (zero_Fake A))\<rparr>, w))"

text \<open>The client of the group and the discovery client both refer to the \<^verbatim>\<open>Fake\<close> of the clientset.\<close>

definition fake_AppsV1alpha1 :: "'f fake_Clientset \<Rightarrow> 'f" where
  "fake_AppsV1alpha1 c = fcs_Fake c"

definition fake_Discovery :: "'f fake_Clientset \<Rightarrow> 'f" where
  "fake_Discovery c = fcs_Fake c"

text \<open>
  A value of Go's interface type \<^verbatim>\<open>rest.Interface\<close> that holds a pointer to a \<^verbatim>\<open>RESTClient\<close>: the interface may
  be nil, or hold a pointer that is nil.
\<close>

datatype 'r rest_client_value = NilInterface | HoldsRESTClient "'r option"

definition fake_RESTClient :: "'f \<Rightarrow> 'r rest_client_value" where
  "fake_RESTClient c = (let ret = None in HoldsRESTClient ret)"

text \<open>So a test for nil does not see that the fake has no client.\<close>

lemma fake_RESTClient_not_nil: "fake_RESTClient c \<noteq> NilInterface"
  by (simp add: fake_RESTClient_def)

section \<open>What the tracker and the fake promise\<close>

text \<open>
  The behaviour of client-go's object tracker, in terms of the objects it stores by resource, namespace
  and name. An object is added under the resource of its kind; of a list, of whatever Go type, the
  items are added separately. An update
  replaces the stored object, also one of a subresource. A call on a resource is answered with objects
  that are stored for it, a list with a list of them; the collection delete has no reaction.
\<close>

type_synonym 'w stored_objects = "'w \<Rightarrow> gvr \<times> string \<times> string \<Rightarrow> runtime_object option"

fun parts :: "runtime_object \<Rightarrow> runtime_object set" where
  "parts (ObjList (Some l)) = (case Items l of None \<Rightarrow> {} | Some objs \<Rightarrow> (\<lambda>p. ObjPPS (Some p)) ` set objs)"
| "parts (ObjOtherList xs) = (\<Union>x \<in> set xs. parts x)"
| "parts x = {x}"

fun held_as :: "runtime_object \<Rightarrow> gvr \<Rightarrow> string \<Rightarrow> string \<Rightarrow> bool" where
  "held_as (ObjPPS (Some p)) g ns n \<longleftrightarrow> g = persistentpodstatesResource \<and> pps_key p = (ns, n)"
| "held_as (ObjOther g' x) g ns n \<longleftrightarrow> g = g'"
| "held_as _ g ns n \<longleftrightarrow> False"

definition well_typed :: "'w stored_objects \<Rightarrow> 'w \<Rightarrow> bool" where
  "well_typed stored w \<longleftrightarrow>
     (\<forall>ns n x. stored w (persistentpodstatesResource, ns, n) = Some x \<longrightarrow> (\<exists>p. x = ObjPPS (Some p) \<and> pps_key p = (ns, n)))"

fun carries_object :: "fake_action \<Rightarrow> bool" where
  "carries_object (CreateAction g ns p) \<longleftrightarrow> p \<noteq> None"
| "carries_object (UpdateAction g sub ns p) \<longleftrightarrow> p \<noteq> None"
| "carries_object _ \<longleftrightarrow> True"

fun answer_type :: "fake_action \<Rightarrow> runtime_object \<Rightarrow> bool" where
  "answer_type (ListAction g k ns opts) x \<longleftrightarrow> (\<exists>l. x = ObjList (Some l))"
| "answer_type _ x \<longleftrightarrow> (\<exists>p. x = ObjPPS (Some p))"

definition tracker_adds_ok :: "('s, 'w, 'f, 'i) testing_api \<Rightarrow> 'w stored_objects \<Rightarrow> bool" where
  "tracker_adds_ok A stored \<longleftrightarrow>
     (\<forall>s k. stored (NewObjectTracker A s) k = None) \<and>
     (\<forall>obj w w' g ns n x. tracker_Add A obj w = (None, w') \<longrightarrow> stored w' (g, ns, n) = Some x \<longrightarrow>
        stored w (g, ns, n) = Some x \<or> x \<in> parts obj \<and> held_as x g ns n)"

definition tracker_types_ok :: "('s, 'w, 'f, 'i) testing_api \<Rightarrow> 'w stored_objects \<Rightarrow> bool" where
  "tracker_types_ok A stored \<longleftrightarrow>
     (\<forall>a w h r e w'. well_typed stored w \<longrightarrow> action_GetResource a = persistentpodstatesResource \<longrightarrow> carries_object a \<longrightarrow>
        ObjectReaction A a w = ((h, r, e), w') \<longrightarrow>
          well_typed stored w' \<and> (h \<longrightarrow> (\<forall>x. r = Some x \<longrightarrow> answer_type a x))) \<and>
     (\<forall>g ns opts w h r e w'. ObjectReaction A (DeleteCollectionAction g ns opts) w = ((h, r, e), w') \<longrightarrow> \<not> h \<and> stored w' = stored w) \<and>
     (\<forall>g ns w. stored (snd (tracker_Watch A g ns w)) = stored w)"

definition tracker_gets_ok :: "('s, 'w, 'f, 'i) testing_api \<Rightarrow> 'w stored_objects \<Rightarrow> bool" where
  "tracker_gets_ok A stored \<longleftrightarrow>
     (\<forall>g ns n w. \<exists>w'. stored w' = stored w \<and> ObjectReaction A (GetAction g ns n) w =
        ((True, case stored w (g, ns, n) of None \<Rightarrow> (None, Some (NotFound n)) | Some x \<Rightarrow> (Some x, None)), w'))"

definition tracker_creates_ok :: "('s, 'w, 'f, 'i) testing_api \<Rightarrow> 'w stored_objects \<Rightarrow> bool" where
  "tracker_creates_ok A stored \<longleftrightarrow>
     (\<forall>ns n p w. pps_key p = (ns, n) \<longrightarrow> n \<noteq> [] \<longrightarrow>
        (\<exists>w'. if stored w (persistentpodstatesResource, ns, n) = None
          then ObjectReaction A (CreateAction persistentpodstatesResource ns (Some p)) w = ((True, Some (ObjPPS (Some p)), None), w') \<and>
            stored w' = (stored w)((persistentpodstatesResource, ns, n) \<mapsto> ObjPPS (Some p))
          else ObjectReaction A (CreateAction persistentpodstatesResource ns (Some p)) w = ((True, None, Some (AlreadyExists n)), w') \<and>
            stored w' = stored w))"

definition tracker_updates_ok :: "('s, 'w, 'f, 'i) testing_api \<Rightarrow> 'w stored_objects \<Rightarrow> bool" where
  "tracker_updates_ok A stored \<longleftrightarrow>
     (\<forall>sub ns n p w. pps_key p = (ns, n) \<longrightarrow> n \<noteq> [] \<longrightarrow> stored w (persistentpodstatesResource, ns, n) \<noteq> None \<longrightarrow>
        (\<exists>w'. ObjectReaction A (UpdateAction persistentpodstatesResource sub ns (Some p)) w = ((True, Some (ObjPPS (Some p)), None), w') \<and>
            stored w' = (stored w)((persistentpodstatesResource, ns, n) \<mapsto> ObjPPS (Some p))))"

definition tracker_deletes_ok :: "('s, 'w, 'f, 'i) testing_api \<Rightarrow> 'w stored_objects \<Rightarrow> bool" where
  "tracker_deletes_ok A stored \<longleftrightarrow>
     (\<forall>g ns n opts w. \<exists>w'. if stored w (g, ns, n) = None
        then ObjectReaction A (DeleteAction g ns n opts) w = ((True, None, Some (NotFound n)), w') \<and> stored w' = stored w
        else ObjectReaction A (DeleteAction g ns n opts) w = ((True, None, None), w') \<and> stored w' = (stored w)((g, ns, n) := None))"

text \<open>
  \<^verbatim>\<open>testing.Fake\<close> records the action and tries its reactors in order; \<^verbatim>\<open>*\<close> stands for every verb and resource.
  Without a reactor that handles the call it returns the default object and no error; a watch that
  nobody handles is an error.
\<close>

definition chain_ok :: "('s, 'w, 'f, 'i) testing_api \<Rightarrow> 'w stored_objects \<Rightarrow> bool" where
  "chain_ok A stored \<longleftrightarrow>
     (\<forall>f g a d w. \<exists>w1. stored w1 = stored w \<and>
        Invokes A (AddWatchReactor A ''*'' g (AddReactor A ''*'' ''*'' f (zero_Fake A))) a d w =
          (case f a w1 of ((h, r, e), w2) \<Rightarrow> if h then ((r, e), w2) else ((Some d, None), w2))) \<and>
     (\<forall>f g a w. \<exists>w1 unhandled. stored w1 = stored w \<and>
        InvokesWatch A (AddWatchReactor A ''*'' g (AddReactor A ''*'' ''*'' f (zero_Fake A))) a w =
          (case g a w1 of ((h, r, e), w2) \<Rightarrow> if h then ((r, e), w2) else ((None, Some unhandled), w2)))"

definition tracker_ok :: "('s, 'w, 'f, 'i) testing_api \<Rightarrow> 'w stored_objects \<Rightarrow> bool" where
  "tracker_ok A stored \<longleftrightarrow>
     tracker_adds_ok A stored \<and> tracker_types_ok A stored \<and> tracker_gets_ok A stored \<and>
     tracker_creates_ok A stored \<and> tracker_updates_ok A stored \<and> tracker_deletes_ok A stored \<and> chain_ok A stored"

definition simple_Fake :: "('s, 'w, 'f, 'i) testing_api \<Rightarrow> 'f" where
  "simple_Fake A = AddWatchReactor A ''*'' (watch_reactor A) (AddReactor A ''*'' ''*'' (ObjectReaction A) (zero_Fake A))"

definition fake_client :: "('s, 'w, 'f, 'i) testing_api \<Rightarrow> string \<Rightarrow> ('w, 'i) pps_interface" where
  "fake_client A ns = fake_PersistentPodStates A (simple_Fake A) ns"

lemma NewSimpleClientset_Ok:
  "NewSimpleClientset A s objs = (Ok cs, w) \<Longrightarrow>
     fake_AppsV1alpha1 cs = simple_Fake A \<and> add_objects A objs (NewObjectTracker A s) = (None, w)"
  by (auto simp: NewSimpleClientset_def fake_AppsV1alpha1_def simple_Fake_def split: call_splits)

lemmas fake_defs = fake_client_def fake_PersistentPodStates_def Let_def fake_Get_def fake_Create_def
  fake_Update_def fake_UpdateStatus_def fake_Delete_def fake_DeleteCollection_def fake_Patch_def fake_Watch_def

section \<open>The fake as a store\<close>

definition pps_stored :: "'w stored_objects \<Rightarrow> 'w \<Rightarrow> string \<times> string \<Rightarrow> PersistentPodState option" where
  "pps_stored stored w k =
     (case stored w (persistentpodstatesResource, k) of Some (ObjPPS p) \<Rightarrow> p | _ \<Rightarrow> None)"

locale fake_store =
  fixes A :: "('s, 'w, 'f, 'i) testing_api"
    and stored :: "'w stored_objects"
    and ns :: string
  assumes tracker: "tracker_ok A stored"
begin

lemma invokes:
  obtains w1 where "stored w1 = stored w"
    "Invokes A (simple_Fake A) a d w =
       (case ObjectReaction A a w1 of ((h, r, e), w2) \<Rightarrow> if h then ((r, e), w2) else ((Some d, None), w2))"
  using tracker unfolding tracker_ok_def chain_ok_def simple_Fake_def by blast

lemma well_typed_cong: "well_typed stored w \<Longrightarrow> stored w' = stored w \<Longrightarrow> well_typed stored w'"
  by (simp add: well_typed_def)

lemma pps_stored_cong: "stored w' = stored w \<Longrightarrow> pps_stored stored w' = pps_stored stored w"
  by (rule ext) (simp add: pps_stored_def)

lemma pps_stored_upd:
  "stored w' = (stored w)((persistentpodstatesResource, k) \<mapsto> ObjPPS (Some p)) \<Longrightarrow>
     pps_stored stored w' = (pps_stored stored w)(k \<mapsto> p)"
  "stored w' = (stored w)((persistentpodstatesResource, k) := None) \<Longrightarrow>
     pps_stored stored w' = (pps_stored stored w)(k := None)"
  by (rule ext, simp add: pps_stored_def)+

lemma well_typed_upd:
  "well_typed stored w \<Longrightarrow> pps_key p = (ns', n) \<Longrightarrow>
     stored w' = (stored w)((persistentpodstatesResource, ns', n) \<mapsto> ObjPPS (Some p)) \<Longrightarrow> well_typed stored w'"
  "well_typed stored w \<Longrightarrow> stored w' = (stored w)((persistentpodstatesResource, ns', n) := None) \<Longrightarrow> well_typed stored w'"
  by (auto simp: well_typed_def)

lemma stored_iff:
  assumes "well_typed stored w"
  shows "stored w (persistentpodstatesResource, ns', n) = map_option (\<lambda>p. ObjPPS (Some p)) (pps_stored stored w (ns', n))"
proof (cases "stored w (persistentpodstatesResource, ns', n)")
  case (Some x)
  with assms obtain p where "x = ObjPPS (Some p)" unfolding well_typed_def by blast
  with Some show ?thesis by (simp add: pps_stored_def)
qed (simp add: pps_stored_def)

lemma stored_key: "well_typed stored w \<Longrightarrow> pps_stored stored w (ns', n) = Some p \<Longrightarrow> pps_key p = (ns', n)"
  using stored_iff [of w ns' n] by (auto simp: well_typed_def)

text \<open>The reactions of the tracker, as seen through the fake.\<close>

lemma invokes_get:
  "\<exists>w'. stored w' = stored w \<and> Invokes A (simple_Fake A) (GetAction g ns' n) d w =
     ((case stored w (g, ns', n) of None \<Rightarrow> (None, Some (NotFound n)) | Some x \<Rightarrow> (Some x, None)), w')"
proof -
  obtain w1 where w1: "stored w1 = stored w" "Invokes A (simple_Fake A) (GetAction g ns' n) d w =
       (case ObjectReaction A (GetAction g ns' n) w1 of ((h, r, e), w2) \<Rightarrow> if h then ((r, e), w2) else ((Some d, None), w2))"
    by (rule invokes)
  have "tracker_gets_ok A stored" using tracker by (simp add: tracker_ok_def)
  from this [unfolded tracker_gets_ok_def, rule_format, of w1 g ns' n] w1 show ?thesis
    by (auto split: option.splits)
qed

lemma invokes_create:
  assumes "pps_key p = (ns', n)" and "n \<noteq> []"
  shows "\<exists>w'. if stored w (persistentpodstatesResource, ns', n) = None
     then Invokes A (simple_Fake A) (CreateAction persistentpodstatesResource ns' (Some p)) d w = ((Some (ObjPPS (Some p)), None), w') \<and>
       stored w' = (stored w)((persistentpodstatesResource, ns', n) \<mapsto> ObjPPS (Some p))
     else Invokes A (simple_Fake A) (CreateAction persistentpodstatesResource ns' (Some p)) d w = ((None, Some (AlreadyExists n)), w') \<and>
       stored w' = stored w"
proof -
  let ?a = "CreateAction persistentpodstatesResource ns' (Some p)"
  obtain w1 where w1: "stored w1 = stored w" "Invokes A (simple_Fake A) ?a d w =
       (case ObjectReaction A ?a w1 of ((h, r, e), w2) \<Rightarrow> if h then ((r, e), w2) else ((Some d, None), w2))"
    by (rule invokes)
  have "tracker_creates_ok A stored" using tracker by (simp add: tracker_ok_def)
  from this [unfolded tracker_creates_ok_def, rule_format, OF assms, of w1] w1 show ?thesis
    by (auto split: if_splits)
qed

lemma invokes_update:
  assumes "pps_key p = (ns', n)" and "n \<noteq> []" and "stored w (persistentpodstatesResource, ns', n) \<noteq> None"
  shows "\<exists>w'. Invokes A (simple_Fake A) (UpdateAction persistentpodstatesResource sub ns' (Some p)) d w = ((Some (ObjPPS (Some p)), None), w') \<and>
    stored w' = (stored w)((persistentpodstatesResource, ns', n) \<mapsto> ObjPPS (Some p))"
proof -
  let ?a = "UpdateAction persistentpodstatesResource sub ns' (Some p)"
  obtain w1 where w1: "stored w1 = stored w" "Invokes A (simple_Fake A) ?a d w =
       (case ObjectReaction A ?a w1 of ((h, r, e), w2) \<Rightarrow> if h then ((r, e), w2) else ((Some d, None), w2))"
    by (rule invokes)
  have "tracker_updates_ok A stored" using tracker by (simp add: tracker_ok_def)
  from this [unfolded tracker_updates_ok_def, rule_format, OF assms(1,2), of w1 sub] w1 assms(3) show ?thesis
    by auto
qed

lemma invokes_delete:
  "\<exists>w'. if stored w (g, ns', n) = None
     then Invokes A (simple_Fake A) (DeleteAction g ns' n opts) d w = ((None, Some (NotFound n)), w') \<and> stored w' = stored w
     else Invokes A (simple_Fake A) (DeleteAction g ns' n opts) d w = ((None, None), w') \<and> stored w' = (stored w)((g, ns', n) := None)"
proof -
  let ?a = "DeleteAction g ns' n opts"
  obtain w1 where w1: "stored w1 = stored w" "Invokes A (simple_Fake A) ?a d w =
       (case ObjectReaction A ?a w1 of ((h, r, e), w2) \<Rightarrow> if h then ((r, e), w2) else ((Some d, None), w2))"
    by (rule invokes)
  have "tracker_deletes_ok A stored" using tracker by (simp add: tracker_ok_def)
  from this [unfolded tracker_deletes_ok_def, rule_format, of w1 g ns' n opts] w1 show ?thesis
    by (auto split: if_splits)
qed

end

sublocale fake_store \<subseteq> fake: pps_store "fake_client A ns" "pps_stored stored" "well_typed stored" "\<lambda>n. n \<noteq> []" ns
proof unfold_locales
  fix w n p
  assume a: "well_typed stored w" "pps_stored stored w (ns, n) = Some p"
  then show "\<exists>w'. pi_Get (fake_client A ns) n [] w = (Ok (Some p, None), w') \<and> well_typed stored w' \<and> pps_stored stored w' = pps_stored stored w"
    using invokes_get [of w persistentpodstatesResource ns n "ObjPPS (Some zero_PPS)"]
    by (auto simp: fake_defs stored_iff intro: pps_stored_cong well_typed_cong)
next
  fix w n
  assume a: "well_typed stored w" "pps_stored stored w (ns, n) = None"
  then show "\<exists>x w'. pi_Get (fake_client A ns) n [] w = (Ok (x, Some (NotFound n)), w') \<and> well_typed stored w' \<and> pps_stored stored w' = pps_stored stored w"
    using invokes_get [of w persistentpodstatesResource ns n "ObjPPS (Some zero_PPS)"]
    by (auto simp: fake_defs stored_iff intro: pps_stored_cong well_typed_cong)
next
  fix w n s
  assume a: "well_typed stored w" "n \<noteq> []" "pps_stored stored w (ns, n) = None"
  then show "\<exists>p' w'. pi_Create (fake_client A ns) (Some (new_PPS ns n s)) [] w = (Ok (Some p', None), w') \<and> well_typed stored w' \<and>
      pps_stored stored w' = (pps_stored stored w)((ns, n) \<mapsto> p') \<and> pps_Spec p' = s \<and> pps_Status p' = zero_Status"
    using invokes_create [OF new_PPS_simps(1) [of ns n s] a(2), where w = w and d = "ObjPPS (Some zero_PPS)"]
    by (auto simp: fake_defs stored_iff pps_stored_upd(1) well_typed_upd(1) [OF a(1) new_PPS_simps(1) [of ns n s]])
next
  fix w n s
  assume a: "well_typed stored w" "n \<noteq> []" "pps_stored stored w (ns, n) \<noteq> None"
  then show "\<exists>x w'. pi_Create (fake_client A ns) (Some (new_PPS ns n s)) [] w = (Ok (x, Some (AlreadyExists n)), w') \<and>
      well_typed stored w' \<and> pps_stored stored w' = pps_stored stored w"
    using invokes_create [OF new_PPS_simps(1) [of ns n s] a(2), where w = w and d = "ObjPPS (Some zero_PPS)"]
    by (auto simp: fake_defs stored_iff intro: pps_stored_cong well_typed_cong)
next
  fix w n st p
  assume a: "well_typed stored w" "n \<noteq> []" "pps_stored stored w (ns, n) = Some p"
  let ?q = "p\<lparr>pps_Status := st\<rparr>"
  have k: "pps_key ?q = (ns, n)" using stored_key [OF a(1,3)] by (simp add: pps_key_def)
  have "stored w (persistentpodstatesResource, ns, n) \<noteq> None" using a by (simp add: stored_iff)
  from invokes_update [OF k a(2) this, of "''status''" "ObjPPS (Some zero_PPS)"] obtain w' where
    w': "Invokes A (simple_Fake A) (UpdateAction persistentpodstatesResource ''status'' ns (Some ?q)) (ObjPPS (Some zero_PPS)) w =
      ((Some (ObjPPS (Some ?q)), None), w')" "stored w' = (stored w)((persistentpodstatesResource, ns, n) \<mapsto> ObjPPS (Some ?q))" by blast
  then have "pi_UpdateStatus (fake_client A ns) (Some ?q) [] w = (Ok (Some ?q, None), w')" by (simp add: fake_defs)
  moreover note well_typed_upd(1) [OF a(1) k w'(2)] pps_stored_upd(1) [OF w'(2)]
  moreover have "pps_Spec ?q = pps_Spec p" "pps_Status ?q = st" by simp_all
  ultimately show "\<exists>p' w'. pi_UpdateStatus (fake_client A ns) (Some ?q) [] w = (Ok (Some p', None), w') \<and> well_typed stored w' \<and>
      pps_stored stored w' = (pps_stored stored w)((ns, n) \<mapsto> p') \<and> pps_Spec p' = pps_Spec p \<and> pps_Status p' = st"
    by blast
next
  fix w n
  assume a: "well_typed stored w" "pps_stored stored w (ns, n) \<noteq> None"
  then show "\<exists>w'. pi_Delete (fake_client A ns) n [] w = (Ok None, w') \<and> well_typed stored w' \<and>
      pps_stored stored w' = (pps_stored stored w)((ns, n) := None)"
    using invokes_delete [of w persistentpodstatesResource ns n "[]" "ObjPPS (Some zero_PPS)"]
    by (auto simp: fake_defs stored_iff intro: pps_stored_upd(2) well_typed_upd(2))
next
  fix w n
  assume a: "well_typed stored w" "pps_stored stored w (ns, n) = None"
  then show "\<exists>w'. pi_Delete (fake_client A ns) n [] w = (Ok (Some (NotFound n)), w') \<and> well_typed stored w' \<and>
      pps_stored stored w' = pps_stored stored w"
    using invokes_delete [of w persistentpodstatesResource ns n "[]" "ObjPPS (Some zero_PPS)"]
    by (auto simp: fake_defs stored_iff intro: pps_stored_cong well_typed_cong)
qed

section \<open>Type assertions\<close>

text \<open>Any sequence of calls, each in a namespace of its own; \<open>True\<close> is a panic, which ends it.\<close>

datatype api_call =
    MCreate "PersistentPodState option" opaque
  | MUpdate "PersistentPodState option" opaque
  | MUpdateStatus "PersistentPodState option" opaque
  | MDelete string opaque
  | MDeleteCollection opaque list_options
  | MGet string opaque
  | MList list_options
  | MWatch list_options
  | MPatch string string string opaque "string list"

definition panicked :: "('e, 'a) result \<times> 'w \<Rightarrow> bool \<times> 'w" where
  "panicked r = (case r of (Panic, w) \<Rightarrow> (True, w) | (_, w) \<Rightarrow> (False, w))"

fun call_method :: "('w, 'i) pps_interface \<Rightarrow> api_call \<Rightarrow> 'w \<Rightarrow> bool \<times> 'w" where
  "call_method api (MCreate p opts) w = panicked (pi_Create api p opts w)"
| "call_method api (MUpdate p opts) w = panicked (pi_Update api p opts w)"
| "call_method api (MUpdateStatus p opts) w = panicked (pi_UpdateStatus api p opts w)"
| "call_method api (MDelete n opts) w = panicked (pi_Delete api n opts w)"
| "call_method api (MDeleteCollection opts lo) w = panicked (pi_DeleteCollection api opts lo w)"
| "call_method api (MGet n opts) w = panicked (pi_Get api n opts w)"
| "call_method api (MList lo) w = panicked (pi_List api lo w)"
| "call_method api (MWatch lo) w = panicked (pi_Watch api lo w)"
| "call_method api (MPatch n pt data opts sub) w = panicked (pi_Patch api n pt data opts sub w)"

fun call_methods :: "(string \<Rightarrow> ('w, 'i) pps_interface) \<Rightarrow> (string \<times> api_call) list \<Rightarrow> 'w \<Rightarrow> bool \<times> 'w" where
  "call_methods api [] w = (False, w)"
| "call_methods api ((ns, m) # ms) w =
     (case call_method (api ns) m w of (True, w1) \<Rightarrow> (True, w1) | (False, w1) \<Rightarrow> call_methods api ms w1)"

fun gives_object :: "api_call \<Rightarrow> bool" where
  "gives_object (MCreate p opts) \<longleftrightarrow> p \<noteq> None"
| "gives_object (MUpdate p opts) \<longleftrightarrow> p \<noteq> None"
| "gives_object (MUpdateStatus p opts) \<longleftrightarrow> p \<noteq> None"
| "gives_object _ \<longleftrightarrow> True"

text \<open>Objects of another Go type but of the kind PersistentPodState, and lists that hold one.\<close>

fun foreign :: "runtime_object \<Rightarrow> bool" where
  "foreign (ObjOther g y) \<longleftrightarrow> g = persistentpodstatesResource"
| "foreign (ObjOtherList xs) \<longleftrightarrow> (\<exists>x \<in> set xs. foreign x)"
| "foreign _ \<longleftrightarrow> False"

lemma foreign_parts: "\<not> foreign x \<Longrightarrow> y \<in> parts x \<Longrightarrow> \<not> foreign y"
  by (induction x rule: parts.induct) (auto split: option.splits)

lemma assert_PPS_typed:
  "(\<And>x. r = Some x \<Longrightarrow> \<exists>p. x = ObjPPS (Some p)) \<Longrightarrow> panicked (assert_PPS ((r, e), w)) = (False, w)"
  by (cases "((r, e), w)" rule: assert_PPS.cases) (auto simp: panicked_def)

lemma assert_PPS_panics:
  "fst (panicked (assert_PPS ((r, e), w))) \<longleftrightarrow> (\<exists>x. r = Some x \<and> (\<forall>p. x \<noteq> ObjPPS p))"
  by (cases "((r, e), w)" rule: assert_PPS.cases) (auto simp: panicked_def)

context fake_store
begin

lemma invokes_typed:
  assumes "well_typed stored w" and "action_GetResource a = persistentpodstatesResource" and "carries_object a"
    and "Invokes A (simple_Fake A) a d w = ((r, e), w')"
  shows "well_typed stored w'" and "answer_type a d \<Longrightarrow> r = Some x \<Longrightarrow> answer_type a x"
proof -
  obtain w1 where w1: "stored w1 = stored w" "Invokes A (simple_Fake A) a d w =
      (case ObjectReaction A a w1 of ((h, r, e), w2) \<Rightarrow> if h then ((r, e), w2) else ((Some d, None), w2))"
    by (rule invokes)
  obtain h r1 e1 w2 where o: "ObjectReaction A a w1 = ((h, r1, e1), w2)" by (metis prod_cases3 surj_pair)
  have "tracker_types_ok A stored" using tracker by (simp add: tracker_ok_def)
  then have "well_typed stored w2 \<and> (h \<longrightarrow> (\<forall>x. r1 = Some x \<longrightarrow> answer_type a x))"
    using well_typed_cong [OF assms(1) w1(1)] assms(2,3) o unfolding tracker_types_ok_def by blast
  with w1 o assms(4) show "well_typed stored w'" "answer_type a d \<Longrightarrow> r = Some x \<Longrightarrow> answer_type a x"
    by (auto split: if_splits)
qed

lemma invokes_asserted:
  assumes "well_typed stored w" and "action_GetResource a = persistentpodstatesResource" and "carries_object a"
    and "\<And>x. answer_type a x \<longleftrightarrow> (\<exists>p. x = ObjPPS (Some p))"
  shows "\<exists>w'. panicked (assert_PPS (Invokes A (simple_Fake A) a (ObjPPS (Some zero_PPS)) w)) = (False, w') \<and> well_typed stored w'"
proof -
  obtain r e w' where i: "Invokes A (simple_Fake A) a (ObjPPS (Some zero_PPS)) w = ((r, e), w')" by (metis surj_pair)
  have "panicked (assert_PPS ((r, e), w')) = (False, w')"
    by (rule assert_PPS_typed) (use invokes_typed(2) [OF assms(1,2,3) i] assms(4) in auto)
  with i invokes_typed(1) [OF assms(1,2,3) i] show ?thesis by simp
qed

lemma list_safe:
  assumes "well_typed stored w"
  shows "\<exists>w'. panicked (pi_List (fake_client A ns) opts w) = (False, w') \<and> well_typed stored w'"
proof -
  let ?a = "ListAction persistentpodstatesResource persistentpodstatesKind ns opts"
  obtain r e w' where i: "Invokes A (simple_Fake A) ?a (ObjList (Some zero_PPSList)) w = ((r, e), w')" by (metis surj_pair)
  have t: "well_typed stored w'" "\<And>x. r = Some x \<Longrightarrow> answer_type ?a x"
    using invokes_typed [OF assms _ _ i] by simp_all
  show ?thesis
  proof (cases r)
    case None
    with i t(1) show ?thesis by (simp add: fake_client_def fake_PersistentPodStates_def Let_def fake_List_def panicked_def)
  next
    case (Some x)
    with t(2) obtain l where "x = ObjList (Some l)" by auto
    with Some i t(1) show ?thesis
      by (simp add: fake_client_def fake_PersistentPodStates_def Let_def fake_List_def panicked_def)
  qed
qed

lemma watch_safe:
  assumes "well_typed stored w"
  shows "\<exists>w'. panicked (pi_Watch (fake_client A ns) opts w) = (False, w') \<and> well_typed stored w'"
proof -
  let ?a = "WatchAction persistentpodstatesResource ns opts"
  have "chain_ok A stored" using tracker by (simp add: tracker_ok_def)
  then obtain w1 u where w1: "stored w1 = stored w" "InvokesWatch A (simple_Fake A) ?a w =
      (case watch_reactor A ?a w1 of ((h, r, e), w2) \<Rightarrow> if h then ((r, e), w2) else ((None, Some u), w2))"
    unfolding chain_ok_def simple_Fake_def by blast
  obtain x e w2 where t: "tracker_Watch A persistentpodstatesResource ns w1 = ((x, e), w2)" by (metis surj_pair)
  have "tracker_types_ok A stored" using tracker by (simp add: tracker_ok_def)
  then have "stored (snd (tracker_Watch A persistentpodstatesResource ns w1)) = stored w1"
    unfolding tracker_types_ok_def by blast
  with t w1 have "well_typed stored w2" using well_typed_cong [OF assms, of w2] by simp
  with t w1 show ?thesis
    by (cases e) (simp_all add: fake_defs watch_reactor_def panicked_def)
qed

lemma method_safe:
  assumes "well_typed stored w" and "gives_object m"
  shows "\<exists>w'. call_method (fake_client A ns) m w = (False, w') \<and> well_typed stored w'"
proof (cases m)
  case (MDelete n opts)
  let ?i = "Invokes A (simple_Fake A) (DeleteAction persistentpodstatesResource ns n opts) (ObjPPS (Some zero_PPS)) w"
  obtain r e w' where i: "?i = ((r, e), w')" by (metis surj_pair)
  from invokes_typed(1) [OF assms(1) _ _ i] MDelete i show ?thesis by (simp add: fake_defs panicked_def)
next
  case (MDeleteCollection opts lo)
  let ?i = "Invokes A (simple_Fake A) (DeleteCollectionAction persistentpodstatesResource ns lo) (ObjList (Some zero_PPSList)) w"
  obtain r e w' where i: "?i = ((r, e), w')" by (metis surj_pair)
  from invokes_typed(1) [OF assms(1) _ _ i] MDeleteCollection i show ?thesis by (simp add: fake_defs panicked_def)
qed (use assms list_safe watch_safe in \<open>auto simp: fake_defs intro!: invokes_asserted\<close>)

lemma get_panics_iff:
  "fst (panicked (pi_Get (fake_client A ns) n opts w)) \<longleftrightarrow>
     (\<exists>x. stored w (persistentpodstatesResource, ns, n) = Some x \<and> (\<forall>p. x \<noteq> ObjPPS p))"
proof -
  obtain w' where "Invokes A (simple_Fake A) (GetAction persistentpodstatesResource ns n) (ObjPPS (Some zero_PPS)) w =
     ((case stored w (persistentpodstatesResource, ns, n) of None \<Rightarrow> (None, Some (NotFound n)) | Some x \<Rightarrow> (Some x, None)), w')"
    using invokes_get by blast
  then show ?thesis
    by (cases "stored w (persistentpodstatesResource, ns, n)") (simp_all add: fake_defs assert_PPS_panics del: assert_PPS.simps)
qed

text \<open>
  The collection delete has no reaction in the tracker: the fake reports success and deletes nothing.
\<close>

lemma delete_collection_keeps:
  "\<exists>w'. pi_DeleteCollection (fake_client A ns) opts lo w = (Ok None, w') \<and> stored w' = stored w"
proof -
  let ?a = "DeleteCollectionAction persistentpodstatesResource ns lo"
  obtain w1 where w1: "stored w1 = stored w" "Invokes A (simple_Fake A) ?a (ObjList (Some zero_PPSList)) w =
      (case ObjectReaction A ?a w1 of ((h, r, e), w2) \<Rightarrow> if h then ((r, e), w2) else ((Some (ObjList (Some zero_PPSList)), None), w2))"
    by (rule invokes)
  obtain h r e w2 where o: "ObjectReaction A ?a w1 = ((h, r, e), w2)" by (metis prod_cases3 surj_pair)
  have "tracker_types_ok A stored" using tracker by (simp add: tracker_ok_def)
  with o have "\<not> h \<and> stored w2 = stored w1" unfolding tracker_types_ok_def by blast
  with o w1 show ?thesis by (simp add: fake_defs)
qed

end

lemma add_objects_typed:
  assumes "tracker_ok A stored" and "list_all (\<lambda>x. \<not> foreign x) objs"
    and "add_objects A objs w = (None, w')" and "well_typed stored w"
  shows "well_typed stored w'"
  using assms(2-)
proof (induction objs arbitrary: w)
  case (Cons x objs)
  then obtain w1 where w1: "tracker_Add A x w = (None, w1)" "add_objects A objs w1 = (None, w')"
    by (auto split: call_splits)
  have "tracker_adds_ok A stored" using assms(1) by (simp add: tracker_ok_def)
  then have add: "stored w (g, ns, n) = Some y \<or> y \<in> parts x \<and> held_as y g ns n"
    if "stored w1 (g, ns, n) = Some y" for g ns n y
    using w1(1) that unfolding tracker_adds_ok_def by blast
  have "\<exists>p. y = ObjPPS (Some p) \<and> pps_key p = (ns, n)"
    if y: "y \<in> parts x" "held_as y persistentpodstatesResource ns n" for y ns n
  proof (cases "(y, persistentpodstatesResource, ns, n)" rule: held_as.cases)
    case (2 g' z g ns n)
    with y foreign_parts [OF _ y(1)] Cons.prems(1) show ?thesis by auto
  qed (use y in auto)
  with add Cons.prems(3) have "well_typed stored w1" unfolding well_typed_def by blast
  with Cons.IH w1(2) Cons.prems(1) show ?case by simp
qed simp

lemma call_methods_safe:
  assumes "tracker_ok A stored" and "well_typed stored w" and "list_all (\<lambda>(ns, m). gives_object m) ms"
  shows "\<not> fst (call_methods (fake_client A) ms w)"
  using assms(2-)
proof (induction ms arbitrary: w)
  case (Cons x ms)
  obtain ns m where x: "x = (ns, m)" by fastforce
  have st: "fake_store A stored" using assms(1) by unfold_locales
  from fake_store.method_safe [OF st Cons.prems(1), of m ns] Cons.prems(2) x
  obtain w' where "call_method (fake_client A ns) m w = (False, w')" "well_typed stored w'" by auto
  with Cons.IH [of w'] Cons.prems(2) x show ?case by simp
qed simp

text \<open>
  C22. The type assertions of the fake are safe. On a clientset made by \<^verbatim>\<open>NewSimpleClientset\<close> from objects of
  which none is, or as a list of any Go type holds, an object of another Go type but of the kind
  PersistentPodState, no sequence of calls of its
  methods panics, in any namespaces and with any arguments but nil objects. The condition is needed: a
  \<^verbatim>\<open>Get\<close> panics exactly when the tracker holds an object of another type under the name.
\<close>

theorem fake_never_panics:
  assumes "tracker_ok A stored" and "NewSimpleClientset A scheme objs = (Ok cs, w)"
    and "list_all (\<lambda>x. \<not> foreign x) objs" and "list_all (\<lambda>(ns, m). gives_object m) ms"
  shows "\<not> fst (call_methods (fake_PersistentPodStates A (fake_AppsV1alpha1 cs)) ms w) \<and>
     (fst (panicked (pi_Get (fake_PersistentPodStates A (fake_AppsV1alpha1 cs) ns) n opts w2)) \<longleftrightarrow>
       (\<exists>x. stored w2 (persistentpodstatesResource, ns, n) = Some x \<and> (\<forall>p. x \<noteq> ObjPPS p)))"
proof -
  from NewSimpleClientset_Ok [OF assms(2)] have cs: "fake_AppsV1alpha1 cs = simple_Fake A"
    and w: "add_objects A objs (NewObjectTracker A scheme) = (None, w)" by simp_all
  then have c: "fake_PersistentPodStates A (fake_AppsV1alpha1 cs) = fake_client A"
    by (simp add: fake_client_def fun_eq_iff)
  have "tracker_adds_ok A stored" using assms(1) by (simp add: tracker_ok_def)
  then have "stored (NewObjectTracker A scheme) k = None" for k unfolding tracker_adds_ok_def by blast
  then have "well_typed stored (NewObjectTracker A scheme)" by (simp add: well_typed_def)
  from add_objects_typed [OF assms(1,3) w this] have "well_typed stored w" .
  note call_methods_safe [OF assms(1) this assms(4)]
  moreover have "fake_store A stored" using assms(1) by unfold_locales
  note fake_store.get_panics_iff [OF this, of ns n opts w2]
  ultimately show ?thesis unfolding c by simp
qed

section \<open>The fake stands in for the server\<close>

context fake_store
begin

lemmas is_fake_store = fake.pps_store_axioms

end

context rest_store
begin

lemmas is_typed_store = typed.pps_store_axioms

end

text \<open>
  C13. A test that uses the fake sees what it would see of a real server, where the two are comparable:
  the fake does no validation (so its documentation says), and knows no defaults, finalizers or options.
  Let the fake's tracker and the server hold the same specifications and statuses in a namespace, the
  server's objects with plain specifications and without finalizers. Then any sequence of gets, creates of plain specifications, plain status
  updates of an object just read and deletes, with default options and names that both accept, makes the
  same observations through the fake and through the typed client, and leaves the same specifications
  and statuses behind; both are those of a map from names to specification and status.
\<close>

theorem fake_agrees_with_typed:
  assumes "rest_ok R v valid finalized ns" and "tracker_ok A stored" and "well_typed stored t"
    and "plain_objects v finalized ns w"
    and "abs_pps ns (pps_stored stored t) = abs_pps ns (v w)"
    and "list_all (\<lambda>c. valid (command_name c) \<and> command_name c \<noteq> [] \<and> command_plain c) cs"
    and "run_script (typed_client R ns) ns cs w = (xs, w')" and "run_script (fake_client A ns) ns cs t = (ys, t')"
  shows "ys = xs \<and> abs_pps ns (pps_stored stored t') = abs_pps ns (v w') \<and>
    (xs, abs_pps ns (v w')) = spec_script cs (abs_pps ns (v w))"
proof -
  have r: "rest_store R v valid finalized ns" and f: "fake_store A stored" using assms(1,2) by unfold_locales
  have n: "list_all (\<lambda>c. valid (command_name c) \<and> command_plain c) cs"
    "list_all (\<lambda>c. command_name c \<noteq> [] \<and> command_plain c) cs"
    using assms(6) by (simp_all add: list_all_iff)
  from pps_store.script_refines [OF rest_store.is_typed_store [OF r] assms(4) n(1)]
  have "follows (plain_objects v finalized ns) v ns (xs, w') (spec_script cs (abs_pps ns (v w)))" by (simp add: assms(7))
  moreover from pps_store.script_refines [OF fake_store.is_fake_store [OF f] assms(3) n(2), where ns = ns]
  have "follows (well_typed stored) (pps_stored stored) ns (ys, t') (spec_script cs (abs_pps ns (v w)))"
    by (simp add: assms(5,8))
  ultimately show ?thesis by (auto simp: follows_def)
qed

end
