(* ===== verification/Listers.thy ===== *)
theory Listers
  imports Fake_Client
begin

text \<open>
  \<^verbatim>\<open>pkg/client/listers/apps/v1alpha1/persistentpodstate.go\<close>: reads from an informer's cache. The cache
  (client-go's \<^verbatim>\<open>Indexer\<close>, \<open>'x\<close>) and the functions of package \<^verbatim>\<open>cache\<close> that walk over it are the record
  \<open>cache_api\<close>. \<^verbatim>\<open>cache.ListAll\<close> calls a function for each object that matches: here it is the list of
  these objects, with the error that it returns.
\<close>

record 'x cache_api =
  GetByKey :: "'x \<Rightarrow> string \<Rightarrow> (runtime_object option \<times> bool) \<times> go_error"
  ListAll :: "'x \<Rightarrow> selector \<Rightarrow> runtime_object list \<times> go_error"
  ListAllByNamespace :: "'x \<Rightarrow> string \<Rightarrow> selector \<Rightarrow> runtime_object list \<times> go_error"

section \<open>The listers\<close>

record 'x persistentPodStateLister =
  pl_indexer :: 'x

record 'x persistentPodStateNamespaceLister =
  nl_indexer :: 'x
  nl_namespace :: string

definition NewPersistentPodStateLister :: "'x \<Rightarrow> 'x persistentPodStateLister" where
  "NewPersistentPodStateLister indexer = \<lparr>pl_indexer = indexer\<rparr>"

text \<open>
  \<^verbatim>\<open>func(m interface{}) { ret = append(ret, m.(*v1alpha1.PersistentPodState)) }\<close> on each object; the result is a
  slice of pointers.
\<close>

fun append_asserted :: "runtime_object list \<Rightarrow> PersistentPodState option goslice \<Rightarrow>
  (unit, PersistentPodState option goslice) result" where
  "append_asserted [] ret = Ok ret"
| "append_asserted (ObjPPS p # ms) ret =
     append_asserted ms (Some ((case ret of None \<Rightarrow> [] | Some xs \<Rightarrow> xs) @ [p]))"
| "append_asserted (_ # ms) ret = Panic"

type_synonym list_reply = "(unit, PersistentPodState option goslice \<times> go_error) result"

definition listed :: "runtime_object list \<times> go_error \<Rightarrow> list_reply" where
  "listed r = (case r of (ms, err) \<Rightarrow>
     (case append_asserted ms None of Ok ret \<Rightarrow> Ok (ret, err) | Fail e \<Rightarrow> Fail e | Panic \<Rightarrow> Panic | Exit \<Rightarrow> Exit))"

definition lister_List :: "'x cache_api \<Rightarrow> 'x persistentPodStateLister \<Rightarrow> selector \<Rightarrow> list_reply" where
  "lister_List A s selector = listed (ListAll A (pl_indexer s) selector)"

definition lister_PersistentPodStates ::
  "'x persistentPodStateLister \<Rightarrow> string \<Rightarrow> 'x persistentPodStateNamespaceLister" where
  "lister_PersistentPodStates s namespace = \<lparr>nl_indexer = pl_indexer s, nl_namespace = namespace\<rparr>"

definition ns_lister_List :: "'x cache_api \<Rightarrow> 'x persistentPodStateNamespaceLister \<Rightarrow> selector \<Rightarrow> list_reply" where
  "ns_lister_List A s selector = listed (ListAllByNamespace A (nl_indexer s) (nl_namespace s) selector)"

text \<open>
  \<^verbatim>\<open>errors.NewNotFound(v1alpha1.Resource("persistentpodstate"), name)\<close> is \<^term>\<open>NotFound name\<close>. The assertion on the
  object panics for another type and for a nil interface.
\<close>

definition ns_lister_Get ::
  "'x cache_api \<Rightarrow> 'x persistentPodStateNamespaceLister \<Rightarrow> string \<Rightarrow> PersistentPodState reply" where
  "ns_lister_Get A s name =
     (case GetByKey A (nl_indexer s) (nl_namespace s @ ''/'' @ name) of
        ((obj, exists), Some err) \<Rightarrow> Ok (None, Some err)
      | ((obj, exists), None) \<Rightarrow>
          if \<not> exists then Ok (None, Some (NotFound name))
          else (case obj of Some (ObjPPS p) \<Rightarrow> Ok (p, None) | _ \<Rightarrow> Panic))"

section \<open>A cache of PersistentPodStates\<close>

text \<open>
  The laws of client-go's cache for an informer of this resource. It is a set \<open>objs\<close> of objects under the keys
  of \<^verbatim>\<open>MetaNamespaceKeyFunc\<close>, one object per key. Listing by namespace is listing all for the empty
  namespace, \<^verbatim>\<open>NamespaceAll\<close>; the order is not specified.
\<close>

definition meta_key :: "PersistentPodState \<Rightarrow> string" where
  "meta_key p =
     (if om_Namespace (pps_Meta p) = [] then om_Name (pps_Meta p)
      else om_Namespace (pps_Meta p) @ ''/'' @ om_Name (pps_Meta p))"

definition cache_ok :: "'x cache_api \<Rightarrow> ('x \<Rightarrow> PersistentPodState set) \<Rightarrow> bool" where
  "cache_ok A objs \<longleftrightarrow>
     (\<forall>x. inj_on meta_key (objs x)) \<and>
     (\<forall>x p. p \<in> objs x \<longrightarrow> GetByKey A x (meta_key p) = ((Some (ObjPPS (Some p)), True), None)) \<and>
     (\<forall>x k. k \<notin> meta_key ` objs x \<longrightarrow> GetByKey A x k = ((None, False), None)) \<and>
     (\<forall>x sel. \<exists>ps. ListAll A x sel = (map (\<lambda>p. ObjPPS (Some p)) ps, None) \<and> distinct ps \<and>
        set ps = {p \<in> objs x. sel (om_Labels (pps_Meta p))}) \<and>
     (\<forall>x ns sel. \<exists>ps. ListAllByNamespace A x ns sel = (map (\<lambda>p. ObjPPS (Some p)) ps, None) \<and> distinct ps \<and>
        set ps = {p \<in> objs x. sel (om_Labels (pps_Meta p)) \<and> (ns = [] \<or> om_Namespace (pps_Meta p) = ns)})"

text \<open>Every object has a namespace, and neither part of its key has a slash in it.\<close>

definition namespaced :: "PersistentPodState \<Rightarrow> bool" where
  "namespaced p \<longleftrightarrow> om_Namespace (pps_Meta p) \<noteq> [] \<and>
     CHR ''/'' \<notin> set (om_Namespace (pps_Meta p)) \<and> CHR ''/'' \<notin> set (om_Name (pps_Meta p))"

lemma append_asserted_PPS:
  "append_asserted (map (\<lambda>p. ObjPPS (Some p)) ps) ret =
     Ok (if ps = [] then ret else Some ((case ret of None \<Rightarrow> [] | Some xs \<Rightarrow> xs) @ map Some ps))"
  by (induction ps arbitrary: ret) (auto split: option.splits)

lemma listed_PPS:
  "listed (map (\<lambda>p. ObjPPS (Some p)) ps, err) = Ok (if ps = [] then None else Some (map Some ps), err)"
  by (simp add: listed_def append_asserted_PPS)

lemma meta_key_eq:
  assumes "namespaced p" and "meta_key p = ns @ ''/'' @ n"
  shows "pps_key p = (ns, n)"
proof -
  have "meta_key p = om_Namespace (pps_Meta p) @ CHR ''/'' # om_Name (pps_Meta p)"
    using assms(1) by (simp add: meta_key_def namespaced_def)
  also have "meta_key p = ns @ CHR ''/'' # n" using assms(2) by simp
  finally show ?thesis
    using assms(1) append_Cons_eq_iff [of "CHR ''/''" "om_Namespace (pps_Meta p)" "om_Name (pps_Meta p)" ns n]
    by (simp add: pps_key_def namespaced_def)
qed

lemma ns_lister_Get_found:
  assumes "cache_ok A objs" and "p \<in> objs x" and "namespaced p"
  shows "ns_lister_Get A \<lparr>nl_indexer = x, nl_namespace = om_Namespace (pps_Meta p)\<rparr> (om_Name (pps_Meta p)) = Ok (Some p, None)"
proof -
  from assms(1,2) have "GetByKey A x (meta_key p) = ((Some (ObjPPS (Some p)), True), None)"
    by (simp add: cache_ok_def)
  with assms(3) show ?thesis by (simp add: ns_lister_Get_def meta_key_def namespaced_def)
qed

lemma ns_lister_Get_missing:
  assumes "cache_ok A objs" and "\<And>p. p \<in> objs x \<Longrightarrow> namespaced p"
    and "\<And>p. p \<in> objs x \<Longrightarrow> pps_key p \<noteq> (ns, n)"
  shows "ns_lister_Get A \<lparr>nl_indexer = x, nl_namespace = ns\<rparr> n = Ok (None, Some (NotFound n))"
proof -
  have "ns @ ''/'' @ n \<notin> meta_key ` objs x"
    using assms(2,3) meta_key_eq by (metis (no_types, lifting) imageE)
  with assms(1) have "GetByKey A x (ns @ ''/'' @ n) = ((None, False), None)" by (simp add: cache_ok_def)
  then show ?thesis by (simp add: ns_lister_Get_def)
qed


text \<open>
  C26. What a lister reads. Let the cache hold PersistentPodStates that all have a namespace. In a namespace
  \<open>ns\<close> a list with a selector returns each cached object of the namespace whose labels match, once, and
  \<^verbatim>\<open>Get\<close> returns the object of the cache that has the namespace and the name, or the error that there is
  none; neither panics. The empty namespace, \<^verbatim>\<open>NamespaceAll\<close>, is different for the two: the list
  returns the objects of all namespaces, as the lister without a namespace does, and \<^verbatim>\<open>Get\<close> finds nothing.
\<close>

theorem lister_reads_cache:
  assumes "cache_ok A objs" and "\<And>p. p \<in> objs x \<Longrightarrow> namespaced p"
  shows "\<exists>ps qs.
     ns_lister_List A (lister_PersistentPodStates (NewPersistentPodStateLister x) ns) sel =
       Ok (if ps = [] then None else Some (map Some ps), None) \<and>
     distinct ps \<and> set ps = {p \<in> objs x. sel (om_Labels (pps_Meta p)) \<and> (ns = [] \<or> om_Namespace (pps_Meta p) = ns)} \<and>
     lister_List A (NewPersistentPodStateLister x) sel = Ok (if qs = [] then None else Some (map Some qs), None) \<and>
     distinct qs \<and> set qs = {p \<in> objs x. sel (om_Labels (pps_Meta p))} \<and>
     (\<forall>p \<in> objs x. ns_lister_Get A (lister_PersistentPodStates (NewPersistentPodStateLister x) (om_Namespace (pps_Meta p)))
        (om_Name (pps_Meta p)) = Ok (Some p, None)) \<and>
     (\<forall>n. (ns, n) \<notin> pps_key ` objs x \<longrightarrow>
        ns_lister_Get A (lister_PersistentPodStates (NewPersistentPodStateLister x) ns) n = Ok (None, Some (NotFound n))) \<and>
     (\<forall>n. ns_lister_Get A (lister_PersistentPodStates (NewPersistentPodStateLister x) []) n = Ok (None, Some (NotFound n)))"
proof -
  let ?l = "\<lambda>ns. \<lparr>nl_indexer = x, nl_namespace = ns\<rparr>"
  have l: "lister_PersistentPodStates (NewPersistentPodStateLister x) ns' = ?l ns'" for ns'
    by (simp add: lister_PersistentPodStates_def NewPersistentPodStateLister_def)
  have lists: "\<exists>ps. ListAll A x sel = (map (\<lambda>p. ObjPPS (Some p)) ps, None) \<and> distinct ps \<and>
        set ps = {p \<in> objs x. sel (om_Labels (pps_Meta p))}"
     "\<exists>ps. ListAllByNamespace A x ns sel = (map (\<lambda>p. ObjPPS (Some p)) ps, None) \<and> distinct ps \<and>
        set ps = {p \<in> objs x. sel (om_Labels (pps_Meta p)) \<and> (ns = [] \<or> om_Namespace (pps_Meta p) = ns)}"
    using assms(1) by (simp_all add: cache_ok_def)
  from lists(1) obtain qs where qs: "ListAll A x sel = (map (\<lambda>p. ObjPPS (Some p)) qs, None)" "distinct qs"
    "set qs = {p \<in> objs x. sel (om_Labels (pps_Meta p))}" by blast
  from lists(2) obtain ps where ps: "ListAllByNamespace A x ns sel = (map (\<lambda>p. ObjPPS (Some p)) ps, None)" "distinct ps"
    "set ps = {p \<in> objs x. sel (om_Labels (pps_Meta p)) \<and> (ns = [] \<or> om_Namespace (pps_Meta p) = ns)}" by blast
  have all: "pps_key p \<noteq> ([], n)" if "p \<in> objs x" for p n
    using assms(2) [OF that] by (simp add: pps_key_def namespaced_def)
  have "ns_lister_Get A (?l []) n = Ok (None, Some (NotFound n))" for n
    by (rule ns_lister_Get_missing [OF assms(1)]) (rule assms(2) all, assumption)+
  moreover have "ns_lister_Get A (?l ns) n = Ok (None, Some (NotFound n))" if "(ns, n) \<notin> pps_key ` objs x" for n
    by (rule ns_lister_Get_missing [OF assms(1)]) (use assms(2) that in \<open>force\<close>)+
  moreover have "ns_lister_Get A (?l (om_Namespace (pps_Meta p))) (om_Name (pps_Meta p)) = Ok (Some p, None)"
    if "p \<in> objs x" for p
    using ns_lister_Get_found [OF assms(1) that assms(2) [OF that]] .
  ultimately show ?thesis
    unfolding l using ps qs
    by (intro exI [of _ ps] exI [of _ qs])
      (simp add: ns_lister_List_def lister_List_def listed_PPS NewPersistentPodStateLister_def)
qed

end
