(* ===== verification/Informer_Factory.thy ===== *)
theory Informer_Factory
  imports Listers
begin

text \<open>
  \<^verbatim>\<open>pkg/client/informers/externalversions\<close>: the factory that shares one informer per type, and the informers it
  makes. The factory's methods hold its lock, so each is one step of the system below; what runs
  beside them are the goroutines in which \<^verbatim>\<open>Start\<close> runs the informers, and the callers of \<^verbatim>\<open>Shutdown\<close> that
  wait for these. client-go's informer is the record of what it was made with, in a list of all that
  were made; its address is the position in the list. A Go type is its name. The map of the informers is
  the list of its entries in the order in which \<^verbatim>\<open>Start\<close> goes through them.
\<close>

section \<open>Informers\<close>

type_synonym duration = "64 word"

type_synonym ('w, 'i) versioned_client = "string \<Rightarrow> ('w, 'i) pps_interface"

record ('w, 'i) shared_informer =
  inf_ListFunc :: "list_options \<Rightarrow> 'w \<Rightarrow> PersistentPodStateList reply \<times> 'w"
  inf_WatchFunc :: "list_options \<Rightarrow> 'w \<Rightarrow> 'i reply \<times> 'w"
  inf_objectType :: string
  inf_resync :: duration
  inf_indexers :: "string list"
  inf_transform :: "opaque option"

type_synonym ('w, 'i) informer_heap = "('w, 'i) shared_informer list"

definition NewSharedIndexInformer ::
  "(list_options \<Rightarrow> 'w \<Rightarrow> PersistentPodStateList reply \<times> 'w) \<Rightarrow> (list_options \<Rightarrow> 'w \<Rightarrow> 'i reply \<times> 'w) \<Rightarrow>
   string \<Rightarrow> duration \<Rightarrow> string list \<Rightarrow> ('w, 'i) informer_heap \<Rightarrow> nat \<times> ('w, 'i) informer_heap" where
  "NewSharedIndexInformer listFunc watchFunc obj resyncPeriod indexers h =
     (length h, h @ [\<lparr>inf_ListFunc = listFunc, inf_WatchFunc = watchFunc, inf_objectType = obj, inf_resync = resyncPeriod,
        inf_indexers = indexers, inf_transform = None\<rparr>])"

type_synonym tweak = "(list_options \<Rightarrow> list_options) option"

definition tweaked :: "tweak \<Rightarrow> list_options \<Rightarrow> list_options" where
  "tweaked tweakListOptions options = (case tweakListOptions of None \<Rightarrow> options | Some f \<Rightarrow> f options)"

definition NewFilteredPersistentPodStateInformer ::
  "('w, 'i) versioned_client \<Rightarrow> string \<Rightarrow> duration \<Rightarrow> string list \<Rightarrow> tweak \<Rightarrow>
   ('w, 'i) informer_heap \<Rightarrow> nat \<times> ('w, 'i) informer_heap" where
  "NewFilteredPersistentPodStateInformer client namespace resyncPeriod indexers tweakListOptions =
     NewSharedIndexInformer
       (\<lambda>options. pi_List (client namespace) (tweaked tweakListOptions options))
       (\<lambda>options. pi_Watch (client namespace) (tweaked tweakListOptions options))
       ''PersistentPodState'' resyncPeriod indexers"

definition NewPersistentPodStateInformer ::
  "('w, 'i) versioned_client \<Rightarrow> string \<Rightarrow> duration \<Rightarrow> string list \<Rightarrow>
   ('w, 'i) informer_heap \<Rightarrow> nat \<times> ('w, 'i) informer_heap" where
  "NewPersistentPodStateInformer client namespace resyncPeriod indexers =
     NewFilteredPersistentPodStateInformer client namespace resyncPeriod indexers None"

section \<open>The factory\<close>

record ('w, 'i) sharedInformerFactory =
  sf_client :: "('w, 'i) versioned_client"
  sf_namespace :: string
  sf_tweakListOptions :: tweak
  sf_defaultResync :: duration
  sf_customResync :: "string \<Rightarrow> duration option"
  sf_transform :: "opaque option"
  sf_informers :: "(string \<times> nat) list"
  sf_startedInformers :: "string \<Rightarrow> bool"
  sf_wg :: nat
  sf_shuttingDown :: bool

type_synonym ('w, 'i) informer_option = "('w, 'i) sharedInformerFactory \<Rightarrow> ('w, 'i) sharedInformerFactory"

text \<open>The keys of \<^verbatim>\<open>resyncConfig\<close> are objects, of which only the type is used.\<close>

definition WithCustomResyncConfig :: "(string \<times> duration) list \<Rightarrow> ('w, 'i) informer_option" where
  "WithCustomResyncConfig resyncConfig factory =
     fold (\<lambda>(k, v) f. f\<lparr>sf_customResync := (sf_customResync f)(k \<mapsto> v)\<rparr>) resyncConfig factory"

definition WithTweakListOptions :: "tweak \<Rightarrow> ('w, 'i) informer_option" where
  "WithTweakListOptions tweakListOptions factory = factory\<lparr>sf_tweakListOptions := tweakListOptions\<rparr>"

definition WithNamespace :: "string \<Rightarrow> ('w, 'i) informer_option" where
  "WithNamespace namespace factory = factory\<lparr>sf_namespace := namespace\<rparr>"

definition WithTransform :: "opaque option \<Rightarrow> ('w, 'i) informer_option" where
  "WithTransform transform factory = factory\<lparr>sf_transform := transform\<rparr>"

definition NamespaceAll :: string where
  "NamespaceAll = []"

definition NewSharedInformerFactoryWithOptions ::
  "('w, 'i) versioned_client \<Rightarrow> duration \<Rightarrow> ('w, 'i) informer_option list \<Rightarrow> ('w, 'i) sharedInformerFactory" where
  "NewSharedInformerFactoryWithOptions client defaultResync options =
     fold (\<lambda>opt factory. opt factory) options
       \<lparr>sf_client = client, sf_namespace = NamespaceAll, sf_tweakListOptions = None,
        sf_defaultResync = defaultResync, sf_customResync = Map.empty, sf_transform = None,
        sf_informers = [], sf_startedInformers = (\<lambda>_. False), sf_wg = 0, sf_shuttingDown = False\<rparr>"

definition NewSharedInformerFactory ::
  "('w, 'i) versioned_client \<Rightarrow> duration \<Rightarrow> ('w, 'i) sharedInformerFactory" where
  "NewSharedInformerFactory client defaultResync = NewSharedInformerFactoryWithOptions client defaultResync []"

definition NewFilteredSharedInformerFactory ::
  "('w, 'i) versioned_client \<Rightarrow> duration \<Rightarrow> string \<Rightarrow> tweak \<Rightarrow> ('w, 'i) sharedInformerFactory" where
  "NewFilteredSharedInformerFactory client defaultResync namespace tweakListOptions =
     NewSharedInformerFactoryWithOptions client defaultResync
       [WithNamespace namespace, WithTweakListOptions tweakListOptions]"

text \<open>
  \<^verbatim>\<open>InformerFor\<close>: the informer of the type if there is one, else a new one that \<open>newFunc\<close> makes.
  \<^verbatim>\<open>SetTransform\<close> writes into the informer just made.
\<close>

type_synonym ('w, 'i) new_informer =
  "('w, 'i) versioned_client \<Rightarrow> duration \<Rightarrow> ('w, 'i) informer_heap \<Rightarrow> nat \<times> ('w, 'i) informer_heap"

definition SetTransform :: "opaque option \<Rightarrow> nat \<Rightarrow> ('w, 'i) informer_heap \<Rightarrow> ('w, 'i) informer_heap" where
  "SetTransform transform a h = (if a < length h then h[a := (h ! a)\<lparr>inf_transform := transform\<rparr>] else h)"

definition InformerFor ::
  "string \<Rightarrow> ('w, 'i) new_informer \<Rightarrow> ('w, 'i) sharedInformerFactory \<times> ('w, 'i) informer_heap \<Rightarrow>
   nat \<times> ('w, 'i) sharedInformerFactory \<times> ('w, 'i) informer_heap" where
  "InformerFor informerType newFunc s =
     (case s of (f, h) \<Rightarrow>
        (case map_of (sf_informers f) informerType of
           Some informer \<Rightarrow> (informer, f, h)
         | None \<Rightarrow>
             (let resyncPeriod = (case sf_customResync f informerType of Some d \<Rightarrow> d | None \<Rightarrow> sf_defaultResync f) in
              case newFunc (sf_client f) resyncPeriod h of
                (informer, h1) \<Rightarrow>
                  (informer, f\<lparr>sf_informers := sf_informers f @ [(informerType, informer)]\<rparr>,
                   SetTransform (sf_transform f) informer h1))))"

text \<open>
  The loop of \<^verbatim>\<open>Start\<close>: the factory, and the informers for which a goroutine was made, in order.
\<close>

fun start_loop :: "(string \<times> nat) list \<Rightarrow> ('w, 'i) sharedInformerFactory \<Rightarrow>
  nat list \<times> ('w, 'i) sharedInformerFactory" where
  "start_loop [] f = ([], f)"
| "start_loop ((informerType, informer) # es) f =
     (if \<not> sf_startedInformers f informerType then
        (case start_loop es (f\<lparr>sf_wg := sf_wg f + 1,
             sf_startedInformers := (sf_startedInformers f)(informerType := True)\<rparr>) of
           (gs, f1) \<Rightarrow> (informer # gs, f1))
      else start_loop es f)"

definition informers_Start :: "('w, 'i) sharedInformerFactory \<Rightarrow> nat list \<times> ('w, 'i) sharedInformerFactory" where
  "informers_Start f = (if sf_shuttingDown f then ([], f) else start_loop (sf_informers f) f)"

text \<open>\<^verbatim>\<open>Shutdown\<close> up to the wait for the goroutines, and whether that wait is over.\<close>

definition mark_shutdown :: "('w, 'i) sharedInformerFactory \<Rightarrow> ('w, 'i) sharedInformerFactory" where
  "mark_shutdown f = f\<lparr>sf_shuttingDown := True\<rparr>"

definition wait_over :: "('w, 'i) sharedInformerFactory \<Rightarrow> bool" where
  "wait_over f \<longleftrightarrow> sf_wg f = 0"

text \<open>
  \<^verbatim>\<open>WaitForCacheSync\<close>: for each informer that is started, what client-go's function of that name returns
  for it (a parameter).
\<close>

definition informers_WaitForCacheSync ::
  "(nat \<Rightarrow> bool) \<Rightarrow> ('w, 'i) sharedInformerFactory \<Rightarrow> (string \<times> bool) list" where
  "informers_WaitForCacheSync cache_WaitForCacheSync f =
     (let informers = filter (\<lambda>(informerType, informer). sf_startedInformers f informerType) (sf_informers f) in
      map (\<lambda>(informType, informer). (informType, cache_WaitForCacheSync informer)) informers)"

section \<open>From the factory to an informer\<close>

text \<open>\<^verbatim>\<open>apps.New\<close>, \<^verbatim>\<open>V1alpha1\<close> and \<^verbatim>\<open>PersistentPodStates\<close> hand on the factory, the namespace and the filter.\<close>

record informer_group =
  ig_namespace :: string
  ig_tweakListOptions :: tweak

definition group_New :: "string \<Rightarrow> tweak \<Rightarrow> informer_group" where
  "group_New namespace tweakListOptions = \<lparr>ig_namespace = namespace, ig_tweakListOptions = tweakListOptions\<rparr>"

definition factory_Apps :: "('w, 'i) sharedInformerFactory \<Rightarrow> informer_group" where
  "factory_Apps f = group_New (sf_namespace f) (sf_tweakListOptions f)"

definition version_New :: "string \<Rightarrow> tweak \<Rightarrow> informer_group" where
  "version_New namespace tweakListOptions = \<lparr>ig_namespace = namespace, ig_tweakListOptions = tweakListOptions\<rparr>"

definition group_V1alpha1 :: "informer_group \<Rightarrow> informer_group" where
  "group_V1alpha1 g = version_New (ig_namespace g) (ig_tweakListOptions g)"

record persistentPodStateInformer =
  pinf_tweakListOptions :: tweak
  pinf_namespace :: string

definition version_PersistentPodStates :: "informer_group \<Rightarrow> persistentPodStateInformer" where
  "version_PersistentPodStates v =
     \<lparr>pinf_tweakListOptions = ig_tweakListOptions v, pinf_namespace = ig_namespace v\<rparr>"

definition defaultInformer :: "persistentPodStateInformer \<Rightarrow> ('w, 'i) new_informer" where
  "defaultInformer f client resyncPeriod =
     NewFilteredPersistentPodStateInformer client (pinf_namespace f) resyncPeriod [''namespace''] (pinf_tweakListOptions f)"

definition pps_Informer ::
  "persistentPodStateInformer \<Rightarrow> ('w, 'i) sharedInformerFactory \<times> ('w, 'i) informer_heap \<Rightarrow>
   nat \<times> ('w, 'i) sharedInformerFactory \<times> ('w, 'i) informer_heap" where
  "pps_Informer f = InformerFor ''PersistentPodState'' (defaultInformer f)"

text \<open>The lister of an informer reads its indexer; \<open>GetIndexer\<close> is client-go's.\<close>

definition pps_Lister ::
  "(nat \<Rightarrow> 'x) \<Rightarrow> persistentPodStateInformer \<Rightarrow> ('w, 'i) sharedInformerFactory \<times> ('w, 'i) informer_heap \<Rightarrow>
   'x persistentPodStateLister \<times> ('w, 'i) sharedInformerFactory \<times> ('w, 'i) informer_heap" where
  "pps_Lister GetIndexer f s =
     (case pps_Informer f s of (informer, s1) \<Rightarrow> (NewPersistentPodStateLister (GetIndexer informer), s1))"

record genericInformer =
  gi_informer :: nat
  gi_resource :: group_resource

definition generic_Lister :: "(nat \<Rightarrow> 'x) \<Rightarrow> ('x \<Rightarrow> group_resource \<Rightarrow> 'l) \<Rightarrow> genericInformer \<Rightarrow> 'l" where
  "generic_Lister GetIndexer NewGenericLister f = NewGenericLister (GetIndexer (gi_informer f)) (gi_resource f)"

text \<open>The verb \<^verbatim>\<open>%v\<close> on a resource calls its \<^verbatim>\<open>String\<close> method.\<close>

definition show_gvr :: "gvr \<Rightarrow> string" where
  "show_gvr r = (case r of (g, v, res) \<Rightarrow> g @ ''/'' @ v @ '', Resource='' @ res)"

definition ForResource ::
  "gvr \<Rightarrow> ('w, 'i) sharedInformerFactory \<times> ('w, 'i) informer_heap \<Rightarrow>
   (string + genericInformer) \<times> ('w, 'i) sharedInformerFactory \<times> ('w, 'i) informer_heap" where
  "ForResource resource s =
     (if resource = WithResource ''persistentpodstates'' then
        (case pps_Informer (version_PersistentPodStates (group_V1alpha1 (factory_Apps (fst s)))) s of
           (informer, s1) \<Rightarrow>
             (Inr \<lparr>gi_informer = informer, gi_resource = (fst resource, snd (snd resource))\<rparr>, s1))
      else (Inl (''no informer found for '' @ show_gvr resource), s))"

section \<open>The factory, its goroutines and its callers\<close>

text \<open>
  \<open>is_spawned\<close> are the informers whose goroutine has not called \<^verbatim>\<open>Run\<close> yet, \<open>is_running\<close> those in which it has not
  returned, \<open>is_log\<close> is every call of \<^verbatim>\<open>Run\<close> so far; \<open>is_waiting\<close> counts the callers of \<^verbatim>\<open>Shutdown\<close> that wait
  and \<open>is_returned\<close> those to which it has returned.
\<close>

record ('w, 'i) informer_system =
  is_factory :: "('w, 'i) sharedInformerFactory"
  is_heap :: "('w, 'i) informer_heap"
  is_spawned :: "nat list"
  is_running :: "nat list"
  is_log :: "nat list"
  is_waiting :: nat
  is_returned :: nat

definition new_system ::
  "('w, 'i) sharedInformerFactory \<Rightarrow> ('w, 'i) informer_heap \<Rightarrow> ('w, 'i) informer_system" where
  "new_system f h = \<lparr>is_factory = f, is_heap = h, is_spawned = [], is_running = [], is_log = [],
     is_waiting = 0, is_returned = 0\<rparr>"

datatype informer_event = EInformerFor string nat | EStart | ERun nat | EDone nat | EShutdown | EReturn

text \<open>A function that makes a new informer returns one that was not there before and changes no other.\<close>

definition allocates :: "('w, 'i) new_informer \<Rightarrow> bool" where
  "allocates newFunc \<longleftrightarrow>
     (\<forall>c d h a h'. newFunc c d h = (a, h') \<longrightarrow> length h \<le> a \<and> a < length h' \<and> take (length h) h' = h)"

inductive istep :: "('w, 'i) informer_system \<Rightarrow> informer_event \<Rightarrow> ('w, 'i) informer_system \<Rightarrow> bool" where
  informer_for: "allocates newFunc \<Longrightarrow>
    InformerFor informerType newFunc (is_factory s, is_heap s) = (a, f, h) \<Longrightarrow>
    istep s (EInformerFor informerType a) (s\<lparr>is_factory := f, is_heap := h\<rparr>)"
| start: "informers_Start (is_factory s) = (gs, f) \<Longrightarrow>
    istep s EStart (s\<lparr>is_factory := f, is_spawned := is_spawned s @ gs\<rparr>)"
| run: "a \<in> set (is_spawned s) \<Longrightarrow>
    istep s (ERun a) (s\<lparr>is_spawned := remove1 a (is_spawned s), is_running := a # is_running s, is_log := a # is_log s\<rparr>)"
| finish: "a \<in> set (is_running s) \<Longrightarrow>
    istep s (EDone a) (s\<lparr>is_running := remove1 a (is_running s),
      is_factory := (is_factory s)\<lparr>sf_wg := sf_wg (is_factory s) - 1\<rparr>\<rparr>)"
| shutdown: "istep s EShutdown (s\<lparr>is_factory := mark_shutdown (is_factory s), is_waiting := is_waiting s + 1\<rparr>)"
| return: "is_waiting s > 0 \<Longrightarrow> wait_over (is_factory s) \<Longrightarrow>
    istep s EReturn (s\<lparr>is_waiting := is_waiting s - 1, is_returned := is_returned s + 1\<rparr>)"

inductive_cases istepE: "istep s e s'"

inductive isteps :: "('w, 'i) informer_system \<Rightarrow> ('w, 'i) informer_system \<Rightarrow> bool" where
  refl: "isteps s s"
| more: "isteps s s1 \<Longrightarrow> istep s1 e s2 \<Longrightarrow> isteps s s2"

lemma isteps_trans: "isteps s1 s2 \<Longrightarrow> isteps s s1 \<Longrightarrow> isteps s s2"
  by (induction rule: isteps.induct) (auto intro: isteps.intros)

lemma isteps_one: "istep s e s' \<Longrightarrow> isteps s s'"
  by (metis isteps.intros)

section \<open>What a step changes\<close>

lemma start_loop_eq:
  "distinct (map fst es) \<Longrightarrow> start_loop es f =
     (map snd (filter (\<lambda>e. \<not> sf_startedInformers f (fst e)) es),
      f\<lparr>sf_wg := sf_wg f + length (filter (\<lambda>e. \<not> sf_startedInformers f (fst e)) es),
        sf_startedInformers := (\<lambda>t. sf_startedInformers f t \<or> t \<in> fst ` set es)\<rparr>)"
proof (induction es arbitrary: f)
  case Nil
  then show ?case by simp
next
  case (Cons e es)
  obtain t a where e: "e = (t, a)" by fastforce
  have same: "filter (\<lambda>e. fst e \<noteq> t \<and> (fst e \<noteq> t \<longrightarrow> \<not> sf_startedInformers f (fst e))) es =
      filter (\<lambda>e. \<not> sf_startedInformers f (fst e)) es"
    using Cons.prems e by (intro filter_cong) (auto simp: image_iff)
  show ?case
    using Cons e by (auto simp: same fun_eq_iff intro!: arg_cong2 [where f = "\<lambda>x y. f\<lparr>sf_wg := x, sf_startedInformers := y\<rparr>"])
qed

lemma defaultInformer_allocates: "allocates (defaultInformer f)"
  by (auto simp: allocates_def defaultInformer_def NewFilteredPersistentPodStateInformer_def NewSharedIndexInformer_def)

lemma InformerFor_cases:
  assumes "InformerFor t newFunc (f, h) = (a, f', h')" and "allocates newFunc"
  obtains (old) "map_of (sf_informers f) t = Some a" "f' = f" "h' = h"
  | (new) "map_of (sf_informers f) t = None" "f' = f\<lparr>sf_informers := sf_informers f @ [(t, a)]\<rparr>"
      "length h \<le> a" "a < length h'" "take (length h) h' = h"
proof (cases "map_of (sf_informers f) t")
  case None
  obtain b h1 where n: "newFunc (sf_client f) (case sf_customResync f t of Some d \<Rightarrow> d | None \<Rightarrow> sf_defaultResync f) h = (b, h1)"
    by fastforce
  with assms(2) have "length h \<le> b" "b < length h1" "take (length h) h1 = h"
    unfolding allocates_def by blast+
  moreover from this None n assms(1) have "b = a" "f' = f\<lparr>sf_informers := sf_informers f @ [(t, a)]\<rparr>"
    "h' = h1[a := (h1 ! a)\<lparr>inf_transform := sf_transform f\<rparr>]"
    by (auto simp: InformerFor_def Let_def SetTransform_def)
  ultimately show ?thesis using None by (intro new) simp_all
next
  case (Some b)
  with assms(1) have "b = a" "f' = f" "h' = h" by (simp_all add: InformerFor_def)
  with Some show ?thesis by (intro old) simp_all
qed

section \<open>The invariant\<close>

definition entries_ok :: "(string \<times> nat) list \<Rightarrow> (string \<Rightarrow> bool) \<Rightarrow> nat \<Rightarrow> bool" where
  "entries_ok es started n \<longleftrightarrow> distinct (map fst es) \<and> distinct (map snd es) \<and> (\<forall>a \<in> snd ` set es. a < n) \<and>
     (\<forall>t. started t \<longrightarrow> t \<in> fst ` set es)"

definition started_informers :: "('w, 'i) sharedInformerFactory \<Rightarrow> nat list" where
  "started_informers f = map snd (filter (\<lambda>e. sf_startedInformers f (fst e)) (sf_informers f))"

text \<open>
  The informers that were given a goroutine are those marked as started, each has one and \<^verbatim>\<open>Run\<close> is called
  once in it, and the counter of the wait group is the number of goroutines that are left.
\<close>

definition system_ok :: "('w, 'i) informer_system \<Rightarrow> bool" where
  "system_ok s \<longleftrightarrow>
     entries_ok (sf_informers (is_factory s)) (sf_startedInformers (is_factory s)) (length (is_heap s)) \<and>
     sf_wg (is_factory s) = length (is_spawned s) + length (is_running s) \<and>
     distinct (is_spawned s @ is_log s) \<and> distinct (is_running s) \<and> set (is_running s) \<subseteq> set (is_log s) \<and>
     set (is_spawned s @ is_log s) = set (started_informers (is_factory s)) \<and>
     (is_waiting s > 0 \<or> is_returned s > 0 \<longrightarrow> sf_shuttingDown (is_factory s)) \<and>
     (is_returned s > 0 \<longrightarrow> is_spawned s = [] \<and> is_running s = [])"

lemma started_informers_upd [simp]:
  "started_informers (f\<lparr>sf_wg := n\<rparr>) = started_informers f"
  "started_informers (f\<lparr>sf_shuttingDown := b\<rparr>) = started_informers f"
  by (simp_all add: started_informers_def)

lemma entries_ok_new:
  assumes "entries_ok es started n" and "map_of es t = None" and "n \<le> a" and "a < n'"
  shows "entries_ok (es @ [(t, a)]) started n'"
  using assms by (fastforce simp: entries_ok_def map_of_eq_None_iff)

lemma not_started_new:
  "entries_ok es started n \<Longrightarrow> map_of es t = None \<Longrightarrow> \<not> started t"
  by (auto simp: entries_ok_def map_of_eq_None_iff)

lemma started_split:
  assumes "entries_ok (sf_informers f) (sf_startedInformers f) n"
  shows "set (map snd (filter (\<lambda>e. \<not> sf_startedInformers f (fst e)) (sf_informers f))) \<inter> set (started_informers f) = {}"
proof -
  from assms have d: "inj_on snd (set (sf_informers f))" by (simp add: entries_ok_def distinct_map)
  have "snd x \<noteq> snd y" if "x \<in> set (sf_informers f)" "y \<in> set (sf_informers f)"
    "\<not> sf_startedInformers f (fst x)" "sf_startedInformers f (fst y)" for x y
    using inj_onD [OF d _ that(1,2)] that(3,4) by blast
  then show ?thesis unfolding started_informers_def by (fastforce simp: disjoint_iff)
qed

lemma informers_Start_eq:
  assumes "entries_ok (sf_informers f) (sf_startedInformers f) n" and "\<not> sf_shuttingDown f"
    and "informers_Start f = (gs, f')"
  shows "gs = map snd (filter (\<lambda>e. \<not> sf_startedInformers f (fst e)) (sf_informers f))"
    and "f' = f\<lparr>sf_wg := sf_wg f + length gs, sf_startedInformers := (\<lambda>t. t \<in> fst ` set (sf_informers f))\<rparr>"
proof -
  have "(\<lambda>t. sf_startedInformers f t \<or> t \<in> fst ` set (sf_informers f)) = (\<lambda>t. t \<in> fst ` set (sf_informers f))"
    using assms(1) by (auto simp: entries_ok_def)
  with assms start_loop_eq [of "sf_informers f" f]
  show "gs = map snd (filter (\<lambda>e. \<not> sf_startedInformers f (fst e)) (sf_informers f))"
    and "f' = f\<lparr>sf_wg := sf_wg f + length gs, sf_startedInformers := (\<lambda>t. t \<in> fst ` set (sf_informers f))\<rparr>"
    by (auto simp: informers_Start_def entries_ok_def)
qed

lemma start_keeps_ok:
  assumes ok: "system_ok s" and st: "informers_Start (is_factory s) = (gs, f)"
  shows "system_ok (s\<lparr>is_factory := f, is_spawned := is_spawned s @ gs\<rparr>)"
proof (cases "sf_shuttingDown (is_factory s)")
  case True
  with st have "gs = []" "f = is_factory s" by (simp_all add: informers_Start_def)
  with ok show ?thesis by (simp add: system_ok_def)
next
  case False
  let ?f = "is_factory s"
  from ok have e: "entries_ok (sf_informers ?f) (sf_startedInformers ?f) (length (is_heap s))" by (simp add: system_ok_def)
  note st = informers_Start_eq [OF e False st]
  have "distinct gs" using e st(1) by (auto simp: entries_ok_def distinct_map intro: inj_on_subset)
  moreover have "set gs \<inter> set (is_spawned s @ is_log s) = {}"
    using started_split [OF e] ok st(1) by (simp add: system_ok_def)
  moreover have "set (started_informers f) = set gs \<union> set (started_informers ?f)"
    using st by (auto simp: started_informers_def image_iff)
  moreover have "entries_ok (sf_informers f) (sf_startedInformers f) (length (is_heap s))"
    using e st(2) by (auto simp: entries_ok_def)
  ultimately show ?thesis
    using ok False st(2) unfolding system_ok_def by auto
qed

lemma informer_for_keeps_ok:
  assumes ok: "system_ok s" and new: "allocates newFunc"
    and r: "InformerFor t newFunc (is_factory s, is_heap s) = (a, f, h)"
  shows "system_ok (s\<lparr>is_factory := f, is_heap := h\<rparr>)"
  using r new
proof (cases rule: InformerFor_cases)
  case old
  with ok show ?thesis by (simp add: system_ok_def)
next
  case new
  from ok have e: "entries_ok (sf_informers (is_factory s)) (sf_startedInformers (is_factory s)) (length (is_heap s))"
    by (simp add: system_ok_def)
  have "set (started_informers f) = set (started_informers (is_factory s))"
    using not_started_new [OF e new(1)] new(2) by (simp add: started_informers_def)
  with ok new entries_ok_new [OF e new(1) new(3,4)] show ?thesis
    by (simp add: system_ok_def)
qed

lemma istep_keeps_ok:
  assumes "istep s e s'" and "system_ok s"
  shows "system_ok s'"
  using assms
proof (cases rule: istep.cases)
  case (run a)
  then have "Suc (length (is_spawned s) - Suc 0) = length (is_spawned s)" by (cases "is_spawned s") auto
  with run assms(2) show ?thesis by (auto simp: system_ok_def length_remove1)
next
  case (finish a)
  then have "is_running s \<noteq> []"
    "length (is_spawned s) + length (is_running s) - Suc 0 = length (is_spawned s) + (length (is_running s) - Suc 0)"
    by (cases "is_running s"; simp)+
  with finish assms(2) show ?thesis
    by (auto simp: system_ok_def length_remove1 dest: notin_set_remove1 [THEN contrapos_np])
next
  case shutdown
  with assms(2) show ?thesis by (simp add: system_ok_def mark_shutdown_def)
next
  case return
  with assms(2) show ?thesis by (simp add: system_ok_def wait_over_def)
qed (use assms(2) in \<open>auto intro: start_keeps_ok informer_for_keeps_ok\<close>)

lemma isteps_keep_ok: "isteps s s' \<Longrightarrow> system_ok s \<Longrightarrow> system_ok s'"
  by (induction rule: isteps.induct) (auto intro: istep_keeps_ok)

section \<open>A new factory\<close>

definition known_option :: "('w, 'i) informer_option \<Rightarrow> bool" where
  "known_option opt \<longleftrightarrow> (\<exists>x. opt = WithCustomResyncConfig x) \<or> (\<exists>x. opt = WithTweakListOptions x) \<or>
     (\<exists>x. opt = WithNamespace x) \<or> (\<exists>x. opt = WithTransform x)"

definition unused :: "('w, 'i) sharedInformerFactory \<Rightarrow> bool" where
  "unused f \<longleftrightarrow> sf_informers f = [] \<and> sf_startedInformers f = (\<lambda>_. False) \<and> sf_wg f = 0 \<and> \<not> sf_shuttingDown f"

lemma unused_resync: "unused (f\<lparr>sf_customResync := m\<rparr>) = unused f"
  by (simp add: unused_def)

lemma custom_resync_unused: "unused (WithCustomResyncConfig cfg f) = unused f"
  unfolding WithCustomResyncConfig_def by (induction cfg arbitrary: f) (simp_all add: unused_resync split_beta)

lemma known_option_unused: "known_option opt \<Longrightarrow> unused (opt f) = unused f"
  unfolding known_option_def
  by (elim disjE exE; hypsubst; (rule custom_resync_unused)?)
    (simp_all add: unused_def WithTweakListOptions_def WithNamespace_def WithTransform_def)

lemma fold_options_unused:
  "list_all known_option opts \<Longrightarrow> unused (fold (\<lambda>opt f. opt f) opts f) = unused f"
  by (induction opts arbitrary: f) (simp_all add: known_option_unused)

lemma new_factory_ok:
  assumes "list_all known_option opts"
  shows "system_ok (new_system (NewSharedInformerFactoryWithOptions client d opts) h)"
proof -
  have "unused (NewSharedInformerFactoryWithOptions client d opts)"
    unfolding NewSharedInformerFactoryWithOptions_def fold_options_unused [OF assms] by (simp add: unused_def)
  then show ?thesis
    by (simp add: unused_def system_ok_def new_system_def entries_ok_def started_informers_def)
qed

lemma reachable_ok:
  assumes "list_all known_option opts" and "isteps (new_system (NewSharedInformerFactoryWithOptions client d opts) h) s"
  shows "system_ok s"
  using isteps_keep_ok [OF assms(2) new_factory_ok [OF assms(1)]] .

section \<open>Starting\<close>

lemma start_starts_all:
  assumes "system_ok s" and "\<not> sf_shuttingDown (is_factory s)" and "istep s EStart s'"
  shows "set (is_spawned s' @ is_log s') = snd ` set (sf_informers (is_factory s'))"
    and "map fst (informers_WaitForCacheSync sync (is_factory s')) = map fst (sf_informers (is_factory s'))"
proof -
  from assms(1) have e: "entries_ok (sf_informers (is_factory s)) (sf_startedInformers (is_factory s)) (length (is_heap s))"
    by (simp add: system_ok_def)
  from assms(3) obtain gs f where f: "informers_Start (is_factory s) = (gs, f)" and s': "is_factory s' = f"
    by (cases rule: istep.cases) auto
  note f' = informers_Start_eq(2) [OF e assms(2) f]
  then have all: "filter (\<lambda>e. sf_startedInformers f (fst e)) (sf_informers f) = sf_informers f"
    by (auto simp: filter_id_conv)
  from istep_keeps_ok [OF assms(3,1)] s'
  have "set (is_spawned s' @ is_log s') = set (started_informers f)" by (simp add: system_ok_def)
  with all s' show "set (is_spawned s' @ is_log s') = snd ` set (sf_informers (is_factory s'))"
    by (simp add: started_informers_def)
  from all s' show "map fst (informers_WaitForCacheSync sync (is_factory s')) = map fst (sf_informers (is_factory s'))"
    by (simp add: informers_WaitForCacheSync_def case_prod_unfold comp_def)
qed

text \<open>
  C21. Each informer of a factory runs at most once. In every state that a new factory reaches by calls of
  its methods from any goroutines, no informer's \<^verbatim>\<open>Run\<close> has been called twice, only registered informers
  were run, and the wait group counts the goroutines that have not ended, so that it never gets negative.
  A call of \<^verbatim>\<open>Start\<close> before the shutdown gives every registered informer its goroutine, and
  \<^verbatim>\<open>WaitForCacheSync\<close> after it waits for all of them.
\<close>

theorem informers_run_once:
  assumes "list_all known_option opts" and "isteps (new_system (NewSharedInformerFactoryWithOptions client d opts) h) s"
  shows "distinct (is_log s) \<and> set (is_log s) \<subseteq> snd ` set (sf_informers (is_factory s)) \<and>
     sf_wg (is_factory s) = length (is_spawned s) + length (is_running s) \<and>
     (\<forall>s'. \<not> sf_shuttingDown (is_factory s) \<longrightarrow> istep s EStart s' \<longrightarrow>
        distinct (is_spawned s' @ is_log s') \<and>
        set (is_spawned s' @ is_log s') = snd ` set (sf_informers (is_factory s')) \<and>
        map fst (informers_WaitForCacheSync sync (is_factory s')) = map fst (sf_informers (is_factory s')))"
proof -
  note ok = reachable_ok [OF assms]
  then have "set (is_log s) \<subseteq> snd ` set (sf_informers (is_factory s))"
    by (auto simp: system_ok_def started_informers_def)
  moreover have "distinct (is_spawned s' @ is_log s')" if "istep s EStart s'" for s'
    using istep_keeps_ok [OF that ok] by (simp add: system_ok_def)
  moreover have "distinct (is_log s)" "sf_wg (is_factory s) = length (is_spawned s) + length (is_running s)"
    using ok by (simp_all add: system_ok_def)
  moreover note start_starts_all(1) [OF ok] start_starts_all(2) [OF ok, where sync = sync]
  ultimately show ?thesis by (intro conjI allI impI) blast+
qed

section \<open>Shutting down\<close>

lemma shutting_step:
  assumes "istep s e s'" and "sf_shuttingDown (is_factory s)"
  shows "sf_shuttingDown (is_factory s') \<and> set (is_spawned s') \<subseteq> set (is_spawned s) \<and>
     set (is_spawned s' @ is_log s') \<subseteq> set (is_spawned s @ is_log s) \<and>
     (is_spawned s = [] \<longrightarrow> is_log s' = is_log s)"
  using assms(1)
proof (cases rule: istep.cases)
  case (informer_for newFunc t a f h)
  from informer_for(4,3) have "sf_shuttingDown f" by (cases rule: InformerFor_cases) (use assms(2) in auto)
  with informer_for show ?thesis by simp
next
  case (start gs f)
  with assms(2) show ?thesis by (simp add: informers_Start_def)
next
  case (run a)
  with assms(2) set_remove1_subset [of a "is_spawned s"] show ?thesis by auto
qed (use assms(2) in \<open>simp_all add: mark_shutdown_def\<close>)

lemma shutting_steps:
  "isteps s s' \<Longrightarrow> sf_shuttingDown (is_factory s) \<Longrightarrow>
     sf_shuttingDown (is_factory s') \<and> set (is_spawned s') \<subseteq> set (is_spawned s) \<and>
     set (is_spawned s' @ is_log s') \<subseteq> set (is_spawned s @ is_log s) \<and>
     (is_spawned s = [] \<longrightarrow> is_log s' = is_log s)"
proof (induction rule: isteps.induct)
  case (more s s1 e s2)
  then show ?case using shutting_step [OF more.hyps(2)] by (metis subset_empty set_empty subset_trans)
qed simp

lemma returned_mono: "isteps s s' \<Longrightarrow> is_returned s \<le> is_returned s'"
  by (induction rule: isteps.induct) (auto elim!: istepE)

text \<open>The goroutines that are left can always go on, until the wait group is empty.\<close>

lemma goroutines_end:
  assumes "system_ok s"
  shows "\<exists>s'. isteps s s' \<and> wait_over (is_factory s') \<and> is_waiting s' = is_waiting s \<and> is_returned s' = is_returned s"
  using assms
proof (induction "2 * length (is_spawned s) + length (is_running s)" arbitrary: s rule: less_induct)
  case less
  consider (spawned) a where "a \<in> set (is_spawned s)" | (running) a where "a \<in> set (is_running s)"
    | (none) "is_spawned s = []" "is_running s = []"
    by (metis list.set_intros(1) neq_Nil_conv)
  then show ?case
  proof cases
    case spawned
    let ?s1 = "s\<lparr>is_spawned := remove1 a (is_spawned s), is_running := a # is_running s, is_log := a # is_log s\<rparr>"
    note st = istep.run [OF spawned]
    from spawned have "Suc (2 * (length (is_spawned s) - Suc 0)) < 2 * length (is_spawned s)" by (cases "is_spawned s") auto
    with spawned have "2 * length (is_spawned ?s1) + length (is_running ?s1) < 2 * length (is_spawned s) + length (is_running s)"
      by (simp add: length_remove1)
    from less.hyps [OF this istep_keeps_ok [OF st less.prems]] obtain s' where
      "isteps ?s1 s'" "wait_over (is_factory s')" "is_waiting s' = is_waiting s" "is_returned s' = is_returned s" by auto
    with isteps_trans [OF _ isteps_one [OF st]] show ?thesis by blast
  next
    case running
    let ?s1 = "s\<lparr>is_running := remove1 a (is_running s), is_factory := (is_factory s)\<lparr>sf_wg := sf_wg (is_factory s) - 1\<rparr>\<rparr>"
    note st = istep.finish [OF running]
    from running have "length (is_running s) > 0" by (cases "is_running s") auto
    with running have "2 * length (is_spawned ?s1) + length (is_running ?s1) < 2 * length (is_spawned s) + length (is_running s)"
      by (simp add: length_remove1)
    from less.hyps [OF this istep_keeps_ok [OF st less.prems]] obtain s' where
      "isteps ?s1 s'" "wait_over (is_factory s')" "is_waiting s' = is_waiting s" "is_returned s' = is_returned s" by auto
    with isteps_trans [OF _ isteps_one [OF st]] show ?thesis by blast
  next
    case none
    with less.prems have "wait_over (is_factory s)" by (simp add: system_ok_def wait_over_def)
    then show ?thesis using isteps.refl by blast
  qed
qed

text \<open>
  C12. \<^verbatim>\<open>Shutdown\<close> is final. From the moment it has marked the factory no goroutine is added to those
  that \<^verbatim>\<open>Start\<close> has made before. A caller that waits gets its return as soon as the goroutines have ended,
  which they can do in every state. Once a call of \<^verbatim>\<open>Shutdown\<close> has returned, no informer runs and
  none is ever run again, whatever is called.
\<close>

theorem shutdown_is_final:
  assumes "list_all known_option opts" and "isteps (new_system (NewSharedInformerFactoryWithOptions client d opts) h) s"
    and "isteps s s'"
  shows "(sf_shuttingDown (is_factory s) \<longrightarrow> set (is_spawned s' @ is_log s') \<subseteq> set (is_spawned s @ is_log s)) \<and>
     (is_waiting s > 0 \<longrightarrow> (\<exists>t. isteps s t \<and> is_returned t = is_returned s + 1)) \<and>
     (is_returned s > 0 \<longrightarrow> is_spawned s' = [] \<and> is_running s' = [] \<and> is_log s' = is_log s)"
proof (intro conjI impI)
  note ok = reachable_ok [OF assms(1,2)]
  show "set (is_spawned s' @ is_log s') \<subseteq> set (is_spawned s @ is_log s)" if "sf_shuttingDown (is_factory s)"
    using shutting_steps [OF assms(3) that] by blast
  show "\<exists>t. isteps s t \<and> is_returned t = is_returned s + 1" if "is_waiting s > 0"
  proof -
    from goroutines_end [OF ok] obtain t where t: "isteps s t" "wait_over (is_factory t)" "is_waiting t = is_waiting s"
      "is_returned t = is_returned s" by blast
    from istep.return [of t] t that isteps.more [OF t(1)] show ?thesis by fastforce
  qed
  assume "is_returned s > 0"
  moreover from isteps_keep_ok [OF assms(3) ok] have "system_ok s'" .
  moreover note returned_mono [OF assms(3)]
  ultimately show "is_spawned s' = []" "is_running s' = []" by (auto simp: system_ok_def)
  from \<open>is_returned s > 0\<close> ok have "sf_shuttingDown (is_factory s)" "is_spawned s = []" by (auto simp: system_ok_def)
  with shutting_steps [OF assms(3)] show "is_log s' = is_log s" by blast
qed

section \<open>Sharing\<close>

text \<open>What no step changes: the configuration of the factory, its entries and the informers they point to.\<close>

definition same_config :: "('w, 'i) sharedInformerFactory \<Rightarrow> ('w, 'i) sharedInformerFactory \<Rightarrow> bool" where
  "same_config f f' \<longleftrightarrow> sf_client f' = sf_client f \<and> sf_namespace f' = sf_namespace f \<and>
     sf_tweakListOptions f' = sf_tweakListOptions f \<and> sf_defaultResync f' = sf_defaultResync f \<and>
     sf_customResync f' = sf_customResync f \<and> sf_transform f' = sf_transform f"

definition extends :: "('w, 'i) informer_system \<Rightarrow> ('w, 'i) informer_system \<Rightarrow> bool" where
  "extends s s' \<longleftrightarrow> same_config (is_factory s) (is_factory s') \<and>
     (\<exists>es. sf_informers (is_factory s') = sf_informers (is_factory s) @ es) \<and> (\<exists>g. is_heap s' = is_heap s @ g)"

lemma extends_refl: "extends s s"
  by (simp add: extends_def same_config_def)

lemma extends_trans: "extends s1 s2 \<Longrightarrow> extends s2 s3 \<Longrightarrow> extends s1 s3"
  by (auto simp: extends_def same_config_def)

lemma start_loop_config:
  "start_loop es f = (gs, f') \<Longrightarrow> same_config f f' \<and> sf_informers f' = sf_informers f"
proof (induction es arbitrary: f gs)
  case Nil
  then show ?case by (simp add: same_config_def)
next
  case (Cons e es)
  obtain t a where e: "e = (t, a)" by fastforce
  show ?case
  proof (cases "sf_startedInformers f t")
    case True
    with Cons e show ?thesis by simp
  next
    case False
    let ?f = "f\<lparr>sf_wg := sf_wg f + 1, sf_startedInformers := (sf_startedInformers f)(t := True)\<rparr>"
    from False e Cons.prems obtain gs' where "start_loop es ?f = (gs', f')" by (auto split: prod.splits)
    from Cons.IH [OF this] show ?thesis by (simp add: same_config_def)
  qed
qed

lemma istep_extends:
  assumes "istep s e s'" shows "extends s s'"
  using assms
proof (cases rule: istep.cases)
  case (informer_for newFunc t a f h)
  from informer_for(4,3) show ?thesis
  proof (cases rule: InformerFor_cases)
    case old
    with informer_for(2) extends_refl [of s] show ?thesis by simp
  next
    case new
    then have "h = is_heap s @ drop (length (is_heap s)) h" by (metis append_take_drop_id)
    with new informer_for(2) show ?thesis
      by (auto simp: extends_def same_config_def)
  qed
next
  case (start gs f)
  then have "same_config (is_factory s) f \<and> sf_informers f = sf_informers (is_factory s)"
    using start_loop_config by (auto simp: informers_Start_def same_config_def split: if_splits)
  with start show ?thesis by (simp add: extends_def)
qed (simp_all add: extends_def same_config_def mark_shutdown_def)

lemma isteps_extend: "isteps s s' \<Longrightarrow> extends s s'"
  by (induction rule: isteps.induct) (auto intro: extends_refl extends_trans istep_extends)

text \<open>The informer of this resource, asked for through the factory.\<close>

definition the_Informer ::
  "('w, 'i) sharedInformerFactory \<times> ('w, 'i) informer_heap \<Rightarrow>
   nat \<times> ('w, 'i) sharedInformerFactory \<times> ('w, 'i) informer_heap" where
  "the_Informer s = pps_Informer (version_PersistentPodStates (group_V1alpha1 (factory_Apps (fst s)))) s"

lemmas the_Informer_defs = the_Informer_def pps_Informer_def version_PersistentPodStates_def group_V1alpha1_def
  version_New_def factory_Apps_def group_New_def InformerFor_def

lemma the_Informer_new:
  assumes "map_of (sf_informers f) ''PersistentPodState'' = None"
  shows "the_Informer (f, h) =
     (length h, f\<lparr>sf_informers := sf_informers f @ [(''PersistentPodState'', length h)]\<rparr>,
      h @ [\<lparr>inf_ListFunc = (\<lambda>options. pi_List (sf_client f (sf_namespace f)) (tweaked (sf_tweakListOptions f) options)),
        inf_WatchFunc = (\<lambda>options. pi_Watch (sf_client f (sf_namespace f)) (tweaked (sf_tweakListOptions f) options)),
        inf_objectType = ''PersistentPodState'',
        inf_resync = (case sf_customResync f ''PersistentPodState'' of Some x \<Rightarrow> x | None \<Rightarrow> sf_defaultResync f),
        inf_indexers = [''namespace''], inf_transform = sf_transform f\<rparr>])"
  using assms by (simp add: the_Informer_defs defaultInformer_def NewFilteredPersistentPodStateInformer_def
      NewSharedIndexInformer_def SetTransform_def nth_append)

lemma the_Informer_old:
  "map_of (sf_informers f) ''PersistentPodState'' = Some a \<Longrightarrow> the_Informer (f, h) = (a, f, h)"
  by (simp add: the_Informer_defs)

lemma new_factory_config:
  "isteps (new_system f h) s \<Longrightarrow> same_config f (is_factory s)"
  using isteps_extend [of "new_system f h" s] by (simp add: extends_def new_system_def)

text \<open>
  C23. All users of a factory share one informer of the resource. The first request for it makes an
  informer that lists and watches in the factory's namespace with its filter on the options, resyncs in
  the period configured for the type, else in the default period, and has the factory's transform. Whatever
  is done with the factory after that, the next request through \<^verbatim>\<open>Apps().V1alpha1().PersistentPodStates()\<close>
  and \<^verbatim>\<open>ForResource\<close> for the resource both return that informer and change nothing; \<^verbatim>\<open>ForResource\<close> for
  any other resource is an error.
\<close>

theorem informer_is_shared:
  assumes "isteps (new_system f0 h0) s" and "map_of (sf_informers (is_factory s)) ''PersistentPodState'' = None"
    and "the_Informer (is_factory s, is_heap s) = (a, f, h)" and "isteps (s\<lparr>is_factory := f, is_heap := h\<rparr>) s'"
  shows "is_heap s' ! a =
     \<lparr>inf_ListFunc = (\<lambda>options. pi_List (sf_client f0 (sf_namespace f0)) (tweaked (sf_tweakListOptions f0) options)),
      inf_WatchFunc = (\<lambda>options. pi_Watch (sf_client f0 (sf_namespace f0)) (tweaked (sf_tweakListOptions f0) options)),
      inf_objectType = ''PersistentPodState'',
      inf_resync = (case sf_customResync f0 ''PersistentPodState'' of Some x \<Rightarrow> x | None \<Rightarrow> sf_defaultResync f0),
      inf_indexers = [''namespace''], inf_transform = sf_transform f0\<rparr> \<and>
     the_Informer (is_factory s', is_heap s') = (a, is_factory s', is_heap s') \<and>
     ForResource r (is_factory s', is_heap s') =
       (if r = (''apps.clay.io'', ''v1alpha1'', ''persistentpodstates'')
        then Inr \<lparr>gi_informer = a, gi_resource = (''apps.clay.io'', ''persistentpodstates'')\<rparr>
        else Inl (''no informer found for '' @ show_gvr r), is_factory s', is_heap s')"
proof -
  note new = assms(3) [unfolded the_Informer_new [OF assms(2)]]
  have c: "same_config f0 (is_factory s)" by (rule new_factory_config [OF assms(1)])
  have x: "extends (s\<lparr>is_factory := f, is_heap := h\<rparr>) s'" by (rule isteps_extend [OF assms(4)])
  from x new have "map_of (sf_informers (is_factory s')) ''PersistentPodState'' = Some a"
    using assms(2) by (auto simp: extends_def map_add_Some_iff)
  note old = the_Informer_old [OF this, of "is_heap s'"]
  moreover have "is_heap s' ! a = h ! a" using x new by (auto simp: extends_def nth_append)
  moreover have "ForResource r (is_factory s', is_heap s') =
       (if r = (''apps.clay.io'', ''v1alpha1'', ''persistentpodstates'')
        then Inr \<lparr>gi_informer = a, gi_resource = (''apps.clay.io'', ''persistentpodstates'')\<rparr>
        else Inl (''no informer found for '' @ show_gvr r), is_factory s', is_heap s')"
    using old by (simp add: ForResource_def the_Informer_def WithResource_def SchemeGroupVersion_def)
  ultimately show ?thesis using new c by (auto simp: same_config_def nth_append cong: option.case_cong)
qed

end
