(* ===== verification/Reference_Clients.thy ===== *)
theory Reference_Clients
  imports Informer_Factory
begin

text \<open>
  A server that keeps PersistentPodStates in a map, an object tracker that keeps them in a list with the
  reaction chain of \<^verbatim>\<open>testing.Fake\<close>, and a cache: they satisfy \<open>rest_ok\<close>, \<open>tracker_ok\<close> and \<open>cache_ok\<close>, so
  that the theorems on the typed client, its fake, the listers and the informers can be applied.
\<close>

section \<open>A server\<close>

type_synonym ref_objects = "string \<times> string \<Rightarrow> PersistentPodState option"

definition ref_view :: "ref_objects \<Rightarrow> string \<times> string \<Rightarrow> PersistentPodState option" where
  "ref_view w k = (case w k of None \<Rightarrow> None | Some p \<Rightarrow> if pps_key p = k then Some p else None)"

text \<open>It rejects what the schema does not accept, and a delete waits for finalizers.\<close>

definition ref_finalized :: "PersistentPodState \<Rightarrow> bool" where
  "ref_finalized p \<longleftrightarrow> om_rest (pps_Meta p) = ''finalizers''"

definition ref_send ::
  "rest_verb \<Rightarrow> rest_request \<Rightarrow> PersistentPodState \<Rightarrow> ref_objects \<Rightarrow> (PersistentPodState \<times> go_error) \<times> ref_objects" where
  "ref_send verb q z w =
     (let k = (rq_Namespace q, rq_Name q) in
      case verb of
        VGet \<Rightarrow> (case ref_view w k of None \<Rightarrow> ((z, Some (NotFound (rq_Name q))), w) | Some p \<Rightarrow> ((p, None), w))
      | VPost \<Rightarrow>
          (case rq_Body q of
             Some (ObjectBody (Some p)) \<Rightarrow>
               if \<not> plain_spec (pps_Spec p) then ((z, Some (ServerError ''invalid'')), w)
               else if ref_view w (pps_key p) = None
               then ((p\<lparr>pps_Status := zero_Status\<rparr>, None), w(pps_key p \<mapsto> p\<lparr>pps_Status := zero_Status\<rparr>))
               else ((z, Some (AlreadyExists (om_Name (pps_Meta p)))), w)
           | _ \<Rightarrow> ((z, Some (ServerError ''body'')), w))
      | VPut \<Rightarrow>
          (case (rq_Body q, ref_view w k) of
             (Some (ObjectBody (Some p)), Some old) \<Rightarrow>
               (let p' = (if rq_SubResource q = [''status''] then old\<lparr>pps_Status := pps_Status p\<rparr>
                          else p\<lparr>pps_Status := pps_Status old\<rparr>)
                in ((p', None), w(k \<mapsto> p')))
           | _ \<Rightarrow> ((z, Some (NotFound (rq_Name q))), w))
      | _ \<Rightarrow> ((z, Some (ServerError ''verb'')), w))"

definition ref_rest :: "(ref_objects, unit) rest_interface" where
  "ref_rest = \<lparr>
     Into_PPS = (\<lambda>verb calls. ref_send verb (request_of calls)),
     Into_List = (\<lambda>verb calls z w. ((z, None), w)),
     Do_Error = (\<lambda>verb calls w.
       (let q = request_of calls; k = (rq_Namespace q, rq_Name q) in
        case ref_view w k of
          None \<Rightarrow> (Some (NotFound (rq_Name q)), w)
        | Some p \<Rightarrow> if ref_finalized p then (None, w) else (None, w(k := None)))),
     Do_Watch = (\<lambda>verb calls w. ((Some (), None), w))\<rparr>"

lemma ref_view_upd [simp]:
  "pps_key p = k \<Longrightarrow> ref_view (w(k \<mapsto> p)) = (ref_view w)(k \<mapsto> p)"
  "ref_view (w(k := None)) = (ref_view w)(k := None)"
  by (auto simp: ref_view_def fun_eq_iff)

lemma ref_view_key: "ref_view w k = Some p \<Longrightarrow> pps_key p = k"
  by (auto simp: ref_view_def split: option.splits if_splits)

lemma ref_rest_ok: "rest_ok ref_rest ref_view (\<lambda>n. n \<noteq> []) ref_finalized ns"
  unfolding rest_ok_def
proof (intro conjI)
  show "rest_reads_ok ref_rest ref_view (\<lambda>n. n \<noteq> []) ns"
    by (simp add: rest_reads_ok_def ref_rest_def ref_send_def addresses_def)
  have "\<not> ref_finalized (new_PPS ns n s\<lparr>pps_Status := zero_Status\<rparr>)" for n s
    by (simp add: ref_finalized_def new_PPS_def zero_meta_def)
  moreover have "pps_key (new_PPS ns n s\<lparr>pps_Status := zero_Status\<rparr>) = (ns, n)" for n s
    by (simp add: pps_key_def new_PPS_def)
  ultimately show "rest_creates_ok ref_rest ref_view (\<lambda>n. n \<noteq> []) ref_finalized ns"
    by (auto simp: rest_creates_ok_def ref_rest_def ref_send_def addresses_def sends_def new_PPS_def)
  show "rest_deletes_ok ref_rest ref_view (\<lambda>n. n \<noteq> []) ref_finalized ns"
    by (auto simp: rest_deletes_ok_def ref_rest_def addresses_def Let_def split: option.split)
  have "pps_key (old\<lparr>pps_Status := st\<rparr>) = pps_key old" "ref_finalized (old\<lparr>pps_Status := st\<rparr>) = ref_finalized old" for old st
    by (simp_all add: pps_key_def ref_finalized_def)
  then show "rest_updates_ok ref_rest ref_view (\<lambda>n. n \<noteq> []) ref_finalized ns"
    by (auto simp: rest_updates_ok_def ref_rest_def ref_send_def addresses_def sends_def Let_def
        dest: ref_view_key)
qed

interpretation ref_server: rest_store ref_rest ref_view "\<lambda>n. n \<noteq> []" ref_finalized ns for ns
  by unfold_locales (rule ref_rest_ok)

section \<open>A tracker\<close>

type_synonym ref_tracked = "((gvr \<times> string \<times> string) \<times> runtime_object) list"

type_synonym ref_fake =
  "(string \<times> string \<times> ref_tracked reaction) list \<times> (string \<times> (ref_tracked, unit) watch_reaction) list"

fun ref_add :: "runtime_object \<Rightarrow> ref_tracked \<Rightarrow> go_error \<times> ref_tracked"
  and ref_add_all :: "runtime_object list \<Rightarrow> ref_tracked \<Rightarrow> go_error \<times> ref_tracked" where
  "ref_add (ObjPPS (Some p)) w = (None, ((persistentpodstatesResource, pps_key p), ObjPPS (Some p)) # w)"
| "ref_add (ObjList (Some l)) w =
     (None, map (\<lambda>p. ((persistentpodstatesResource, pps_key p), ObjPPS (Some p)))
        (case Items l of None \<Rightarrow> [] | Some objs \<Rightarrow> objs) @ w)"
| "ref_add (ObjOther g x) w = (None, ((g, ''default'', x), ObjOther g x) # w)"
| "ref_add (ObjOtherList xs) w = ref_add_all xs w"
| "ref_add (ObjPPS None) w = (Some (ServerError ''nil object''), w)"
| "ref_add (ObjList None) w = (Some (ServerError ''nil object''), w)"
| "ref_add_all [] w = (None, w)"
| "ref_add_all (x # xs) w = (case ref_add x w of (Some err, w1) \<Rightarrow> (Some err, w1) | (None, w1) \<Rightarrow> ref_add_all xs w1)"

fun pps_of :: "runtime_object \<Rightarrow> PersistentPodState list" where
  "pps_of (ObjPPS (Some p)) = [p]"
| "pps_of _ = []"

definition ref_found :: "ref_tracked \<Rightarrow> gvr \<Rightarrow> string \<Rightarrow> string \<Rightarrow> runtime_object option \<times> go_error" where
  "ref_found w g ns n = (case map_of w (g, ns, n) of None \<Rightarrow> (None, Some (NotFound n)) | Some x \<Rightarrow> (Some x, None))"

fun ref_react :: "ref_tracked reaction" where
  "ref_react (GetAction g ns n) w = ((True, ref_found w g ns n), w)"
| "ref_react (ListAction g k ns opts) w =
     ((True, Some (ObjList (Some \<lparr>ListMeta = [],
        Items = Some (concat (map (\<lambda>(key, x). if fst key = g \<and> (ns = [] \<or> fst (snd key) = ns) then pps_of x else []) w))\<rparr>)),
        None), w)"
| "ref_react (CreateAction g ns (Some p)) w =
     (let k = (g, ns, om_Name (pps_Meta p)) in
      if om_Namespace (pps_Meta p) \<noteq> ns then ((True, None, Some (ServerError ''namespace'')), w)
      else if map_of w k \<noteq> None then ((True, None, Some (AlreadyExists (om_Name (pps_Meta p)))), w)
      else ((True, Some (ObjPPS (Some p)), None), (k, ObjPPS (Some p)) # w))"
| "ref_react (UpdateAction g sub ns (Some p)) w =
     (let k = (g, ns, om_Name (pps_Meta p)) in
      if om_Namespace (pps_Meta p) \<noteq> ns then ((True, None, Some (ServerError ''namespace'')), w)
      else if map_of w k = None then ((True, None, Some (NotFound (om_Name (pps_Meta p)))), w)
      else ((True, Some (ObjPPS (Some p)), None), (k, ObjPPS (Some p)) # w))"
| "ref_react (DeleteAction g ns n opts) w =
     (if map_of w (g, ns, n) = None then ((True, None, Some (NotFound n)), w)
      else ((True, None, None), filter (\<lambda>e. fst e \<noteq> (g, ns, n)) w))"
| "ref_react (PatchAction g ns n pt data sub) w = ((True, ref_found w g ns n), w)"
| "ref_react _ w = ((False, None, Some (ServerError ''no reaction'')), w)"

fun ref_chain :: "(string \<times> string \<times> ref_tracked reaction) list \<Rightarrow> fake_action \<Rightarrow> runtime_object \<Rightarrow> ref_tracked \<Rightarrow>
  (runtime_object option \<times> go_error) \<times> ref_tracked" where
  "ref_chain [] a d w = ((Some d, None), w)"
| "ref_chain ((v, res, f) # fs) a d w =
     (if v = ''*'' \<and> res = ''*'' then
        (case f a w of ((h, r, e), w1) \<Rightarrow> if h then ((r, e), w1) else ref_chain fs a d w1)
      else ref_chain fs a d w)"

fun ref_watch_chain :: "(string \<times> (ref_tracked, unit) watch_reaction) list \<Rightarrow> fake_action \<Rightarrow> ref_tracked \<Rightarrow>
  (unit option \<times> go_error) \<times> ref_tracked" where
  "ref_watch_chain [] a w = ((None, Some (ServerError ''unhandled watch'')), w)"
| "ref_watch_chain ((res, f) # fs) a w =
     (if res = ''*'' then (case f a w of ((h, r, e), w1) \<Rightarrow> if h then ((r, e), w1) else ref_watch_chain fs a w1)
      else ref_watch_chain fs a w)"

definition ref_testing :: "(unit, ref_tracked, ref_fake, unit) testing_api" where
  "ref_testing = \<lparr>NewObjectTracker = (\<lambda>_. []), tracker_Add = ref_add, ObjectReaction = ref_react,
     tracker_Watch = (\<lambda>g ns w. ((Some (), None), w)), zero_Fake = ([], []),
     AddReactor = (\<lambda>v r f (c, d). (c @ [(v, r, f)], d)), AddWatchReactor = (\<lambda>r f (c, d). (c, d @ [(r, f)])),
     Invokes = (\<lambda>(c, d). ref_chain c), InvokesWatch = (\<lambda>(c, d). ref_watch_chain d),
     ExtractFromListOptions = (\<lambda>_. Some (\<lambda>_. True)), labels_Everything = (\<lambda>_. True)\<rparr>"

lemma map_of_dropped: "map_of (filter (\<lambda>e. fst e \<noteq> k) w) = (map_of w)(k := None)"
  by (induction w) (auto simp: fun_eq_iff)

lemma map_of_items:
  "map_of (map (\<lambda>p. ((persistentpodstatesResource, pps_key p), ObjPPS (Some p))) objs) k = Some x \<Longrightarrow>
     \<exists>p \<in> set objs. k = (persistentpodstatesResource, pps_key p) \<and> x = ObjPPS (Some p)"
  by (induction objs) (auto split: if_splits)

lemma ref_add_parts:
  "ref_add obj w = (None, w') \<Longrightarrow> map_of w' k = Some x \<Longrightarrow>
     map_of w k = Some x \<or> x \<in> parts obj \<and> held_as x (fst k) (fst (snd k)) (snd (snd k))"
  "ref_add_all objs w = (None, w') \<Longrightarrow> map_of w' k = Some x \<Longrightarrow>
     map_of w k = Some x \<or> (\<exists>obj \<in> set objs. x \<in> parts obj) \<and> held_as x (fst k) (fst (snd k)) (snd (snd k))"
proof (induction obj w and objs w arbitrary: w' and w' rule: ref_add_ref_add_all.induct)
  case (2 l w)
  then show ?case by (auto split: option.splits simp: map_add_Some_iff dest!: map_of_items)
next
  case (8 x xs w)
  from 8(3) obtain w1 where "ref_add x w = (None, w1)" "ref_add_all xs w1 = (None, w')" by (auto split: call_splits)
  with 8 show ?case by fastforce
qed (auto split: if_splits)

lemma ref_adds_ok: "tracker_adds_ok ref_testing map_of"
  using ref_add_parts(1) [of _ _ _ "(g, ns, n)" for g ns n]
  unfolding tracker_adds_ok_def ref_testing_def by fastforce

lemma well_typed_PPS: "well_typed stored w \<Longrightarrow> stored w (persistentpodstatesResource, ns, n) = Some x \<Longrightarrow> \<exists>p. x = ObjPPS (Some p)"
  unfolding well_typed_def by blast

lemma ref_react_typed:
  assumes "well_typed map_of w" and "action_GetResource a = persistentpodstatesResource"
    and "ref_react a w = ((h, r, e), w')"
  shows "well_typed map_of w' \<and> (h \<longrightarrow> (\<forall>x. r = Some x \<longrightarrow> answer_type a x))"
proof (cases "(a, w)" rule: ref_react.cases)
  case (1 g ns n w)
  with assms well_typed_PPS [OF assms(1)] show ?thesis by (auto simp: ref_found_def split: option.splits)
next
  case (6 g ns n pt data sub w)
  with assms well_typed_PPS [OF assms(1)] show ?thesis by (auto simp: ref_found_def split: option.splits)
qed (use assms in \<open>auto simp: well_typed_def map_of_dropped pps_key_def Let_def split: if_splits\<close>)

lemma ref_types_ok: "tracker_types_ok ref_testing map_of"
  using ref_react_typed by (auto simp: tracker_types_ok_def ref_testing_def)

lemma ref_tracker_ok: "tracker_ok ref_testing map_of"
  unfolding tracker_ok_def
proof (intro conjI ref_adds_ok ref_types_ok)
  show "tracker_gets_ok ref_testing map_of"
    by (simp add: tracker_gets_ok_def ref_testing_def ref_found_def)
  have "\<exists>w'. if map_of w (persistentpodstatesResource, ns, n) = None
      then ref_react (CreateAction persistentpodstatesResource ns (Some p)) w = ((True, Some (ObjPPS (Some p)), None), w') \<and>
        map_of w' = (map_of w)((persistentpodstatesResource, ns, n) \<mapsto> ObjPPS (Some p))
      else ref_react (CreateAction persistentpodstatesResource ns (Some p)) w = ((True, None, Some (AlreadyExists n)), w') \<and>
        map_of w' = map_of w" if "pps_key p = (ns, n)" for p ns n w
    using that by (cases "map_of w (persistentpodstatesResource, ns, n)") (auto simp: pps_key_def Let_def)
  moreover have "ObjectReaction ref_testing = ref_react" by (simp add: ref_testing_def)
  ultimately show "tracker_creates_ok ref_testing map_of"
    unfolding tracker_creates_ok_def by (metis (no_types, lifting))
  show "tracker_updates_ok ref_testing map_of"
    by (auto simp: tracker_updates_ok_def ref_testing_def pps_key_def Let_def)
  show "tracker_deletes_ok ref_testing map_of"
    by (auto simp: tracker_deletes_ok_def ref_testing_def map_of_dropped)
  show "chain_ok ref_testing map_of"
    by (auto simp: chain_ok_def ref_testing_def split: prod.splits)
qed

interpretation ref_fake: fake_store ref_testing map_of ns for ns
  by unfold_locales (rule ref_tracker_ok)

section \<open>A cache\<close>

fun first_of_key :: "PersistentPodState list \<Rightarrow> PersistentPodState list" where
  "first_of_key [] = []"
| "first_of_key (p # ps) = p # filter (\<lambda>q. meta_key q \<noteq> meta_key p) (first_of_key ps)"

definition ref_cache :: "PersistentPodState list cache_api" where
  "ref_cache = \<lparr>
     GetByKey = (\<lambda>x k. case find (\<lambda>p. meta_key p = k) (first_of_key x) of
        None \<Rightarrow> ((None, False), None) | Some p \<Rightarrow> ((Some (ObjPPS (Some p)), True), None)),
     ListAll = (\<lambda>x sel. (map (\<lambda>p. ObjPPS (Some p)) (filter (\<lambda>p. sel (om_Labels (pps_Meta p))) (first_of_key x)), None)),
     ListAllByNamespace = (\<lambda>x ns sel. (map (\<lambda>p. ObjPPS (Some p))
        (filter (\<lambda>p. sel (om_Labels (pps_Meta p)) \<and> (ns = [] \<or> om_Namespace (pps_Meta p) = ns)) (first_of_key x)), None))\<rparr>"

lemma first_of_key_distinct: "distinct (first_of_key x) \<and> inj_on meta_key (set (first_of_key x))"
  by (induction x) (auto simp: inj_on_def)

lemma find_key:
  assumes "inj_on meta_key (set xs)" and "p \<in> set xs"
  shows "find (\<lambda>q. meta_key q = meta_key p) xs = Some p"
proof (cases "find (\<lambda>q. meta_key q = meta_key p) xs")
  case None
  with assms(2) show ?thesis by (auto simp: find_None_iff)
next
  case (Some q)
  then have "q \<in> set xs" "meta_key q = meta_key p" by (auto simp: find_Some_iff)
  with assms Some show ?thesis by (auto dest: inj_onD)
qed

lemma ref_cache_ok: "cache_ok ref_cache (\<lambda>x. set (first_of_key x))"
proof -
  have "find (\<lambda>p. meta_key p = k) xs = None" if "k \<notin> meta_key ` set xs" for k xs
    using that by (auto simp: find_None_iff)
  then show ?thesis
    unfolding cache_ok_def ref_cache_def
    using first_of_key_distinct find_key by (auto 0 3)
qed

section \<open>Applications\<close>

definition web_state :: PersistentPodState where
  "web_state = new_PPS ''default'' ''web'' zero_Spec"

definition foreign_pps :: runtime_object where
  "foreign_pps = ObjOther persistentpodstatesResource ''web''"

definition no_options :: list_options where
  "no_options = \<lparr>lo_LabelSelector = [], lo_FieldSelector = [], lo_Watch = False, lo_TimeoutSeconds = None, lo_rest = []\<rparr>"

definition some_calls :: "(string \<times> api_call) list" where
  "some_calls = [(''default'', MGet ''web'' []), (''default'', MList no_options),
     (''other'', MCreate (Some (new_PPS ''other'' ''db'' zero_Spec)) []), (''default'', MUpdateStatus (Some web_state) []),
     (''default'', MWatch no_options), (''default'', MDeleteCollection [] no_options), (''default'', MDelete ''web'' []),
     (''default'', MPatch ''web'' [] [] [] [])]"

text \<open>A list of another Go type that holds an object of the group.\<close>

definition some_objects :: "runtime_object list" where
  "some_objects = [ObjOtherList [ObjPPS (Some web_state), ObjOther ([], ''v1'', ''pods'') ''web-0'']]"

theorem fake_never_panics_witness:
  "\<exists>cs w. NewSimpleClientset ref_testing () some_objects = (Ok cs, w) \<and>
     \<not> fst (call_methods (fake_PersistentPodStates ref_testing (fake_AppsV1alpha1 cs)) some_calls w) \<and>
     fst (panicked (pi_Get (fake_PersistentPodStates ref_testing (fake_AppsV1alpha1 cs) ''default'') ''web'' []
       (snd (ref_add (ObjOtherList [foreign_pps]) []))))"
proof -
  obtain cs w where n: "NewSimpleClientset ref_testing () some_objects = (Ok cs, w)"
    by (simp add: NewSimpleClientset_def ref_testing_def some_objects_def)
  let ?w = "snd (ref_add (ObjOtherList [foreign_pps]) [])"
  have "\<not> fst (call_methods (fake_PersistentPodStates ref_testing (fake_AppsV1alpha1 cs)) some_calls w) \<and>
     (fst (panicked (pi_Get (fake_PersistentPodStates ref_testing (fake_AppsV1alpha1 cs) ''default'') ''web'' [] ?w)) \<longleftrightarrow>
       (\<exists>x. map_of ?w (persistentpodstatesResource, ''default'', ''web'') = Some x \<and> (\<forall>p. x \<noteq> ObjPPS p)))"
    by (rule fake_never_panics [OF ref_tracker_ok n])
      (simp_all add: some_objects_def persistentpodstatesResource_def WithResource_def SchemeGroupVersion_def some_calls_def)
  with n show ?thesis by (auto simp: foreign_pps_def)
qed

definition a_status :: PersistentPodStateStatus where
  "a_status = zero_Status\<lparr>ObservedGeneration := 7\<rparr>"

definition a_script :: "command list" where
  "a_script = [CGet ''web'', CCreate ''web'' zero_Spec, CCreate ''web'' zero_Spec, CSetStatus ''web'' a_status, CGet ''web'',
     CDelete ''web'', CSetStatus ''web'' a_status]"

theorem fake_agrees_with_typed_witness:
  "fst (run_script (fake_client ref_testing ''default'') ''default'' a_script []) =
     fst (run_script (typed_client ref_rest ''default'') ''default'' a_script Map.empty) \<and>
   fst (run_script (typed_client ref_rest ''default'') ''default'' a_script Map.empty) =
     [Refused (NotFound ''web''), Seen zero_Spec zero_Status, Refused (AlreadyExists ''web''), Seen zero_Spec a_status,
      Seen zero_Spec a_status, Accepted, Refused (NotFound ''web'')]"
proof -
  let ?t = "run_script (typed_client ref_rest ''default'') ''default'' a_script Map.empty"
  let ?f = "run_script (fake_client ref_testing ''default'') ''default'' a_script []"
  have empty: "abs_pps ''default'' (pps_stored map_of []) = Map.empty" "abs_pps ''default'' (ref_view Map.empty) = Map.empty"
    by (auto simp: abs_pps_def pps_stored_def ref_view_def fun_eq_iff)
  have "fst ?f = fst ?t \<and> abs_pps ''default'' (pps_stored map_of (snd ?f)) = abs_pps ''default'' (ref_view (snd ?t)) \<and>
    (fst ?t, abs_pps ''default'' (ref_view (snd ?t))) = spec_script a_script (abs_pps ''default'' (ref_view Map.empty))"
  proof (rule fake_agrees_with_typed [OF ref_rest_ok ref_tracker_ok])
    show "well_typed map_of []" by (simp add: well_typed_def)
    show "plain_objects ref_view ref_finalized ''default'' Map.empty" by (simp add: plain_objects_def ref_view_def)
    show "?t = (fst ?t, snd ?t)" "?f = (fst ?f, snd ?f)" by simp_all
  qed (simp_all add: empty a_script_def plain_spec_def zero_Spec_def ascii_def plain_status_def a_status_def zero_Status_def)
  then show ?thesis by (simp add: empty a_script_def lookup_or_def prod_eq_iff)
qed

theorem lister_reads_cache_witness:
  "ns_lister_Get ref_cache (lister_PersistentPodStates (NewPersistentPodStateLister [web_state]) ''default'') ''web'' =
     Ok (Some web_state, None) \<and>
   ns_lister_Get ref_cache (lister_PersistentPodStates (NewPersistentPodStateLister [web_state]) []) ''web'' =
     Ok (None, Some (NotFound ''web'')) \<and>
   (\<exists>ps. ns_lister_List ref_cache (lister_PersistentPodStates (NewPersistentPodStateLister [web_state]) []) (\<lambda>_. True) =
     Ok (if ps = [] then None else Some (map Some ps), None) \<and> set ps = {web_state})"
proof -
  have ns: "\<And>p. p \<in> set (first_of_key [web_state]) \<Longrightarrow> namespaced p"
    by (simp add: web_state_def new_PPS_def namespaced_def)
  have m: "om_Namespace (pps_Meta web_state) = ''default''" "om_Name (pps_Meta web_state) = ''web''"
    by (simp_all add: web_state_def new_PPS_def)
  show ?thesis
    using lister_reads_cache [OF ref_cache_ok, of "[web_state]", OF ns, of "[]" "\<lambda>_. True"] m by auto
qed

section \<open>A factory from its start to its shutdown\<close>

definition demo_options :: "(ref_objects, unit) informer_option list" where
  "demo_options = [WithNamespace ''default'', WithCustomResyncConfig [(''PersistentPodState'', 30)]]"

definition demo_factory :: "(ref_objects, unit) sharedInformerFactory" where
  "demo_factory = NewSharedInformerFactoryWithOptions (typed_client ref_rest) 600 demo_options"

definition after_Informer :: "('w, 'i) informer_system \<Rightarrow> ('w, 'i) informer_system" where
  "after_Informer s = (case the_Informer (is_factory s, is_heap s) of (a, f, h) \<Rightarrow> s\<lparr>is_factory := f, is_heap := h\<rparr>)"

definition after_Start :: "('w, 'i) informer_system \<Rightarrow> ('w, 'i) informer_system" where
  "after_Start s = (case informers_Start (is_factory s) of (gs, f) \<Rightarrow> s\<lparr>is_factory := f, is_spawned := is_spawned s @ gs\<rparr>)"

definition after_Run :: "nat \<Rightarrow> ('w, 'i) informer_system \<Rightarrow> ('w, 'i) informer_system" where
  "after_Run a s = s\<lparr>is_spawned := remove1 a (is_spawned s), is_running := a # is_running s, is_log := a # is_log s\<rparr>"

definition after_Done :: "nat \<Rightarrow> ('w, 'i) informer_system \<Rightarrow> ('w, 'i) informer_system" where
  "after_Done a s = s\<lparr>is_running := remove1 a (is_running s),
     is_factory := (is_factory s)\<lparr>sf_wg := sf_wg (is_factory s) - 1\<rparr>\<rparr>"

definition after_mark :: "('w, 'i) informer_system \<Rightarrow> ('w, 'i) informer_system" where
  "after_mark s = s\<lparr>is_factory := mark_shutdown (is_factory s), is_waiting := is_waiting s + 1\<rparr>"

definition after_return :: "('w, 'i) informer_system \<Rightarrow> ('w, 'i) informer_system" where
  "after_return s = s\<lparr>is_waiting := is_waiting s - 1, is_returned := is_returned s + 1\<rparr>"

lemmas after_defs = after_Informer_def after_Start_def after_Run_def after_Done_def after_mark_def after_return_def

lemma after_steps:
  "\<exists>a. istep s (EInformerFor ''PersistentPodState'' a) (after_Informer s)"
  "istep s EStart (after_Start s)"
  "a \<in> set (is_spawned s) \<Longrightarrow> istep s (ERun a) (after_Run a s)"
  "a \<in> set (is_running s) \<Longrightarrow> istep s (EDone a) (after_Done a s)"
  "istep s EShutdown (after_mark s)"
  "is_waiting s > 0 \<Longrightarrow> wait_over (is_factory s) \<Longrightarrow> istep s EReturn (after_return s)"
proof -
  obtain a f h where i: "the_Informer (is_factory s, is_heap s) = (a, f, h)" by (metis prod_cases3)
  from istep.informer_for [OF defaultInformer_allocates i [unfolded the_Informer_def pps_Informer_def]] i
  show "\<exists>a. istep s (EInformerFor ''PersistentPodState'' a) (after_Informer s)"
    by (auto simp: after_Informer_def)
  show "istep s EStart (after_Start s)"
    using istep.start [of s] by (auto simp: after_Start_def split: prod.split)
qed (simp_all add: after_defs istep.intros [simplified])

definition demo1 :: "(ref_objects, unit) informer_system" where
  "demo1 = after_Informer (new_system demo_factory [])"

definition demo2 :: "(ref_objects, unit) informer_system" where
  "demo2 = after_Run 0 (after_Start demo1)"

definition demo3 :: "(ref_objects, unit) informer_system" where
  "demo3 = after_return (after_Done 0 (after_mark demo2))"

lemma demo_factory_simps [simp]:
  "sf_informers demo_factory = []" "sf_startedInformers demo_factory = (\<lambda>_. False)" "sf_wg demo_factory = 0"
  "sf_shuttingDown demo_factory = False" "sf_client demo_factory = typed_client ref_rest"
  "sf_namespace demo_factory = ''default''" "sf_tweakListOptions demo_factory = None"
  "sf_customResync demo_factory ''PersistentPodState'' = Some 30" "sf_transform demo_factory = None"
  by (simp_all add: demo_factory_def demo_options_def NewSharedInformerFactoryWithOptions_def WithNamespace_def
      WithCustomResyncConfig_def)

lemma demo1_simps [simp]:
  "sf_informers (is_factory demo1) = [(''PersistentPodState'', 0)]" "sf_startedInformers (is_factory demo1) = (\<lambda>_. False)"
  "sf_wg (is_factory demo1) = 0" "sf_shuttingDown (is_factory demo1) = False"
  "is_spawned demo1 = []" "is_running demo1 = []" "is_log demo1 = []" "is_waiting demo1 = 0" "is_returned demo1 = 0"
  by (simp_all add: demo1_def after_Informer_def new_system_def the_Informer_new)

lemma demo2_simps [simp]:
  "sf_informers (is_factory demo2) = [(''PersistentPodState'', 0)]" "sf_wg (is_factory demo2) = 1"
  "sf_shuttingDown (is_factory demo2) = False" "is_spawned demo2 = []" "is_running demo2 = [0]" "is_log demo2 = [0]"
  "is_waiting demo2 = 0" "is_returned demo2 = 0" "is_spawned (after_Start demo1) = [0]"
  by (simp_all add: demo2_def after_defs informers_Start_def)

lemma demo_steps:
  "isteps (new_system demo_factory []) demo1" "isteps demo1 demo2" "isteps demo2 demo3"
proof -
  show "isteps (new_system demo_factory []) demo1" using after_steps(1) isteps_one by (metis demo1_def)
  have "isteps demo1 (after_Start demo1)" by (rule isteps_one [OF after_steps(2)])
  then show "isteps demo1 demo2" unfolding demo2_def by (rule isteps.more) (rule after_steps(3), simp)
  have "isteps demo2 (after_mark demo2)" by (rule isteps_one [OF after_steps(5)])
  then have "isteps demo2 (after_Done 0 (after_mark demo2))"
    by (rule isteps.more) (rule after_steps(4), simp add: after_mark_def)
  then show "isteps demo2 demo3" unfolding demo3_def
    by (rule isteps.more) (rule after_steps(6), simp_all add: after_defs wait_over_def mark_shutdown_def)
qed

lemma demo_known: "list_all known_option demo_options"
  by (simp add: demo_options_def known_option_def) blast

theorem informers_run_once_witness:
  "isteps (new_system demo_factory []) demo2 \<and> distinct (is_log demo2) \<and> set (is_log demo2) \<subseteq> {0} \<and>
   sf_wg (is_factory demo2) = 1 \<and>
   set (is_spawned (after_Start demo2) @ is_log (after_Start demo2)) = {0} \<and>
   map fst (informers_WaitForCacheSync (\<lambda>_. True) (is_factory (after_Start demo2))) =
     map fst (sf_informers (is_factory (after_Start demo2)))"
proof -
  have r: "isteps (new_system (NewSharedInformerFactoryWithOptions (typed_client ref_rest) 600 demo_options) []) demo2"
    using isteps_trans [OF demo_steps(2,1)] by (simp add: demo_factory_def)
  have "sf_informers (is_factory (after_Start demo2)) = [(''PersistentPodState'', 0)]"
    by (simp add: after_Start_def informers_Start_def)
  with informers_run_once [OF demo_known r, of "\<lambda>_. True"] after_steps(2) [of demo2] r show ?thesis
    by (simp add: demo_factory_def)
qed

theorem shutdown_is_final_witness:
  "is_returned demo3 = 1 \<and> isteps demo3 (after_Start demo3) \<and>
   is_spawned (after_Start demo3) = [] \<and> is_running (after_Start demo3) = [] \<and> is_log (after_Start demo3) = [0]"
proof -
  have r: "isteps (new_system (NewSharedInformerFactoryWithOptions (typed_client ref_rest) 600 demo_options) []) demo3"
    using isteps_trans [OF demo_steps(3) isteps_trans [OF demo_steps(2,1)]] by (simp add: demo_factory_def)
  have "is_returned demo3 = 1" "is_log demo3 = [0]" by (simp_all add: demo3_def after_defs)
  with shutdown_is_final [OF demo_known r isteps_one [OF after_steps(2)]] isteps_one [OF after_steps(2)] show ?thesis
    by simp
qed

theorem informer_is_shared_witness:
  "inf_resync (is_heap demo3 ! 0) = 30 \<and>
   inf_ListFunc (is_heap demo3 ! 0) no_options Map.empty = pi_List (typed_client ref_rest ''default'') no_options Map.empty \<and>
   the_Informer (is_factory demo3, is_heap demo3) = (0, is_factory demo3, is_heap demo3) \<and>
   fst (ForResource (''apps'', ''v1'', ''deployments'') (is_factory demo3, is_heap demo3)) =
     Inl ''no informer found for apps/v1, Resource=deployments''"
proof -
  let ?s0 = "new_system demo_factory []"
  obtain f h where i: "the_Informer (is_factory ?s0, is_heap ?s0) = (0, f, h)"
    by (simp add: new_system_def the_Informer_new)
  then have "demo1 = ?s0\<lparr>is_factory := f, is_heap := h\<rparr>" by (simp add: demo1_def after_Informer_def)
  with isteps_trans [OF demo_steps(3,2)] have "isteps (?s0\<lparr>is_factory := f, is_heap := h\<rparr>) demo3" by simp
  from informer_is_shared [OF isteps.refl _ i this, where r = "(''apps'', ''v1'', ''deployments'')"]
  show ?thesis by (simp add: new_system_def show_gvr_def tweaked_def)
qed

end
