(* ===== verification/Deep_Copy.thy ===== *)
theory Deep_Copy
  imports API_Types
begin

text \<open>
  \<^verbatim>\<open>api/apps/v1alpha1/zz_generated.deepcopy.go\<close> on an explicit heap. Slices, maps and pointers are
  addresses of cells, a nil one is \<^const>\<open>None\<close>; the copy functions allocate. A slice is its whole backing
  array. The metadata of objects and lists has cells too. It is copied by Kubernetes' own code, a
  parameter (\<open>meta_copiers\<close>) whose documented behaviour is \<open>meta_copy_ok\<close>. \<open>API_Types\<close> has the same
  functions on values; here it is shown that a copy has the value of its source and shares no cell
  with it.
\<close>

section \<open>The heap\<close>

record pod_ref =
  pr_NodeName :: string
  pr_NodeTopologyLabels :: "nat option"
  pr_Annotations :: "nat option"
  pr_PodIP :: string

record term_ref =
  tmr_NodeTopologyKeys :: "nat option"

text \<open>\<^verbatim>\<open>OwnerReference\<close>, \<^verbatim>\<open>ObjectMeta\<close> (\<open>mr_rest\<close> stands for its other references) and \<^verbatim>\<open>ListMeta\<close>.\<close>

record owner_ref =
  owr_APIVersion :: string
  owr_Kind :: string
  owr_Name :: string
  owr_UID :: string
  owr_Controller :: "nat option"

record meta_ref =
  mr_Name :: string
  mr_Namespace :: string
  mr_UID :: string
  mr_ResourceVersion :: string
  mr_Labels :: "nat option"
  mr_Annotations :: "nat option"
  mr_OwnerReferences :: "nat option"
  mr_rest :: "nat option"

record list_meta_ref =
  lmr_ResourceVersion :: string
  lmr_RemainingItemCount :: "nat option"

datatype cell =
    Strings "string list"
  | Annotations "PersistentPodAnnotation list"
  | StringMap "(string, string) fmap"
  | StateMap "(string \<times> pod_ref) list"
  | Term term_ref
  | States "pps_ref list"
  | Owners "owner_ref list"
  | Flag bool
  | Count "64 word"
  | Opaque opaque
and pps_ref = PPS (ref_Meta: meta_ref) (ref_Spec: spec_ref) (ref_Status: status_ref)
and spec_ref = Spec (ref_Target: TargetReference) (ref_Annotations: "nat option") (ref_Topology: "nat option")
and status_ref = Status (ref_Generation: "64 word") (ref_PodStates: "nat option")

record heap =
  cells :: "nat \<Rightarrow> cell option"
  brk :: nat

definition alloc :: "cell \<Rightarrow> heap \<Rightarrow> nat \<times> heap" where
  "alloc c H = (brk H, \<lparr>cells = (cells H)(brk H \<mapsto> c), brk = Suc (brk H)\<rparr>)"

text \<open>\<^verbatim>\<open>if in.X != nil { *out = make(...); copy }\<close> for cells that hold no address.\<close>

definition copy_flat :: "nat option \<Rightarrow> heap \<Rightarrow> nat option \<times> heap" where
  "copy_flat a H =
     (case a of
        None \<Rightarrow> (None, H)
      | Some i \<Rightarrow> (case cells H i of None \<Rightarrow> (None, H) | Some c \<Rightarrow> (case alloc c H of (j, H1) \<Rightarrow> (Some j, H1))))"

text \<open>Kubernetes' \<^verbatim>\<open>ObjectMeta.DeepCopyInto\<close> and \<^verbatim>\<open>ListMeta.DeepCopyInto\<close>.\<close>

record meta_copiers =
  ObjectMeta_DeepCopyInto :: "meta_ref \<Rightarrow> heap \<Rightarrow> meta_ref \<times> heap"
  ListMeta_DeepCopyInto :: "list_meta_ref \<Rightarrow> heap \<Rightarrow> list_meta_ref \<times> heap"

section \<open>The copy functions\<close>

definition NodeTopologyTerm_DeepCopyInto :: "term_ref \<Rightarrow> heap \<Rightarrow> term_ref \<times> heap" where
  "NodeTopologyTerm_DeepCopyInto t H =
     (case copy_flat (tmr_NodeTopologyKeys t) H of (ks, H1) \<Rightarrow> (t\<lparr>tmr_NodeTopologyKeys := ks\<rparr>, H1))"

definition PodState_DeepCopyInto :: "pod_ref \<Rightarrow> heap \<Rightarrow> pod_ref \<times> heap" where
  "PodState_DeepCopyInto p H =
     (case copy_flat (pr_NodeTopologyLabels p) H of
        (l, H1) \<Rightarrow> (case copy_flat (pr_Annotations p) H1 of
          (a, H2) \<Rightarrow> (p\<lparr>pr_NodeTopologyLabels := l, pr_Annotations := a\<rparr>, H2)))"

fun copy_states :: "(string \<times> pod_ref) list \<Rightarrow> heap \<Rightarrow> (string \<times> pod_ref) list \<times> heap" where
  "copy_states [] H = ([], H)"
| "copy_states ((key, val) # es) H =
     (case PodState_DeepCopyInto val H of
        (v, H1) \<Rightarrow> (case copy_states es H1 of (es', H2) \<Rightarrow> ((key, v) # es', H2)))"

definition PersistentPodStateStatus_DeepCopyInto :: "status_ref \<Rightarrow> heap \<Rightarrow> status_ref \<times> heap" where
  "PersistentPodStateStatus_DeepCopyInto s H =
     (case ref_PodStates s of
        None \<Rightarrow> (s, H)
      | Some i \<Rightarrow>
          (case cells H i of
             Some (StateMap es) \<Rightarrow>
               (case copy_states es H of
                  (es', H1) \<Rightarrow> (case alloc (StateMap es') H1 of (j, H2) \<Rightarrow> (Status (ref_Generation s) (Some j), H2)))
           | _ \<Rightarrow> (s, H)))"

definition PersistentPodStateSpec_DeepCopyInto :: "spec_ref \<Rightarrow> heap \<Rightarrow> spec_ref \<times> heap" where
  "PersistentPodStateSpec_DeepCopyInto s H =
     (case copy_flat (ref_Annotations s) H of
        (anns, H1) \<Rightarrow>
          (case ref_Topology s of
             None \<Rightarrow> (Spec (ref_Target s) anns None, H1)
           | Some i \<Rightarrow>
               (case cells H1 i of
                  Some (Term t) \<Rightarrow>
                    (case NodeTopologyTerm_DeepCopyInto t H1 of
                       (t', H2) \<Rightarrow> (case alloc (Term t') H2 of (j, H3) \<Rightarrow> (Spec (ref_Target s) anns (Some j), H3)))
                | _ \<Rightarrow> (s, H1))))"

definition PersistentPodState_DeepCopyInto :: "meta_copiers \<Rightarrow> pps_ref \<Rightarrow> heap \<Rightarrow> pps_ref \<times> heap" where
  "PersistentPodState_DeepCopyInto M p H =
     (case ObjectMeta_DeepCopyInto M (ref_Meta p) H of
        (meta, H1) \<Rightarrow> (case PersistentPodStateSpec_DeepCopyInto (ref_Spec p) H1 of
          (spec, H2) \<Rightarrow> (case PersistentPodStateStatus_DeepCopyInto (ref_Status p) H2 of
            (status, H3) \<Rightarrow> (PPS meta spec status, H3))))"

text \<open>\<^verbatim>\<open>DeepCopy\<close> of a pointer that may be nil.\<close>

definition PersistentPodState_DeepCopy :: "meta_copiers \<Rightarrow> pps_ref option \<Rightarrow> heap \<Rightarrow> pps_ref option \<times> heap" where
  "PersistentPodState_DeepCopy M p H =
     (case p of None \<Rightarrow> (None, H) | Some q \<Rightarrow> (case PersistentPodState_DeepCopyInto M q H of (q', H1) \<Rightarrow> (Some q', H1)))"

text \<open>The loop over \<^verbatim>\<open>Items\<close> of a list.\<close>

fun copy_items :: "meta_copiers \<Rightarrow> pps_ref list \<Rightarrow> heap \<Rightarrow> pps_ref list \<times> heap" where
  "copy_items M [] H = ([], H)"
| "copy_items M (p # ps) H =
     (case PersistentPodState_DeepCopyInto M p H of
        (p', H1) \<Rightarrow> (case copy_items M ps H1 of (ps', H2) \<Rightarrow> (p' # ps', H2)))"

record list_ref =
  lr_Meta :: list_meta_ref
  lr_Items :: "nat option"

definition PersistentPodStateList_DeepCopyInto :: "meta_copiers \<Rightarrow> list_ref \<Rightarrow> heap \<Rightarrow> list_ref \<times> heap" where
  "PersistentPodStateList_DeepCopyInto M l H =
     (case ListMeta_DeepCopyInto M (lr_Meta l) H of
        (meta, H1) \<Rightarrow>
          (let out = l\<lparr>lr_Meta := meta\<rparr> in
           case lr_Items l of
             None \<Rightarrow> (out, H1)
           | Some i \<Rightarrow>
               (case cells H1 i of
                  Some (States ps) \<Rightarrow>
                    (case copy_items M ps H1 of
                       (ps', H2) \<Rightarrow> (case alloc (States ps') H2 of (j, H3) \<Rightarrow> (out\<lparr>lr_Items := Some j\<rparr>, H3)))
                | _ \<Rightarrow> (out, H1))))"

definition PersistentPodStateList_DeepCopy :: "meta_copiers \<Rightarrow> list_ref option \<Rightarrow> heap \<Rightarrow> list_ref option \<times> heap" where
  "PersistentPodStateList_DeepCopy M l H =
     (case l of None \<Rightarrow> (None, H) | Some m \<Rightarrow> (case PersistentPodStateList_DeepCopyInto M m H of (m', H1) \<Rightarrow> (Some m', H1)))"

text \<open>The types without slices, maps and pointers: \<^verbatim>\<open>*out = *in\<close> is the whole copy.\<close>

definition PersistentPodAnnotation_DeepCopyInto :: "PersistentPodAnnotation \<Rightarrow> PersistentPodAnnotation" where
  "PersistentPodAnnotation_DeepCopyInto a = a"

definition PersistentPodAnnotation_DeepCopy :: "PersistentPodAnnotation option \<Rightarrow> PersistentPodAnnotation option" where
  "PersistentPodAnnotation_DeepCopy a = (case a of None \<Rightarrow> None | Some x \<Rightarrow> Some (PersistentPodAnnotation_DeepCopyInto x))"

definition TargetReference_DeepCopyInto :: "TargetReference \<Rightarrow> TargetReference" where
  "TargetReference_DeepCopyInto r = r"

definition TargetReference_DeepCopy :: "TargetReference option \<Rightarrow> TargetReference option" where
  "TargetReference_DeepCopy r = (case r of None \<Rightarrow> None | Some x \<Rightarrow> Some (TargetReference_DeepCopyInto x))"

text \<open>
  A \<^verbatim>\<open>runtime.Object\<close> holds a pointer, which may be nil, to one of the two types; a nil interface holds
  none. The methods return a nil interface for a nil pointer, not an interface that holds it.
\<close>

datatype runtime_object = PPSObject "pps_ref option" | PPSListObject "list_ref option"

definition PersistentPodState_DeepCopyObject :: "meta_copiers \<Rightarrow> pps_ref option \<Rightarrow> heap \<Rightarrow> runtime_object option \<times> heap" where
  "PersistentPodState_DeepCopyObject M p H =
     (case PersistentPodState_DeepCopy M p H of (c, H1) \<Rightarrow> (if c \<noteq> None then Some (PPSObject c) else None, H1))"

definition PersistentPodStateList_DeepCopyObject :: "meta_copiers \<Rightarrow> list_ref option \<Rightarrow> heap \<Rightarrow> runtime_object option \<times> heap" where
  "PersistentPodStateList_DeepCopyObject M l H =
     (case PersistentPodStateList_DeepCopy M l H of (c, H1) \<Rightarrow> (if c \<noteq> None then Some (PPSListObject c) else None, H1))"

text \<open>The call of the method on an interface value.\<close>

fun DeepCopyObject :: "meta_copiers \<Rightarrow> runtime_object \<Rightarrow> heap \<Rightarrow> runtime_object option \<times> heap" where
  "DeepCopyObject M (PPSObject p) H = PersistentPodState_DeepCopyObject M p H"
| "DeepCopyObject M (PPSListObject l) H = PersistentPodStateList_DeepCopyObject M l H"

section \<open>Values and cells of an object\<close>

definition map_at :: "heap \<Rightarrow> nat option \<Rightarrow> string gomap" where
  "map_at H a = (case a of None \<Rightarrow> None | Some i \<Rightarrow> (case cells H i of Some (StringMap m) \<Rightarrow> Some m | _ \<Rightarrow> None))"

definition strings_at :: "heap \<Rightarrow> nat option \<Rightarrow> string goslice" where
  "strings_at H a = (case a of None \<Rightarrow> None | Some i \<Rightarrow> (case cells H i of Some (Strings s) \<Rightarrow> Some s | _ \<Rightarrow> None))"

definition annotations_at :: "heap \<Rightarrow> nat option \<Rightarrow> PersistentPodAnnotation goslice" where
  "annotations_at H a =
     (case a of None \<Rightarrow> None | Some i \<Rightarrow> (case cells H i of Some (Annotations s) \<Rightarrow> Some s | _ \<Rightarrow> None))"

definition pod_value :: "heap \<Rightarrow> pod_ref \<Rightarrow> PodState" where
  "pod_value H p = \<lparr>ps_NodeName = pr_NodeName p, ps_NodeTopologyLabels = map_at H (pr_NodeTopologyLabels p),
     ps_Annotations = map_at H (pr_Annotations p), ps_PodIP = pr_PodIP p\<rparr>"

definition states_value :: "heap \<Rightarrow> (string \<times> pod_ref) list \<Rightarrow> (string, PodState) fmap" where
  "states_value H es = fmap_of_list (map (\<lambda>(k, p). (k, pod_value H p)) es)"

definition states_at :: "heap \<Rightarrow> nat option \<Rightarrow> PodState gomap" where
  "states_at H a =
     (case a of None \<Rightarrow> None | Some i \<Rightarrow> (case cells H i of Some (StateMap es) \<Rightarrow> Some (states_value H es) | _ \<Rightarrow> None))"

definition term_at :: "heap \<Rightarrow> nat option \<Rightarrow> NodeTopologyTerm option" where
  "term_at H a =
     (case a of None \<Rightarrow> None
      | Some i \<Rightarrow> (case cells H i of
          Some (Term t) \<Rightarrow> Some \<lparr>NodeTopologyKeys = strings_at H (tmr_NodeTopologyKeys t)\<rparr> | _ \<Rightarrow> None))"

definition flag_at :: "heap \<Rightarrow> nat option \<Rightarrow> bool option" where
  "flag_at H a = (case a of None \<Rightarrow> None | Some i \<Rightarrow> (case cells H i of Some (Flag b) \<Rightarrow> Some b | _ \<Rightarrow> None))"

definition owner_value :: "heap \<Rightarrow> owner_ref \<Rightarrow> owner_reference" where
  "owner_value H r = \<lparr>or_APIVersion = owr_APIVersion r, or_Kind = owr_Kind r, or_Name = owr_Name r, or_UID = owr_UID r,
     or_Controller = flag_at H (owr_Controller r)\<rparr>"

definition owners_at :: "heap \<Rightarrow> nat option \<Rightarrow> owner_reference list" where
  "owners_at H a =
     (case a of None \<Rightarrow> [] | Some i \<Rightarrow> (case cells H i of Some (Owners rs) \<Rightarrow> map (owner_value H) rs | _ \<Rightarrow> []))"

definition opaque_at :: "heap \<Rightarrow> nat option \<Rightarrow> opaque" where
  "opaque_at H a = (case a of None \<Rightarrow> [] | Some i \<Rightarrow> (case cells H i of Some (Opaque x) \<Rightarrow> x | _ \<Rightarrow> []))"

definition meta_value :: "heap \<Rightarrow> meta_ref \<Rightarrow> object_meta" where
  "meta_value H m = \<lparr>om_Name = mr_Name m, om_Namespace = mr_Namespace m, om_UID = mr_UID m,
     om_ResourceVersion = mr_ResourceVersion m, om_Labels = map_at H (mr_Labels m),
     om_Annotations = map_at H (mr_Annotations m), om_OwnerReferences = owners_at H (mr_OwnerReferences m),
     om_rest = opaque_at H (mr_rest m)\<rparr>"

definition count_at :: "heap \<Rightarrow> nat option \<Rightarrow> 64 word option" where
  "count_at H a = (case a of None \<Rightarrow> None | Some i \<Rightarrow> (case cells H i of Some (Count n) \<Rightarrow> Some n | _ \<Rightarrow> None))"

definition list_meta_value :: "heap \<Rightarrow> list_meta_ref \<Rightarrow> string \<times> 64 word option" where
  "list_meta_value H m = (lmr_ResourceVersion m, count_at H (lmr_RemainingItemCount m))"

definition body_value :: "heap \<Rightarrow> pps_ref \<Rightarrow> PersistentPodStateSpec \<times> PersistentPodStateStatus" where
  "body_value H p =
     (\<lparr>spec_TargetReference = ref_Target (ref_Spec p),
        PersistentPodAnnotations = annotations_at H (ref_Annotations (ref_Spec p)),
        RequiredPersistentTopology = term_at H (ref_Topology (ref_Spec p))\<rparr>,
      \<lparr>ObservedGeneration = ref_Generation (ref_Status p),
        PodStates = states_at H (ref_PodStates (ref_Status p))\<rparr>)"

definition pps_value :: "heap \<Rightarrow> pps_ref \<Rightarrow> PersistentPodState" where
  "pps_value H p =
     \<lparr>pps_Meta = meta_value H (ref_Meta p), pps_Spec = fst (body_value H p), pps_Status = snd (body_value H p)\<rparr>"

definition pod_addrs :: "pod_ref \<Rightarrow> nat set" where
  "pod_addrs p = set_option (pr_NodeTopologyLabels p) \<union> set_option (pr_Annotations p)"

definition states_addrs :: "(string \<times> pod_ref) list \<Rightarrow> nat set" where
  "states_addrs es = (\<Union>e \<in> set es. pod_addrs (snd e))"

fun cell_addrs :: "cell option \<Rightarrow> nat set" where
  "cell_addrs (Some (StateMap es)) = states_addrs es"
| "cell_addrs (Some (Owners rs)) = (\<Union>r \<in> set rs. set_option (owr_Controller r))"
| "cell_addrs (Some (Term t)) = set_option (tmr_NodeTopologyKeys t)"
| "cell_addrs _ = {}"

text \<open>All cells that belong to an object: those it names and those that these name.\<close>

definition cells_below :: "heap \<Rightarrow> nat option \<Rightarrow> nat set" where
  "cells_below H a = (case a of None \<Rightarrow> {} | Some i \<Rightarrow> insert i (cell_addrs (cells H i)))"

definition meta_addrs :: "heap \<Rightarrow> meta_ref \<Rightarrow> nat set" where
  "meta_addrs H m = cells_below H (mr_Labels m) \<union> cells_below H (mr_Annotations m) \<union>
     cells_below H (mr_OwnerReferences m) \<union> cells_below H (mr_rest m)"

definition body_addrs :: "heap \<Rightarrow> pps_ref \<Rightarrow> nat set" where
  "body_addrs H p = cells_below H (ref_Annotations (ref_Spec p)) \<union> cells_below H (ref_Topology (ref_Spec p)) \<union>
     cells_below H (ref_PodStates (ref_Status p))"

definition pps_addrs :: "heap \<Rightarrow> pps_ref \<Rightarrow> nat set" where
  "pps_addrs H p = meta_addrs H (ref_Meta p) \<union> body_addrs H p"

text \<open>An object in the heap: its addresses are allocated, with cells of the right kind.\<close>

definition is_map :: "heap \<Rightarrow> nat option \<Rightarrow> bool" where
  "is_map H a \<longleftrightarrow> (\<forall>i. a = Some i \<longrightarrow> i < brk H \<and> (\<exists>m. cells H i = Some (StringMap m)))"

definition meta_ok :: "heap \<Rightarrow> meta_ref \<Rightarrow> bool" where
  "meta_ok H m \<longleftrightarrow> is_map H (mr_Labels m) \<and> is_map H (mr_Annotations m) \<and>
     (\<forall>i. mr_OwnerReferences m = Some i \<longrightarrow> i < brk H \<and> (\<exists>rs. cells H i = Some (Owners rs) \<and>
        (\<forall>r \<in> set rs. \<forall>j. owr_Controller r = Some j \<longrightarrow> j < brk H \<and> (\<exists>b. cells H j = Some (Flag b))))) \<and>
     (\<forall>i. mr_rest m = Some i \<longrightarrow> i < brk H \<and> (\<exists>x. cells H i = Some (Opaque x)))"

definition list_meta_ok :: "heap \<Rightarrow> list_meta_ref \<Rightarrow> bool" where
  "list_meta_ok H m \<longleftrightarrow>
     (\<forall>i. lmr_RemainingItemCount m = Some i \<longrightarrow> i < brk H \<and> (\<exists>n. cells H i = Some (Count n)))"

definition body_ok :: "heap \<Rightarrow> pps_ref \<Rightarrow> bool" where
  "body_ok H p \<longleftrightarrow>
     (\<forall>i. ref_Annotations (ref_Spec p) = Some i \<longrightarrow> i < brk H \<and> (\<exists>s. cells H i = Some (Annotations s))) \<and>
     (\<forall>i. ref_Topology (ref_Spec p) = Some i \<longrightarrow> i < brk H \<and> (\<exists>t. cells H i = Some (Term t) \<and>
        (\<forall>j. tmr_NodeTopologyKeys t = Some j \<longrightarrow> j < brk H \<and> (\<exists>s. cells H j = Some (Strings s))))) \<and>
     (\<forall>i. ref_PodStates (ref_Status p) = Some i \<longrightarrow> i < brk H \<and> (\<exists>es. cells H i = Some (StateMap es) \<and>
        (\<forall>e \<in> set es. is_map H (pr_NodeTopologyLabels (snd e)) \<and> is_map H (pr_Annotations (snd e)))))"

definition pps_ok :: "heap \<Rightarrow> pps_ref \<Rightarrow> bool" where
  "pps_ok H p \<longleftrightarrow> meta_ok H (ref_Meta p) \<and> body_ok H p"

text \<open>The same for lists and for objects behind the interface.\<close>

definition items_at :: "heap \<Rightarrow> nat option \<Rightarrow> pps_ref list" where
  "items_at H a = (case a of None \<Rightarrow> [] | Some i \<Rightarrow> (case cells H i of Some (States ps) \<Rightarrow> ps | _ \<Rightarrow> []))"

fun object_value :: "heap \<Rightarrow> runtime_object \<Rightarrow> PersistentPodState option + ((string \<times> 64 word option) \<times> PersistentPodState goslice) option" where
  "object_value H (PPSObject p) = Inl (map_option (pps_value H) p)"
| "object_value H (PPSListObject l) =
     Inr (map_option (\<lambda>m. (list_meta_value H (lr_Meta m), map_option (\<lambda>i. map (pps_value H) (items_at H (lr_Items m))) (lr_Items m))) l)"

fun object_addrs :: "heap \<Rightarrow> runtime_object \<Rightarrow> nat set" where
  "object_addrs H (PPSObject p) = (\<Union>q \<in> set_option p. pps_addrs H q)"
| "object_addrs H (PPSListObject l) =
     (\<Union>m \<in> set_option l. set_option (lmr_RemainingItemCount (lr_Meta m)) \<union> set_option (lr_Items m) \<union> (\<Union>q \<in> set (items_at H (lr_Items m)). pps_addrs H q))"

fun object_ok :: "heap \<Rightarrow> runtime_object \<Rightarrow> bool" where
  "object_ok H (PPSObject p) \<longleftrightarrow> (\<forall>q. p = Some q \<longrightarrow> pps_ok H q)"
| "object_ok H (PPSListObject l) \<longleftrightarrow>
     (\<forall>m. l = Some m \<longrightarrow> list_meta_ok H (lr_Meta m) \<and> (\<forall>i. lr_Items m = Some i \<longrightarrow>
        i < brk H \<and> (\<exists>ps. cells H i = Some (States ps) \<and> (\<forall>q \<in> set ps. pps_ok H q))))"

fun is_nil :: "runtime_object \<Rightarrow> bool" where
  "is_nil (PPSObject p) \<longleftrightarrow> p = None"
| "is_nil (PPSListObject l) \<longleftrightarrow> l = None"

section \<open>Only the cells below the break matter\<close>

definition agree :: "heap \<Rightarrow> heap \<Rightarrow> bool" where
  "agree H H' \<longleftrightarrow> (\<forall>i < brk H. cells H' i = cells H i)"

definition grown :: "heap \<Rightarrow> heap \<Rightarrow> bool" where
  "grown H H' \<longleftrightarrow> brk H \<le> brk H' \<and> agree H H'"

lemma grown_refl [simp]: "grown H H"
  by (simp add: grown_def agree_def)

lemma grown_trans: "grown H H1 \<Longrightarrow> grown H1 H2 \<Longrightarrow> grown H H2"
  by (simp add: grown_def agree_def)

lemma grown_agree: "grown H H' \<Longrightarrow> agree H H'"
  by (simp add: grown_def)

lemma alloc_grown:
  assumes "alloc c H = (j, H')"
  shows "grown H H'" "j = brk H" "brk H' = Suc (brk H)" "cells H' j = Some c"
  using assms by (auto simp: alloc_def grown_def agree_def)

lemma map_at_agree: "is_map H a \<Longrightarrow> agree H H' \<Longrightarrow> map_at H' a = map_at H a"
  by (cases a) (auto simp: map_at_def is_map_def agree_def)

lemma is_map_grown: "is_map H a \<Longrightarrow> grown H H' \<Longrightarrow> is_map H' a"
  by (auto simp: is_map_def grown_def agree_def)

definition pod_ok :: "heap \<Rightarrow> pod_ref \<Rightarrow> bool" where
  "pod_ok H p \<longleftrightarrow> is_map H (pr_NodeTopologyLabels p) \<and> is_map H (pr_Annotations p)"

lemma pod_ok_grown: "pod_ok H p \<Longrightarrow> grown H H' \<Longrightarrow> pod_ok H' p"
  by (auto simp: pod_ok_def intro: is_map_grown)

lemma pod_value_agree: "pod_ok H p \<Longrightarrow> agree H H' \<Longrightarrow> pod_value H' p = pod_value H p"
  by (simp add: pod_value_def pod_ok_def map_at_agree)

lemma states_value_agree:
  assumes "\<forall>e \<in> set es. pod_ok H (snd e)" and "agree H H'"
  shows "map (\<lambda>(k, p). (k, pod_value H' p)) es = map (\<lambda>(k, p). (k, pod_value H p)) es"
  using assms by (auto simp: pod_value_agree)

lemma body_okD:
  assumes "body_ok H p"
  shows "ref_Annotations (ref_Spec p) = Some i \<Longrightarrow> i < brk H \<and> (\<exists>s. cells H i = Some (Annotations s))"
    and "ref_Topology (ref_Spec p) = Some i \<Longrightarrow> i < brk H \<and> (\<exists>t. cells H i = Some (Term t) \<and>
        (\<forall>j. tmr_NodeTopologyKeys t = Some j \<longrightarrow> j < brk H \<and> (\<exists>s. cells H j = Some (Strings s))))"
    and "ref_PodStates (ref_Status p) = Some i \<Longrightarrow> i < brk H \<and> (\<exists>es. cells H i = Some (StateMap es) \<and>
        (\<forall>e \<in> set es. pod_ok H (snd e)))"
  using assms by (simp_all add: body_ok_def pod_ok_def)

lemma body_ok_grown:
  assumes ok: "body_ok H p" and g: "grown H H'"
  shows "body_ok H' p"
proof -
  have same: "cells H' i = cells H i" "i < brk H'" if "i < brk H" for i using g that by (simp_all add: grown_def agree_def)
  have pods: "pod_ok H' q" if "pod_ok H q" for q using that g by (rule pod_ok_grown)
  show ?thesis
    unfolding body_ok_def pod_ok_def [symmetric]
    using body_okD [OF ok] same pods by (auto; metis)
qed

lemma body_value_agree:
  assumes ok: "body_ok H p" and ag: "agree H H'"
  shows "body_value H' p = body_value H p"
proof -
  have "annotations_at H' (ref_Annotations (ref_Spec p)) = annotations_at H (ref_Annotations (ref_Spec p))"
    using body_okD(1) [OF ok] ag by (cases "ref_Annotations (ref_Spec p)") (auto simp: annotations_at_def agree_def)
  moreover have "term_at H' (ref_Topology (ref_Spec p)) = term_at H (ref_Topology (ref_Spec p))"
    using body_okD(2) [OF ok] ag
    by (cases "ref_Topology (ref_Spec p)") (auto simp: term_at_def strings_at_def agree_def split: option.split)
  moreover have "states_at H' (ref_PodStates (ref_Status p)) = states_at H (ref_PodStates (ref_Status p))"
  proof (cases "ref_PodStates (ref_Status p)")
    case (Some i)
    with body_okD(3) [OF ok Some] obtain es where es: "i < brk H" "cells H i = Some (StateMap es)"
      "\<forall>e \<in> set es. pod_ok H (snd e)" by blast
    have "states_value H' es = states_value H es"
      unfolding states_value_def states_value_agree [OF es(3) ag] ..
    with Some ag es show ?thesis by (simp add: states_at_def agree_def)
  qed (simp add: states_at_def)
  ultimately show ?thesis by (simp add: body_value_def)
qed

lemma body_addrs_old:
  assumes "body_ok H p" and "agree H H'"
  shows "body_addrs H' p \<subseteq> {..<brk H}"
proof -
  have "cells_below H' (ref_Annotations (ref_Spec p)) \<subseteq> {..<brk H}"
    using body_okD(1) [OF assms(1)] assms(2) by (auto simp: cells_below_def agree_def split: option.splits)
  moreover have "cells_below H' (ref_Topology (ref_Spec p)) \<subseteq> {..<brk H}"
    using body_okD(2) [OF assms(1)] assms(2) by (auto simp: cells_below_def agree_def split: option.splits)
  moreover have "cells_below H' (ref_PodStates (ref_Status p)) \<subseteq> {..<brk H}"
    using body_okD(3) [OF assms(1)] assms(2)
    by (fastforce simp: cells_below_def agree_def states_addrs_def pod_addrs_def pod_ok_def is_map_def split: option.splits)
  ultimately show ?thesis by (simp add: body_addrs_def)
qed

lemma body_addrs_agree:
  assumes "body_ok H p" and "agree H H'"
  shows "body_addrs H' p = body_addrs H p"
proof -
  have "cells_below H' a = cells_below H a" if "\<And>i. a = Some i \<Longrightarrow> i < brk H" for a
    using that assms(2) by (cases a) (auto simp: cells_below_def agree_def)
  then show ?thesis using body_okD [OF assms(1)] by (simp add: body_addrs_def)
qed

section \<open>Metadata in the heap\<close>

lemma meta_okD:
  assumes "meta_ok H m"
  shows "is_map H (mr_Labels m)" and "is_map H (mr_Annotations m)"
    and "mr_OwnerReferences m = Some i \<Longrightarrow> i < brk H \<and> (\<exists>rs. cells H i = Some (Owners rs) \<and>
        (\<forall>r \<in> set rs. \<forall>j. owr_Controller r = Some j \<longrightarrow> j < brk H \<and> (\<exists>b. cells H j = Some (Flag b))))"
    and "mr_rest m = Some i \<Longrightarrow> i < brk H \<and> (\<exists>x. cells H i = Some (Opaque x))"
  using assms by (simp_all add: meta_ok_def)

lemma owner_value_agree:
  "\<forall>j. owr_Controller r = Some j \<longrightarrow> j < brk H \<and> (\<exists>b. cells H j = Some (Flag b)) \<Longrightarrow> agree H H' \<Longrightarrow>
     owner_value H' r = owner_value H r"
  by (cases "owr_Controller r") (auto simp: owner_value_def flag_at_def agree_def)

lemma meta_value_agree:
  assumes ok: "meta_ok H m" and ag: "agree H H'"
  shows "meta_value H' m = meta_value H m"
proof -
  have "owners_at H' (mr_OwnerReferences m) = owners_at H (mr_OwnerReferences m)"
  proof (cases "mr_OwnerReferences m")
    case (Some i)
    from meta_okD(3) [OF ok Some] obtain rs where rs: "i < brk H" "cells H i = Some (Owners rs)"
      "\<forall>r \<in> set rs. \<forall>j. owr_Controller r = Some j \<longrightarrow> j < brk H \<and> (\<exists>b. cells H j = Some (Flag b))" by blast
    have "map (owner_value H') rs = map (owner_value H) rs" using rs(3) owner_value_agree [OF _ ag] by simp
    with Some ag rs(1,2) show ?thesis by (simp add: owners_at_def agree_def)
  qed (simp add: owners_at_def)
  moreover have "opaque_at H' (mr_rest m) = opaque_at H (mr_rest m)"
    using meta_okD(4) [OF ok] ag by (cases "mr_rest m") (auto simp: opaque_at_def agree_def)
  ultimately show ?thesis
    using map_at_agree [OF meta_okD(1) [OF ok] ag] map_at_agree [OF meta_okD(2) [OF ok] ag] by (simp add: meta_value_def)
qed

lemma meta_ok_grown:
  assumes ok: "meta_ok H m" and g: "grown H H'"
  shows "meta_ok H' m"
proof -
  have same: "cells H' i = cells H i" "i < brk H'" if "i < brk H" for i using g that by (simp_all add: grown_def agree_def)
  show ?thesis
    unfolding meta_ok_def
    using meta_okD(3,4) [OF ok] same is_map_grown [OF meta_okD(1) [OF ok] g] is_map_grown [OF meta_okD(2) [OF ok] g]
    by (auto; metis)
qed

lemma meta_addrs_agree:
  assumes "meta_ok H m" and "agree H H'"
  shows "meta_addrs H' m = meta_addrs H m"
proof -
  have "cells_below H' a = cells_below H a" if "\<And>i. a = Some i \<Longrightarrow> i < brk H" for a
    using that assms(2) by (cases a) (auto simp: cells_below_def agree_def)
  then show ?thesis using meta_okD [OF assms(1)] by (simp add: meta_addrs_def is_map_def)
qed

lemma meta_addrs_old:
  assumes ok: "meta_ok H m" and ag: "agree H H'"
  shows "meta_addrs H' m \<subseteq> {..<brk H}"
proof -
  have "cells_below H a \<subseteq> {..<brk H}" if "is_map H a" for a
    using that by (auto simp: cells_below_def is_map_def split: option.splits)
  moreover have "cells_below H (mr_OwnerReferences m) \<subseteq> {..<brk H}" "cells_below H (mr_rest m) \<subseteq> {..<brk H}"
    using meta_okD(3,4) [OF ok] by (fastforce simp: cells_below_def split: option.splits)+
  ultimately show ?thesis using meta_okD(1,2) [OF ok] meta_addrs_agree [OF ok ag] by (simp add: meta_addrs_def)
qed

section \<open>Objects in the heap\<close>

lemma pps_ok_grown: "pps_ok H p \<Longrightarrow> grown H H' \<Longrightarrow> pps_ok H' p"
  by (auto simp: pps_ok_def intro: meta_ok_grown body_ok_grown)

lemma pps_value_agree: "pps_ok H p \<Longrightarrow> agree H H' \<Longrightarrow> pps_value H' p = pps_value H p"
  using meta_value_agree [of H "ref_Meta p" H'] body_value_agree [of H p H'] by (simp add: pps_ok_def pps_value_def)

lemma pps_addrs_agree: "pps_ok H p \<Longrightarrow> agree H H' \<Longrightarrow> pps_addrs H' p = pps_addrs H p"
  using meta_addrs_agree [of H "ref_Meta p" H'] body_addrs_agree [of H p H'] by (simp add: pps_ok_def pps_addrs_def)

lemma pps_addrs_old: "pps_ok H p \<Longrightarrow> agree H H' \<Longrightarrow> pps_addrs H' p \<subseteq> {..<brk H}"
  by (simp add: pps_ok_def pps_addrs_def meta_addrs_old body_addrs_old)

text \<open>
  Kubernetes' copies of the metadata: new cells, with the values of the old ones, which are left alone.
\<close>

definition meta_copy_ok :: "meta_copiers \<Rightarrow> bool" where
  "meta_copy_ok M \<longleftrightarrow>
     (\<forall>m H m' H'. meta_ok H m \<longrightarrow> ObjectMeta_DeepCopyInto M m H = (m', H') \<longrightarrow>
        grown H H' \<and> meta_ok H' m' \<and> meta_value H' m' = meta_value H m \<and> meta_addrs H' m' \<subseteq> {brk H..<brk H'}) \<and>
     (\<forall>m H m' H'. list_meta_ok H m \<longrightarrow> ListMeta_DeepCopyInto M m H = (m', H') \<longrightarrow>
        grown H H' \<and> list_meta_ok H' m' \<and> list_meta_value H' m' = list_meta_value H m \<and>
        set_option (lmr_RemainingItemCount m') \<subseteq> {brk H..<brk H'})"

section \<open>What the copies hold\<close>

lemma copy_map_ok:
  assumes "copy_flat a H = (b, H')" and "is_map H a"
  shows "grown H H'" and "is_map H' b" and "map_at H' b = map_at H a" and "set_option b \<subseteq> {brk H..<brk H'}"
  using assms
  by (cases a; auto simp: copy_flat_def alloc_def grown_def agree_def is_map_def map_at_def split: option.splits)+

lemma copy_pod_ok:
  assumes "PodState_DeepCopyInto p H = (p', H')" and ok: "pod_ok H p"
  shows "grown H H'" and "pod_ok H' p'" and "pod_value H' p' = pod_value H p" and "pod_addrs p' \<subseteq> {brk H..<brk H'}"
proof -
  from assms(1) obtain l H1 a where l: "copy_flat (pr_NodeTopologyLabels p) H = (l, H1)"
    and a: "copy_flat (pr_Annotations p) H1 = (a, H')"
    and p': "p' = p\<lparr>pr_NodeTopologyLabels := l, pr_Annotations := a\<rparr>"
    by (auto simp: PodState_DeepCopyInto_def split: prod.splits)
  from ok have m: "is_map H (pr_NodeTopologyLabels p)" "is_map H (pr_Annotations p)" by (simp_all add: pod_ok_def)
  note L = copy_map_ok [OF l m(1)]
  note A = copy_map_ok [OF a is_map_grown [OF m(2) L(1)]]
  show "grown H H'" using L(1) A(1) by (rule grown_trans)
  show "pod_ok H' p'" using A(2) is_map_grown [OF L(2) A(1)] p' by (simp add: pod_ok_def)
  show "pod_value H' p' = pod_value H p"
    using p' L(3) A(3) map_at_agree [OF L(2) grown_agree [OF A(1)]] map_at_agree [OF m(2) grown_agree [OF L(1)]]
    by (simp add: pod_value_def)
  show "pod_addrs p' \<subseteq> {brk H..<brk H'}" using L(1,4) A(1,4) p' by (auto simp: pod_addrs_def grown_def)
qed

lemma copy_states_ok:
  assumes "copy_states es H = (es', H')" and "\<forall>e \<in> set es. pod_ok H (snd e)"
  shows "grown H H' \<and> (\<forall>e \<in> set es'. pod_ok H' (snd e)) \<and> states_addrs es' \<subseteq> {brk H..<brk H'} \<and>
     map (\<lambda>(k, p). (k, pod_value H' p)) es' = map (\<lambda>(k, p). (k, pod_value H p)) es"
  using assms
proof (induction es arbitrary: H es')
  case (Cons e es)
  obtain k p where e: "e = (k, p)" by fastforce
  from Cons.prems(1) e obtain v H1 vs where v: "PodState_DeepCopyInto p H = (v, H1)"
    and vs: "copy_states es H1 = (vs, H')" "es' = (k, v) # vs" by (auto split: prod.splits)
  have pok: "pod_ok H p" and rest: "\<forall>e \<in> set es. pod_ok H (snd e)" using Cons.prems(2) e by simp_all
  note P = copy_pod_ok [OF v pok]
  have I: "grown H1 H' \<and> (\<forall>e \<in> set vs. pod_ok H' (snd e)) \<and> states_addrs vs \<subseteq> {brk H1..<brk H'} \<and>
     map (\<lambda>(k, p). (k, pod_value H' p)) vs = map (\<lambda>(k, p). (k, pod_value H1 p)) es"
    by (rule Cons.IH [OF vs(1)]) (use rest P(1) in \<open>auto intro: pod_ok_grown\<close>)
  have "map (\<lambda>(k, p). (k, pod_value H1 p)) es = map (\<lambda>(k, p). (k, pod_value H p)) es"
    by (rule states_value_agree [OF rest grown_agree [OF P(1)]])
  moreover have "pod_value H' v = pod_value H p"
    by (rule trans [OF pod_value_agree [OF P(2) grown_agree [OF conjunct1 [OF I]]] P(3)])
  moreover have "states_addrs es' \<subseteq> {brk H..<brk H'}"
  proof -
    have "states_addrs es' = pod_addrs v \<union> states_addrs vs" using vs(2) by (simp add: states_addrs_def)
    moreover have "brk H \<le> brk H1" "brk H1 \<le> brk H'" using P(1) I by (simp_all add: grown_def)
    then have "{brk H..<brk H1} \<subseteq> {brk H..<brk H'}" "{brk H1..<brk H'} \<subseteq> {brk H..<brk H'}" by auto
    ultimately show ?thesis using P(4) conjunct1 [OF conjunct2 [OF conjunct2 [OF I]]] by (metis Un_least subset_trans)
  qed
  moreover have "pod_ok H' v" by (rule pod_ok_grown [OF P(2) conjunct1 [OF I]])
  moreover have "grown H H'" by (rule grown_trans [OF P(1) conjunct1 [OF I]])
  ultimately show ?case using e vs(2) I by simp
qed (simp add: states_addrs_def)

lemma states_addrs_cell: "cells H i = Some (StateMap es) \<Longrightarrow> cells_below H (Some i) = insert i (states_addrs es)"
  by (simp add: cells_below_def)

lemma copy_status_ok:
  assumes "PersistentPodStateStatus_DeepCopyInto s H = (s', H')"
    and ok: "\<And>i. ref_PodStates s = Some i \<Longrightarrow> i < brk H \<and> (\<exists>es. cells H i = Some (StateMap es) \<and> (\<forall>e \<in> set es. pod_ok H (snd e)))"
  shows "grown H H' \<and> ref_Generation s' = ref_Generation s \<and>
     states_at H' (ref_PodStates s') = states_at H (ref_PodStates s) \<and>
     cells_below H' (ref_PodStates s') \<subseteq> {brk H..<brk H'} \<and>
     (\<forall>i. ref_PodStates s' = Some i \<longrightarrow>
        i < brk H' \<and> (\<exists>es. cells H' i = Some (StateMap es) \<and> (\<forall>e \<in> set es. pod_ok H' (snd e))))"
proof (cases "ref_PodStates s")
  case None
  with assms(1) show ?thesis by (auto simp: PersistentPodStateStatus_DeepCopyInto_def states_at_def cells_below_def)
next
  case (Some i)
  from ok [OF Some] obtain es where es: "cells H i = Some (StateMap es)" "\<forall>e \<in> set es. pod_ok H (snd e)" by blast
  obtain es' H1 j where c: "copy_states es H = (es', H1)" and a: "alloc (StateMap es') H1 = (j, H')"
    and s': "s' = Status (ref_Generation s) (Some j)"
    using assms(1) Some es(1) by (auto simp: PersistentPodStateStatus_DeepCopyInto_def split: prod.splits)
  note C = copy_states_ok [OF c es(2)] and A = alloc_grown [OF a]
  have "\<forall>e \<in> set es'. pod_ok H1 (snd e)" using C by blast
  then have "map (\<lambda>(k, p). (k, pod_value H' p)) es' = map (\<lambda>(k, p). (k, pod_value H1 p)) es'"
    using grown_agree [OF A(1)] by (rule states_value_agree)
  then have "states_value H' es' = states_value H es" unfolding states_value_def using C by simp
  then have "states_at H' (ref_PodStates s') = states_at H (ref_PodStates s)"
    using s' Some es(1) A(4) by (simp add: states_at_def)
  moreover have "grown H H'" using C A(1) grown_trans by blast
  moreover have "cells_below H' (Some j) \<subseteq> {brk H..<brk H'}"
    unfolding states_addrs_cell [OF A(4)] using conjunct1 [OF C] C A(2,3) by (auto simp: grown_def)
  moreover have "j < brk H'" "\<forall>e \<in> set es'. pod_ok H' (snd e)" using A C by (auto intro: pod_ok_grown)
  ultimately show ?thesis using s' A(4) by simp
qed

lemma copy_spec_ok:
  assumes "PersistentPodStateSpec_DeepCopyInto s H = (s', H')"
    and an: "\<And>i. ref_Annotations s = Some i \<Longrightarrow> i < brk H \<and> (\<exists>x. cells H i = Some (Annotations x))"
    and tp: "\<And>i. ref_Topology s = Some i \<Longrightarrow> i < brk H \<and> (\<exists>t. cells H i = Some (Term t) \<and>
        (\<forall>j. tmr_NodeTopologyKeys t = Some j \<longrightarrow> j < brk H \<and> (\<exists>x. cells H j = Some (Strings x))))"
  shows "grown H H' \<and> ref_Target s' = ref_Target s \<and> annotations_at H' (ref_Annotations s') = annotations_at H (ref_Annotations s) \<and>
     term_at H' (ref_Topology s') = term_at H (ref_Topology s) \<and>
     cells_below H' (ref_Annotations s') \<union> cells_below H' (ref_Topology s') \<subseteq> {brk H..<brk H'} \<and>
     body_ok H' (PPS m s' (Status g None))"
proof -
  have "\<exists>b H1. copy_flat (ref_Annotations s) H = (b, H1)" by fastforce
  then obtain b H1 where b: "copy_flat (ref_Annotations s) H = (b, H1)" by blast
  have B: "grown H H1 \<and> annotations_at H1 b = annotations_at H (ref_Annotations s) \<and> cells_below H1 b \<subseteq> {brk H..<brk H1} \<and>
      (\<forall>j. b = Some j \<longrightarrow> j < brk H1 \<and> (\<exists>x. cells H1 j = Some (Annotations x)))"
    using b an by (cases "ref_Annotations s")
      (auto simp: copy_flat_def alloc_def grown_def agree_def annotations_at_def cells_below_def split: option.splits)
  show ?thesis
  proof (cases "ref_Topology s")
    case None
    with assms(1) b B show ?thesis
      by (auto simp: PersistentPodStateSpec_DeepCopyInto_def term_at_def cells_below_def body_ok_def)
  next
    case (Some i)
    from tp [OF Some] obtain t where t: "i < brk H" "cells H i = Some (Term t)"
      "\<And>j. tmr_NodeTopologyKeys t = Some j \<Longrightarrow> j < brk H \<and> (\<exists>x. cells H j = Some (Strings x))" by blast
    have t1: "cells H1 i = Some (Term t)" using t B by (simp add: grown_def agree_def)
    obtain ks H2 j where k: "copy_flat (tmr_NodeTopologyKeys t) H1 = (ks, H2)"
      and a: "alloc (Term (t\<lparr>tmr_NodeTopologyKeys := ks\<rparr>)) H2 = (j, H')" and s': "s' = Spec (ref_Target s) b (Some j)"
      using assms(1) b Some t1
      by (auto simp: PersistentPodStateSpec_DeepCopyInto_def NodeTopologyTerm_DeepCopyInto_def split: prod.splits)
    have K: "grown H1 H2 \<and> strings_at H2 ks = strings_at H1 (tmr_NodeTopologyKeys t) \<and> set_option ks \<subseteq> {brk H1..<brk H2} \<and>
        (\<forall>j. ks = Some j \<longrightarrow> (\<exists>x. cells H2 j = Some (Strings x)))"
      using k t(3) B by (cases "tmr_NodeTopologyKeys t")
        (auto simp: copy_flat_def alloc_def grown_def agree_def strings_at_def split: option.splits)
    have S: "strings_at H1 (tmr_NodeTopologyKeys t) = strings_at H (tmr_NodeTopologyKeys t)"
      using t(3) B by (cases "tmr_NodeTopologyKeys t") (auto simp: strings_at_def grown_def agree_def)
    note A = alloc_grown [OF a]
    have g1: "grown H1 H'" using K A(1) grown_trans by blast
    have "strings_at H' ks = strings_at H2 ks"
      using K A(1) by (cases ks) (auto simp: strings_at_def grown_def agree_def)
    with K S have "term_at H' (Some j) = term_at H (Some i)" using A(4) t(2) by (simp add: term_at_def)
    moreover have "annotations_at H' b = annotations_at H1 b" "cells_below H' b = cells_below H1 b"
      using B g1 by (cases b; auto simp: annotations_at_def cells_below_def grown_def agree_def)+
    moreover have "cells_below H' (Some j) \<subseteq> {brk H..<brk H'}"
      using A K B by (auto simp: cells_below_def grown_def)
    moreover have "grown H H'" using B g1 grown_trans by blast
    moreover have "{brk H..<brk H1} \<subseteq> {brk H..<brk H'}" using g1 by (auto simp: grown_def)
    moreover have "body_ok H' (PPS m s' (Status g None))"
    proof -
      have "j < brk H'" "cells H' j = Some (Term (t\<lparr>tmr_NodeTopologyKeys := ks\<rparr>))" using A by simp_all
      moreover have "i < brk H' \<and> (\<exists>x. cells H' i = Some (Strings x))" if "ks = Some i" for i
        using that K A(1,3) by (auto simp: grown_def agree_def)
      moreover have "i < brk H' \<and> (\<exists>x. cells H' i = Some (Annotations x))" if "b = Some i" for i
        using that B g1 by (auto simp: grown_def agree_def)
      ultimately show ?thesis using s' by (simp add: body_ok_def)
    qed
    ultimately show ?thesis using B s' Some by auto
  qed
qed

lemma copy_body_ok:
  assumes sp: "PersistentPodStateSpec_DeepCopyInto (ref_Spec p) H = (sp, H1)"
    and st: "PersistentPodStateStatus_DeepCopyInto (ref_Status p) H1 = (st, H')" and p': "p' = PPS m sp st"
    and ok: "body_ok H p"
  shows "grown H H'" and "body_value H' p' = body_value H p" and "body_addrs H' p' \<subseteq> {brk H..<brk H'}" and "body_ok H' p'"
proof -
  let ?q = "PPS m sp (Status 0 None)"
  note S = copy_spec_ok [OF sp body_okD(1,2) [OF ok], of m 0]
  have g1: "grown H H1" using S by blast
  have ok1: "body_ok H1 p" by (rule body_ok_grown [OF ok g1])
  note T = copy_status_ok [OF st body_okD(3) [OF ok1]]
  have g2: "grown H1 H'" using T by blast
  show "grown H H'" by (rule grown_trans [OF g1 g2])
  have q: "body_ok H1 ?q" using S by blast
  have "body_value H' ?q = body_value H1 ?q" "body_value H1 p = body_value H p"
    using body_value_agree [OF q grown_agree [OF g2]] body_value_agree [OF ok grown_agree [OF g1]] by simp_all
  with S T p' show "body_value H' p' = body_value H p" by (simp add: body_value_def)
  have "body_addrs H' ?q = body_addrs H1 ?q" by (rule body_addrs_agree [OF q grown_agree [OF g2]])
  then have "body_addrs H' p' = body_addrs H1 ?q \<union> cells_below H' (ref_PodStates st)"
    using p' by (simp add: body_addrs_def cells_below_def)
  moreover have "body_addrs H1 ?q \<subseteq> {brk H..<brk H1}" using S by (simp add: body_addrs_def cells_below_def)
  moreover have "{brk H..<brk H1} \<subseteq> {brk H..<brk H'}" "{brk H1..<brk H'} \<subseteq> {brk H..<brk H'}"
    using g1 g2 by (auto simp: grown_def)
  ultimately show "body_addrs H' p' \<subseteq> {brk H..<brk H'}" using T by (metis Un_least subset_trans)
  show "body_ok H' p'" using body_ok_grown [OF q g2] T p' by (simp add: body_ok_def pod_ok_def)
qed

lemma copy_pps_ok:
  assumes M: "meta_copy_ok M" and c: "PersistentPodState_DeepCopyInto M p H = (p', H')" and ok: "pps_ok H p"
  shows "grown H H'" and "pps_value H' p' = pps_value H p" and "pps_addrs H' p' \<subseteq> {brk H..<brk H'}" and "pps_ok H' p'"
proof -
  from c obtain m H1 sp H2 st where m: "ObjectMeta_DeepCopyInto M (ref_Meta p) H = (m, H1)"
    and sp: "PersistentPodStateSpec_DeepCopyInto (ref_Spec p) H1 = (sp, H2)"
    and st: "PersistentPodStateStatus_DeepCopyInto (ref_Status p) H2 = (st, H')" and p': "p' = PPS m sp st"
    by (auto simp: PersistentPodState_DeepCopyInto_def split: prod.splits)
  have mok: "meta_ok H (ref_Meta p)" and bok: "body_ok H p" using ok by (simp_all add: pps_ok_def)
  note T = M [unfolded meta_copy_ok_def, THEN conjunct1, rule_format, OF mok m]
  have g1: "grown H H1" using T by blast
  note B = copy_body_ok [OF sp st p' body_ok_grown [OF bok g1]]
  have g2: "grown H1 H'" by (rule B(1))
  show "grown H H'" by (rule grown_trans [OF g1 g2])
  have m1: "meta_ok H1 m" using T by blast
  have "meta_value H' m = meta_value H (ref_Meta p)" using T meta_value_agree [OF m1 grown_agree [OF g2]] by simp
  with B(2) body_value_agree [OF bok grown_agree [OF g1]] p' show "pps_value H' p' = pps_value H p"
    by (simp add: pps_value_def)
  have "{brk H..<brk H1} \<subseteq> {brk H..<brk H'}" "{brk H1..<brk H'} \<subseteq> {brk H..<brk H'}"
    using g1 g2 by (auto simp: grown_def)
  moreover have "meta_addrs H' m \<subseteq> {brk H..<brk H1}" using T meta_addrs_agree [OF m1 grown_agree [OF g2]] by simp
  moreover have "pps_addrs H' p' = meta_addrs H' m \<union> body_addrs H' p'" using p' by (simp add: pps_addrs_def)
  ultimately show "pps_addrs H' p' \<subseteq> {brk H..<brk H'}" using B(3) by (metis Un_least subset_trans)
  show "pps_ok H' p'" using meta_ok_grown [OF m1 g2] B(4) p' by (simp add: pps_ok_def)
qed

text \<open>Every item of a list is copied.\<close>

lemma copy_items_ok:
  assumes M: "meta_copy_ok M" and "copy_items M ps H = (ps', H')" and "\<forall>p \<in> set ps. pps_ok H p"
  shows "grown H H' \<and> map (pps_value H') ps' = map (pps_value H) ps \<and> (\<forall>q \<in> set ps'. pps_ok H' q) \<and>
     (\<Union>q \<in> set ps'. pps_addrs H' q) \<subseteq> {brk H..<brk H'}"
  using assms(2,3)
proof (induction ps arbitrary: H ps')
  case (Cons p ps)
  then obtain q H1 qs where q: "PersistentPodState_DeepCopyInto M p H = (q, H1)" and qs: "copy_items M ps H1 = (qs, H')"
    and ps': "ps' = q # qs" by (auto split: prod.splits)
  have ok: "pps_ok H p" using Cons.prems(2) by simp
  note P = copy_pps_ok [OF M q ok]
  have "\<forall>p \<in> set ps. pps_ok H1 p" using Cons.prems(2) P(1) by (auto intro: pps_ok_grown)
  from Cons.IH [OF qs this] have I: "grown H1 H'" "map (pps_value H') qs = map (pps_value H1) ps"
    "\<forall>q \<in> set qs. pps_ok H' q" "(\<Union>q \<in> set qs. pps_addrs H' q) \<subseteq> {brk H1..<brk H'}" by blast+
  have "pps_value H1 x = pps_value H x" if "x \<in> set ps" for x
    by (rule pps_value_agree [OF _ grown_agree [OF P(1)]]) (use that Cons.prems(2) in simp)
  then have "map (pps_value H1) ps = map (pps_value H) ps" by simp
  moreover have "pps_value H' q = pps_value H p" using pps_value_agree [OF P(4) grown_agree [OF I(1)]] P(2) by simp
  moreover have g: "grown H H'" by (rule grown_trans [OF P(1) I(1)])
  moreover have "pps_ok H' q" by (rule pps_ok_grown [OF P(4) I(1)])
  moreover have "(\<Union>q \<in> set ps'. pps_addrs H' q) \<subseteq> {brk H..<brk H'}"
  proof -
    have "pps_addrs H' q \<subseteq> {brk H..<brk H1}" using P(3) pps_addrs_agree [OF P(4) grown_agree [OF I(1)]] by simp
    moreover have "{brk H..<brk H1} \<subseteq> {brk H..<brk H'}" "{brk H1..<brk H'} \<subseteq> {brk H..<brk H'}"
      using P(1) I(1) by (auto simp: grown_def)
    moreover have "(\<Union>q \<in> set ps'. pps_addrs H' q) = pps_addrs H' q \<union> (\<Union>q \<in> set qs. pps_addrs H' q)" using ps' by simp
    ultimately show ?thesis using I(4) by (metis Un_least subset_trans)
  qed
  ultimately show ?case using ps' I(2,3) by simp
qed simp

lemma list_meta_agree:
  "list_meta_ok H m \<Longrightarrow> agree H H' \<Longrightarrow> list_meta_value H' m = list_meta_value H m"
  by (cases "lmr_RemainingItemCount m") (auto simp: list_meta_value_def list_meta_ok_def count_at_def agree_def)

lemma copy_list_ok:
  assumes M: "meta_copy_ok M" and c: "PersistentPodStateList_DeepCopyInto M l H = (l', H')"
    and ok: "object_ok H (PPSListObject (Some l))"
  shows "grown H H' \<and> object_value H' (PPSListObject (Some l')) = object_value H (PPSListObject (Some l)) \<and>
     object_addrs H' (PPSListObject (Some l')) \<subseteq> {brk H..<brk H'}"
proof -
  obtain m H0 where m: "ListMeta_DeepCopyInto M (lr_Meta l) H = (m, H0)" by fastforce
  have mok: "list_meta_ok H (lr_Meta l)" using ok by simp
  note T = M [unfolded meta_copy_ok_def, THEN conjunct2, rule_format, OF mok m]
  have g0: "grown H H0" and m0: "list_meta_ok H0 m" using T by blast+
  show ?thesis
  proof (cases "lr_Items l")
    case None
    with c m have "l' = l\<lparr>lr_Meta := m\<rparr>" "H' = H0" by (simp_all add: PersistentPodStateList_DeepCopyInto_def Let_def)
    with None T show ?thesis by (simp add: items_at_def)
  next
    case (Some i)
    with ok obtain ps where ps: "i < brk H" "cells H i = Some (States ps)" "\<forall>q \<in> set ps. pps_ok H q" by auto
    have c0: "cells H0 i = Some (States ps)" using ps(1,2) g0 by (simp add: grown_def agree_def)
    from c Some m c0 obtain ps' H1 j where ci: "copy_items M ps H0 = (ps', H1)" and a: "alloc (States ps') H1 = (j, H')"
      and l': "l' = l\<lparr>lr_Meta := m, lr_Items := Some j\<rparr>"
      by (auto simp: PersistentPodStateList_DeepCopyInto_def Let_def split: prod.splits)
    have "\<forall>q \<in> set ps. pps_ok H0 q" using ps(3) g0 by (auto intro: pps_ok_grown)
    note C = copy_items_ok [OF M ci this] and A = alloc_grown [OF a]
    have okC: "\<forall>q \<in> set ps'. pps_ok H1 q" and g1: "grown H0 H1" using C by blast+
    have ag: "agree H1 H'" by (rule grown_agree [OF A(1)])
    have g: "grown H0 H'" by (rule grown_trans [OF g1 A(1)])
    have "map (pps_value H') ps' = map (pps_value H1) ps'" using okC pps_value_agree [OF _ ag] by simp
    moreover have "map (pps_value H0) ps = map (pps_value H) ps"
      using ps(3) pps_value_agree [OF _ grown_agree [OF g0]] by simp
    ultimately have v: "map (pps_value H') ps' = map (pps_value H) ps" using C by simp
    have ad: "(\<Union>q \<in> set ps'. pps_addrs H' q) = (\<Union>q \<in> set ps'. pps_addrs H1 q)" using okC pps_addrs_agree [OF _ ag] by simp
    have it: "items_at H' (lr_Items l') = ps'" "items_at H (lr_Items l) = ps"
      using l' A(4) Some ps(2) by (simp_all add: items_at_def)
    have mv: "list_meta_value H' m = list_meta_value H (lr_Meta l)"
      using T list_meta_agree [OF m0 grown_agree [OF g]] by simp
    have "object_value H' (PPSListObject (Some l')) = object_value H (PPSListObject (Some l))"
      using it v mv Some l' by (simp del: map_eq_conv)
    moreover have "object_addrs H' (PPSListObject (Some l')) \<subseteq> {brk H..<brk H'}"
    proof -
      have le: "brk H \<le> brk H0" "brk H0 \<le> brk H1" "brk H1 \<le> brk H'" using g0 g1 A(1) by (simp_all add: grown_def)
      then have sub: "{brk H0..<brk H1} \<subseteq> {brk H..<brk H'}" "{brk H..<brk H0} \<subseteq> {brk H..<brk H'}"
        and j: "{j} \<subseteq> {brk H..<brk H'}" using A(2,3) by auto
      have "(\<Union>q \<in> set ps'. pps_addrs H' q) \<subseteq> {brk H..<brk H'}" unfolding ad using C sub(1) by (meson subset_trans)
      moreover have "set_option (lmr_RemainingItemCount m) \<subseteq> {brk H..<brk H'}" using T sub(2) by (meson subset_trans)
      ultimately show ?thesis using it l' j by simp
    qed
    ultimately show ?thesis using grown_trans [OF g0 g] by simp
  qed
qed

lemma copy_object_ok:
  assumes M: "meta_copy_ok M" and ok: "object_ok H ob" and c: "DeepCopyObject M ob H = (r, H')" and nn: "\<not> is_nil ob"
  shows "\<exists>ob'. r = Some ob' \<and> \<not> is_nil ob' \<and> grown H H' \<and> object_value H' ob' = object_value H ob \<and>
     object_addrs H' ob' \<subseteq> {brk H..<brk H'}"
proof (cases ob)
  case (PPSObject p)
  with nn obtain q where q: "p = Some q" by auto
  obtain q' H1 where i: "PersistentPodState_DeepCopyInto M q H = (q', H1)" by fastforce
  have "r = Some (PPSObject (Some q'))" "H' = H1"
    using c PPSObject q i by (simp_all add: PersistentPodState_DeepCopyObject_def PersistentPodState_DeepCopy_def)
  moreover have "pps_ok H q" using ok PPSObject q by simp
  ultimately show ?thesis using copy_pps_ok [OF M i] PPSObject q by simp
next
  case (PPSListObject l)
  with nn obtain m where m: "l = Some m" by auto
  obtain m' H1 where i: "PersistentPodStateList_DeepCopyInto M m H = (m', H1)" by fastforce
  have "r = Some (PPSListObject (Some m'))" "H' = H1"
    using c PPSListObject m i
    by (simp_all add: PersistentPodStateList_DeepCopyObject_def PersistentPodStateList_DeepCopy_def)
  moreover note copy_list_ok [OF M i ok [unfolded PPSListObject m]]
  ultimately show ?thesis using PPSListObject m by (intro exI [of _ "PPSListObject (Some m')"]) simp
qed

lemma nil_object_copied: "is_nil ob \<Longrightarrow> DeepCopyObject M ob H = (None, H)"
  by (cases ob) (simp_all add: PersistentPodState_DeepCopyObject_def PersistentPodState_DeepCopy_def
      PersistentPodStateList_DeepCopyObject_def PersistentPodStateList_DeepCopy_def)

lemma list_old:
  assumes "object_ok H (PPSListObject (Some m))" and "agree H H'"
  shows "items_at H' (lr_Items m) = items_at H (lr_Items m)" and "\<forall>q \<in> set (items_at H (lr_Items m)). pps_ok H q"
    and "set_option (lr_Items m) \<subseteq> {..<brk H}" and "set_option (lmr_RemainingItemCount (lr_Meta m)) \<subseteq> {..<brk H}"
    and "list_meta_value H' (lr_Meta m) = list_meta_value H (lr_Meta m)"
proof -
  show "items_at H' (lr_Items m) = items_at H (lr_Items m)" "\<forall>q \<in> set (items_at H (lr_Items m)). pps_ok H q"
    "set_option (lr_Items m) \<subseteq> {..<brk H}"
    using assms by (cases "lr_Items m"; auto simp: items_at_def agree_def)+
  have ok: "list_meta_ok H (lr_Meta m)" using assms(1) by simp
  then show "set_option (lmr_RemainingItemCount (lr_Meta m)) \<subseteq> {..<brk H}"
    by (cases "lmr_RemainingItemCount (lr_Meta m)") (auto simp: list_meta_ok_def)
  show "list_meta_value H' (lr_Meta m) = list_meta_value H (lr_Meta m)" by (rule list_meta_agree [OF ok assms(2)])
qed

lemma object_value_agree:
  assumes ok: "object_ok H ob" and ag: "agree H H'"
  shows "object_value H' ob = object_value H ob"
proof (cases ob)
  case (PPSObject p)
  with ok pps_value_agree [OF _ ag] show ?thesis by (cases p) simp_all
next
  case (PPSListObject l)
  show ?thesis
  proof (cases l)
    case (Some m)
    note L = list_old [OF ok [unfolded PPSListObject Some] ag]
    have "map (pps_value H') (items_at H (lr_Items m)) = map (pps_value H) (items_at H (lr_Items m))"
      using L(2) pps_value_agree [OF _ ag] by simp
    then show ?thesis
      unfolding PPSListObject Some by (simp add: L(1,5) del: map_eq_conv)
  qed (simp add: PPSListObject)
qed

lemma object_addrs_old:
  assumes ok: "object_ok H ob" and ag: "agree H H'"
  shows "object_addrs H' ob \<subseteq> {..<brk H}"
proof (cases ob)
  case (PPSObject p)
  with ok pps_addrs_old [OF _ ag] show ?thesis by (cases p) simp_all
next
  case (PPSListObject l)
  show ?thesis
  proof (cases l)
    case (Some m)
    note L = list_old [OF ok [unfolded PPSListObject Some] ag]
    have "(\<Union>q \<in> set (items_at H (lr_Items m)). pps_addrs H' q) \<subseteq> {..<brk H}"
      by (rule UN_least) (use L(2) pps_addrs_old [OF _ ag] in blast)
    with L(1,3,4) PPSListObject Some show ?thesis by (simp del: SUP_le_iff)
  qed (simp add: PPSListObject)
qed

text \<open>
  C33. A deep copy of a PersistentPodState or of a list of them is a copy and is deep, provided that
  Kubernetes' copy of the metadata is (\<open>meta_copy_ok\<close>): it has the value of the original, the original
  keeps its value, no cell belongs to both, those of the metadata (labels, annotations, owners and the
  rest) included, and whatever is written later to a cell of the copy, the original is not changed. The
  copy of a nil pointer is a nil interface, and only that one is.
\<close>

theorem deep_copy_independent:
  assumes M: "meta_copy_ok M" and ok: "object_ok H ob" and c: "DeepCopyObject M ob H = (r, H')"
  shows "(if is_nil ob then r = None \<and> H' = H
     else \<exists>ob'. r = Some ob' \<and> \<not> is_nil ob' \<and> object_value H' ob' = object_value H ob \<and>
       object_value H' ob = object_value H ob \<and> object_addrs H' ob' \<inter> object_addrs H' ob = {} \<and>
       (\<forall>i \<in> object_addrs H' ob'. \<forall>x. object_value (H'\<lparr>cells := (cells H')(i \<mapsto> x)\<rparr>) ob = object_value H ob))"
proof (cases "is_nil ob")
  case True
  with nil_object_copied [of ob M H] c show ?thesis by simp
next
  case False
  from copy_object_ok [OF M ok c False] obtain ob' where ob': "r = Some ob'" "\<not> is_nil ob'" "grown H H'"
    "object_value H' ob' = object_value H ob" "object_addrs H' ob' \<subseteq> {brk H..<brk H'}" by blast
  have new: "brk H \<le> i" if "i \<in> object_addrs H' ob'" for i using that ob'(5) by auto
  have old: "object_addrs H' ob \<subseteq> {..<brk H}" by (rule object_addrs_old [OF ok grown_agree [OF ob'(3)]])
  have "object_value (H'\<lparr>cells := (cells H')(i \<mapsto> x)\<rparr>) ob = object_value H ob" if "i \<in> object_addrs H' ob'" for i x
    by (rule object_value_agree [OF ok]) (use new [OF that] ob'(3) in \<open>auto simp: grown_def agree_def\<close>)
  moreover have "object_addrs H' ob' \<inter> object_addrs H' ob = {}" using new old by fastforce
  ultimately show ?thesis using False ob' object_value_agree [OF ok grown_agree [OF ob'(3)]] by auto
qed

section \<open>A copier of metadata\<close>

text \<open>It copies cell by cell, the owners with their flags.\<close>

fun copy_owners :: "owner_ref list \<Rightarrow> heap \<Rightarrow> owner_ref list \<times> heap" where
  "copy_owners [] H = ([], H)"
| "copy_owners (r # rs) H =
     (case copy_flat (owr_Controller r) H of
        (f, H1) \<Rightarrow> (case copy_owners rs H1 of (rs', H2) \<Rightarrow> (r\<lparr>owr_Controller := f\<rparr> # rs', H2)))"

definition copy_owner_slice :: "nat option \<Rightarrow> heap \<Rightarrow> nat option \<times> heap" where
  "copy_owner_slice a H =
     (case a of
        None \<Rightarrow> (None, H)
      | Some i \<Rightarrow>
          (case cells H i of
             Some (Owners rs) \<Rightarrow>
               (case copy_owners rs H of (rs', H1) \<Rightarrow> (case alloc (Owners rs') H1 of (j, H2) \<Rightarrow> (Some j, H2)))
           | _ \<Rightarrow> (a, H)))"

definition plain_copiers :: meta_copiers where
  "plain_copiers = \<lparr>
     ObjectMeta_DeepCopyInto = (\<lambda>m H.
       (case copy_flat (mr_Labels m) H of (l, H1) \<Rightarrow>
        (case copy_flat (mr_Annotations m) H1 of (a, H2) \<Rightarrow>
         (case copy_flat (mr_rest m) H2 of (x, H3) \<Rightarrow>
          (case copy_owner_slice (mr_OwnerReferences m) H3 of (r, H4) \<Rightarrow>
            (m\<lparr>mr_Labels := l, mr_Annotations := a, mr_rest := x, mr_OwnerReferences := r\<rparr>, H4)))))),
     ListMeta_DeepCopyInto = (\<lambda>m H.
       (case copy_flat (lmr_RemainingItemCount m) H of (c, H1) \<Rightarrow> (m\<lparr>lmr_RemainingItemCount := c\<rparr>, H1)))\<rparr>"

text \<open>The owners and the opaque rest as an address each.\<close>

definition is_opaque :: "heap \<Rightarrow> nat option \<Rightarrow> bool" where
  "is_opaque H a \<longleftrightarrow> (\<forall>i. a = Some i \<longrightarrow> i < brk H \<and> (\<exists>x. cells H i = Some (Opaque x)))"

definition flag_ok :: "heap \<Rightarrow> owner_ref \<Rightarrow> bool" where
  "flag_ok H r \<longleftrightarrow> (\<forall>j. owr_Controller r = Some j \<longrightarrow> j < brk H \<and> (\<exists>b. cells H j = Some (Flag b)))"

definition is_owners :: "heap \<Rightarrow> nat option \<Rightarrow> bool" where
  "is_owners H a \<longleftrightarrow> (\<forall>i. a = Some i \<longrightarrow> i < brk H \<and> (\<exists>rs. cells H i = Some (Owners rs) \<and> (\<forall>r \<in> set rs. flag_ok H r)))"

lemma meta_ok_parts:
  "meta_ok H m \<longleftrightarrow> is_map H (mr_Labels m) \<and> is_map H (mr_Annotations m) \<and> is_owners H (mr_OwnerReferences m) \<and>
     is_opaque H (mr_rest m)"
  by (simp add: meta_ok_def is_owners_def is_opaque_def flag_ok_def)

lemma copy_opaque_ok:
  assumes "copy_flat a H = (b, H')" and "is_opaque H a"
  shows "grown H H'" and "is_opaque H' b" and "opaque_at H' b = opaque_at H a" and "cells_below H' b \<subseteq> {brk H..<brk H'}"
  using assms
  by (cases a; auto simp: copy_flat_def alloc_def grown_def agree_def is_opaque_def opaque_at_def cells_below_def split: option.splits)+

lemma copy_flag_ok:
  assumes "copy_flat (owr_Controller r) H = (f, H')" and "flag_ok H r"
  shows "grown H H' \<and> flag_ok H' (r\<lparr>owr_Controller := f\<rparr>) \<and> owner_value H' (r\<lparr>owr_Controller := f\<rparr>) = owner_value H r \<and>
     set_option f \<subseteq> {brk H..<brk H'}"
  using assms
  by (cases "owr_Controller r")
    (auto simp: copy_flat_def alloc_def grown_def agree_def flag_ok_def owner_value_def flag_at_def split: option.splits)

lemma flag_ok_grown: "flag_ok H r \<Longrightarrow> grown H H' \<Longrightarrow> flag_ok H' r"
  by (fastforce simp: flag_ok_def grown_def agree_def)

lemma flag_value_agree: "flag_ok H r \<Longrightarrow> agree H H' \<Longrightarrow> owner_value H' r = owner_value H r"
  by (rule owner_value_agree) (simp_all add: flag_ok_def)

lemma copy_owners_ok:
  assumes "copy_owners rs H = (rs', H')" and "\<forall>r \<in> set rs. flag_ok H r"
  shows "grown H H' \<and> (\<forall>r \<in> set rs'. flag_ok H' r) \<and> map (owner_value H') rs' = map (owner_value H) rs \<and>
     (\<Union>r \<in> set rs'. set_option (owr_Controller r)) \<subseteq> {brk H..<brk H'}"
  using assms
proof (induction rs arbitrary: H rs')
  case (Cons r rs)
  then obtain f H1 qs where f: "copy_flat (owr_Controller r) H = (f, H1)" and qs: "copy_owners rs H1 = (qs, H')"
    and rs': "rs' = r\<lparr>owr_Controller := f\<rparr> # qs" by (auto split: prod.splits)
  have rok: "flag_ok H r" and rest: "\<forall>r \<in> set rs. flag_ok H r" using Cons.prems(2) by simp_all
  note F = copy_flag_ok [OF f rok]
  have "\<forall>r \<in> set rs. flag_ok H1 r" using rest F by (auto intro: flag_ok_grown)
  note I = Cons.IH [OF qs this]
  have ag: "agree H H1" "agree H1 H'" using F I by (simp_all add: grown_def)
  have "map (owner_value H1) rs = map (owner_value H) rs" using rest flag_value_agree [OF _ ag(1)] by simp
  moreover have "owner_value H' (r\<lparr>owr_Controller := f\<rparr>) = owner_value H r"
    using F flag_value_agree [OF _ ag(2)] by metis
  moreover have "flag_ok H' (r\<lparr>owr_Controller := f\<rparr>)" using F I by (auto intro: flag_ok_grown)
  moreover have "grown H H'" using F I by (auto intro: grown_trans)
  moreover have "{brk H..<brk H1} \<subseteq> {brk H..<brk H'}" "{brk H1..<brk H'} \<subseteq> {brk H..<brk H'}"
    using F I by (auto simp: grown_def)
  ultimately show ?case using rs' F I by auto
qed simp

lemma copy_owner_slice_ok:
  assumes c: "copy_owner_slice a H = (b, H')" and ok: "is_owners H a"
  shows "grown H H' \<and> is_owners H' b \<and> owners_at H' b = owners_at H a \<and> cells_below H' b \<subseteq> {brk H..<brk H'}"
proof (cases a)
  case None
  with c show ?thesis by (simp add: copy_owner_slice_def is_owners_def owners_at_def cells_below_def)
next
  case (Some i)
  with ok obtain rs where rs: "cells H i = Some (Owners rs)" "\<forall>r \<in> set rs. flag_ok H r" by (auto simp: is_owners_def)
  from c Some rs(1) obtain rs' H1 j where q: "copy_owners rs H = (rs', H1)" and al: "alloc (Owners rs') H1 = (j, H')"
    and b: "b = Some j" by (auto simp: copy_owner_slice_def split: prod.splits)
  note C = copy_owners_ok [OF q rs(2)] and A = alloc_grown [OF al]
  have "\<forall>r \<in> set rs'. flag_ok H1 r" using C by blast
  then have "map (owner_value H') rs' = map (owner_value H1) rs'" "\<forall>r \<in> set rs'. flag_ok H' r"
    using flag_value_agree [OF _ grown_agree [OF A(1)]] flag_ok_grown [OF _ A(1)] by simp_all
  moreover have "grown H H'" using C A(1) grown_trans by blast
  moreover have "cells_below H' (Some j) \<subseteq> {brk H..<brk H'}"
    using C A by (auto simp: cells_below_def grown_def)
  ultimately show ?thesis using b A C Some rs(1) by (simp add: is_owners_def owners_at_def)
qed

lemma below_grown:
  assumes "\<And>i. a = Some i \<Longrightarrow> i < brk H1" and "cells_below H1 a \<subseteq> {brk H..<brk H1}" and "grown H1 H'"
  shows "cells_below H' a \<subseteq> {brk H..<brk H'}"
  using assms by (cases a) (auto simp: cells_below_def grown_def agree_def)

lemma is_opaque_grown: "is_opaque H a \<Longrightarrow> grown H H' \<Longrightarrow> is_opaque H' a \<and> opaque_at H' a = opaque_at H a"
  by (cases a) (auto simp: is_opaque_def opaque_at_def grown_def agree_def)

lemma plain_meta_ok:
  assumes m: "meta_ok H m" and c: "ObjectMeta_DeepCopyInto plain_copiers m H = (m', H')"
  shows "grown H H' \<and> meta_ok H' m' \<and> meta_value H' m' = meta_value H m \<and> meta_addrs H' m' \<subseteq> {brk H..<brk H'}"
proof -
  from c obtain l H1 a H2 x H3 r where l: "copy_flat (mr_Labels m) H = (l, H1)"
    and a: "copy_flat (mr_Annotations m) H1 = (a, H2)" and x: "copy_flat (mr_rest m) H2 = (x, H3)"
    and r: "copy_owner_slice (mr_OwnerReferences m) H3 = (r, H')"
    and m': "m' = m\<lparr>mr_Labels := l, mr_Annotations := a, mr_rest := x, mr_OwnerReferences := r\<rparr>"
    by (auto simp: plain_copiers_def split: prod.splits)
  note L = copy_map_ok [OF l meta_okD(1) [OF m]]
  have m1: "meta_ok H1 m" by (rule meta_ok_grown [OF m L(1)])
  note A = copy_map_ok [OF a meta_okD(2) [OF m1]]
  have m2: "meta_ok H2 m" by (rule meta_ok_grown [OF m1 A(1)])
  have "is_opaque H2 (mr_rest m)" using m2 by (simp add: meta_ok_parts)
  note X = copy_opaque_ok [OF x this]
  have m3: "meta_ok H3 m" by (rule meta_ok_grown [OF m2 X(1)])
  have "is_owners H3 (mr_OwnerReferences m)" using m3 by (simp add: meta_ok_parts)
  note R = copy_owner_slice_ok [OF r this]
  have g3: "grown H3 H'" and g2: "grown H2 H'" and g1: "grown H1 H'" and g: "grown H H'"
    using R L(1) A(1) X(1) by (blast intro: grown_trans)+
  have le: "brk H \<le> brk H1" "brk H1 \<le> brk H2" "brk H2 \<le> brk H3" "brk H3 \<le> brk H'"
    using L(1) A(1) X(1) g3 by (simp_all add: grown_def)
  have vs: "meta_value H1 m = meta_value H m" "meta_value H2 m = meta_value H1 m" "meta_value H3 m = meta_value H2 m"
    using meta_value_agree [OF m grown_agree [OF L(1)]] meta_value_agree [OF m1 grown_agree [OF A(1)]]
      meta_value_agree [OF m2 grown_agree [OF X(1)]] by simp_all
  have ok: "is_map H' l" "is_map H' a" "is_opaque H' x"
    using is_map_grown [OF L(2) g1] is_map_grown [OF A(2) g2] is_opaque_grown [OF X(2) g3] by simp_all
  have "meta_value H' m' = meta_value H m"
    using vs L(3) A(3) X(3) R m' map_at_agree [OF L(2) grown_agree [OF g1]] map_at_agree [OF A(2) grown_agree [OF g2]]
      is_opaque_grown [OF X(2) g3] by (simp add: meta_value_def)
  moreover have "cells_below H' l \<subseteq> {brk H..<brk H'}" "cells_below H' a \<subseteq> {brk H..<brk H'}"
    using L(4) A(4) ok le by (cases l; cases a; auto simp: cells_below_def is_map_def)+
  moreover have "cells_below H' x \<subseteq> {brk H..<brk H'}" "cells_below H' r \<subseteq> {brk H..<brk H'}"
    using X(4) R ok(3) le by (cases x; auto simp: cells_below_def is_opaque_def)+
  moreover have "meta_ok H' m'" using ok R m' by (simp add: meta_ok_parts)
  ultimately show ?thesis using g m' by (simp add: meta_addrs_def)
qed

lemma plain_copiers_ok: "meta_copy_ok plain_copiers"
proof -
  have "grown H H' \<and> list_meta_ok H' m' \<and> list_meta_value H' m' = list_meta_value H m \<and>
      set_option (lmr_RemainingItemCount m') \<subseteq> {brk H..<brk H'}"
    if "list_meta_ok H m" "ListMeta_DeepCopyInto plain_copiers m H = (m', H')" for m H m' H'
    using that by (cases "lmr_RemainingItemCount m")
      (auto simp: plain_copiers_def copy_flat_def alloc_def grown_def agree_def list_meta_ok_def list_meta_value_def
        count_at_def split: prod.splits option.splits)
  with plain_meta_ok show ?thesis unfolding meta_copy_ok_def by blast
qed

text \<open>An object with labels, an owner with its flag, and a recorded pod.\<close>

definition small_heap :: heap where
  "small_heap = \<lparr>cells = [0 \<mapsto> StringMap (fmap_of_list [(''zone'', ''a'')]),
     1 \<mapsto> StateMap [(''web-0'', \<lparr>pr_NodeName = ''node-1'', pr_NodeTopologyLabels = Some 0, pr_Annotations = None,
       pr_PodIP = ''10.0.0.1''\<rparr>)],
     2 \<mapsto> StringMap (fmap_of_list [(''app'', ''web'')]),
     3 \<mapsto> Owners [\<lparr>owr_APIVersion = ''apps/v1'', owr_Kind = ''StatefulSet'', owr_Name = ''web'', owr_UID = ''1'',
       owr_Controller = Some 4\<rparr>],
     4 \<mapsto> Flag True], brk = 5\<rparr>"

definition small_pps :: pps_ref where
  "small_pps = PPS \<lparr>mr_Name = ''web'', mr_Namespace = ''prod'', mr_UID = [], mr_ResourceVersion = [],
       mr_Labels = Some 2, mr_Annotations = None, mr_OwnerReferences = Some 3, mr_rest = None\<rparr>
     (Spec \<lparr>tr_APIVersion = [], tr_Kind = [], tr_Name = []\<rparr> None None) (Status 0 (Some 1))"

theorem deep_copy_independent_witness:
  "\<exists>ob' H'. DeepCopyObject plain_copiers (PPSObject (Some small_pps)) small_heap = (Some ob', H') \<and>
     object_value H' ob' = object_value small_heap (PPSObject (Some small_pps)) \<and>
     object_addrs H' ob' \<inter> object_addrs H' (PPSObject (Some small_pps)) = {} \<and>
     DeepCopyObject plain_copiers (PPSListObject None) small_heap = (None, small_heap)"
proof -
  have ok: "object_ok small_heap (PPSObject (Some small_pps))" "object_ok small_heap (PPSListObject None)"
    by (simp_all add: pps_ok_def body_ok_def meta_ok_def small_heap_def small_pps_def is_map_def) blast
  obtain r H' r2 H2 where c: "DeepCopyObject plain_copiers (PPSObject (Some small_pps)) small_heap = (r, H')"
    "DeepCopyObject plain_copiers (PPSListObject None) small_heap = (r2, H2)" by (metis surj_pair)
  have n: "\<not> is_nil (PPSObject (Some small_pps))" "is_nil (PPSListObject None)" by simp_all
  note D = deep_copy_independent [OF plain_copiers_ok ok(1) c(1), unfolded if_not_P [OF n(1)]]
  note E = deep_copy_independent [OF plain_copiers_ok ok(2) c(2), unfolded if_P [OF n(2)]]
  from D E c show ?thesis by blast
qed

end
