(* ===== verification/Spec2Isabelle.thy ===== *)
theory Spec2Isabelle
  imports Reference_Lifecycle Reference_Startup Reference_Clients Deep_Copy
begin

text \<open>
  A model of persistent-pod-state, a Kubernetes operator that keeps the identity of pods of
  StatefulSets and of KubeVirt virtual machines: the address and the node a pod had are recorded, and
  a pod that is created again under the same name is given both back.

  \<^bold>\<open>The program.\<close> Two watches put opted-in workloads into the queue of a reconciler
  (\<^verbatim>\<open>internal/controller/apps\<close>). The reconciler lists the pods of a workload, reserves their addresses
  with Calico IPReservations and stores address and node in a PersistentPodState. A mutating admission
  webhook (\<^verbatim>\<open>internal/webhook/pod/mutating\<close>) reads that object when a pod is created, writes the
  recorded address into the Calico annotation and the recorded node into the node affinity. The
  webhook needs a certificate: a second controller (\<^verbatim>\<open>internal/webhook/util/controller\<close>) makes one, keeps
  it in a secret or in a directory, publishes it in the certificate directory with an atomic writer, and
  puts its CA into the webhook configurations of the cluster. A readiness check asks the webhook server
  with that CA, and \<^verbatim>\<open>cmd/main.go\<close> starts the reconciler only after the check has succeeded.

  \<^bold>\<open>Theories and sources.\<close>
  \<^item> \<open>Prelude\<close>: Go's strings, slices and maps that may be nil, results, \<^verbatim>\<open>strconv\<close> and \<^verbatim>\<open>strings\<close>.
  \<^item> \<open>API_Types\<close>: \<^verbatim>\<open>api/apps/v1alpha1\<close>, the objects of Kubernetes that the program reads and writes
    field by field, and the copy functions on values. \<open>Deep_Copy\<close>: the copy functions on an explicit
    heap. \<open>Features\<close>: \<^verbatim>\<open>pkg/features\<close> and \<^verbatim>\<open>pkg/util/feature\<close>.
  \<^item> \<open>Cluster_Client\<close>: the controller-runtime client as a record of operations on a cluster state
    \<open>'w\<close>, the laws \<open>healthy\<close> of a server that answers, and \<^verbatim>\<open>retry.RetryOnConflict\<close>.
  \<^item> \<open>Event_Handlers\<close>, \<open>Reconciler\<close>: \<^verbatim>\<open>persistentpodstate_event_handler.go\<close>,
    \<^verbatim>\<open>persistentpodstate_statefulset_handler.go\<close>, \<^verbatim>\<open>persistentpodstate_controller.go\<close> and
    \<^verbatim>\<open>persistentpodstate_statefulset.go\<close>. \<open>Mutating_Handler\<close>: \<^verbatim>\<open>mutating_handler.go\<close>.
    \<open>Handler_Builder\<close>: the builder of \<^verbatim>\<open>webhooks.go\<close>, behind the interface of \<^verbatim>\<open>framework/builder.go\<close> (the
    locale \<open>handler_builder\<close>). \<open>Pod_Lifecycle\<close>: the reconciler and the webhook together with the API
    server, Calico, the scheduler and the users around them, as a step relation.
  \<^item> \<open>Env_Util\<close>: \<^verbatim>\<open>internal/webhook/util/util.go\<close>. \<open>Kube_Client\<close>: the clientset calls on secrets and
    webhook configurations, with the laws \<open>kube_ok\<close>. \<open>Webhook_Config\<close>: \<^verbatim>\<open>configuration.go\<close>.
  \<^item> \<open>Go_Path\<close>, \<open>File_System\<close>: \<^verbatim>\<open>path/filepath\<close> and the calls of package \<^verbatim>\<open>os\<close> on a tree of
    directories, files and symbolic links, where any call may be made to fail. \<open>Atomic_Writer\<close>,
    \<open>Atomic_Update\<close>: \<^verbatim>\<open>atomic_writer.go\<close>, its definitions and its theorems.
  \<^item> \<open>Cert_Generator\<close>: \<^verbatim>\<open>internal/webhook/util/generator\<close>. \<open>Cert_Writer\<close>, \<open>Cert_Dir\<close>:
    \<^verbatim>\<open>certwriter.go\<close>, \<^verbatim>\<open>secret.go\<close>, \<^verbatim>\<open>error.go\<close> and \<^verbatim>\<open>fs.go\<close>.
  \<^item> \<open>Webhook_Server\<close>: \<^verbatim>\<open>server.go\<close> and \<^verbatim>\<open>add_pod.go\<close>. \<open>Webhook_Controller\<close>,
    \<open>Controller_Start\<close>: \<^verbatim>\<open>webhook_controller.go\<close>, what one work item does, and how \<^verbatim>\<open>New\<close> and \<^verbatim>\<open>Start\<close> run
    over events and caches. \<open>Health_Check\<close>: \<^verbatim>\<open>internal/webhook/util/health\<close> and the waiting part of
    \<^verbatim>\<open>server.go\<close>.
  \<^item> \<open>Client_Registry\<close>: \<^verbatim>\<open>pkg/client/registry.go\<close>, \<^verbatim>\<open>generic_client.go\<close> and the constructors of the generated
    clientset. \<open>Startup\<close>: \<^verbatim>\<open>cmd/main.go\<close>.
  \<^item> \<open>Typed_Client\<close>: the methods of the generated client in \<^verbatim>\<open>typed/apps/v1alpha1\<close>, on the calls of client-go's
    request builder. \<open>Schemes\<close>: the registration of the types with the schemes of the manager, the
    clientset and the fake. \<open>Fake_Client\<close>: the fake of the clientset, on client-go's object tracker. Both
    clients are shown to keep one contract, the locale \<open>pps_store\<close>, through \<open>rest_store\<close> and \<open>fake_store\<close>.
    \<open>Listers\<close>, \<open>Informer_Factory\<close>: \<^verbatim>\<open>pkg/client/listers\<close> and \<^verbatim>\<open>pkg/client/informers\<close>, the factory with its
    goroutines as a step relation.
  \<^item> \<open>Reference_Cluster\<close>, \<open>Reference_Kube\<close>, \<open>Reference_Dir\<close>, \<open>Reference_Certs\<close>, \<open>Reference_Startup\<close>,
    \<open>Reference_Clients\<close>, \<open>Reference_Lifecycle\<close>: concrete clusters, servers, directories, a symbolic cryptography and a run of the
    program, which satisfy the laws that the theorems assume and to which the theorems are applied.

  \<^bold>\<open>How code becomes a definition.\<close> One definition per function, with a helper for a loop or a long
  block. State is passed explicitly: a cluster \<open>'w\<close> that only the client's operations change, a file
  system \<open>fs\<close>, the record \<open>host\<close> of a certificate writer, the record \<open>controller\<close>. An error is a value;
  a result that may also be a panic or the end of the process is \<open>Ok\<close>, \<open>Fail\<close>, \<open>Panic\<close> or \<open>Exit\<close>. A Go
  map that is iterated is the list of its entries in the order of the iteration, which is the same in
  every loop of one call. Code outside the repository is a parameter with named laws: the two clients,
  the JSON codec of webhook configurations, cryptography (\<open>crypto_ok\<close>), the work queue (\<open>idle_ok\<close>),
  the feature gates of component-base (\<open>gate_ok\<close>), fsnotify, net/http, and client-go's request builder
  (\<open>rest_ok\<close>), object tracker (\<open>tracker_ok\<close>) and cache (\<open>cache_ok\<close>), and Kubernetes' deep copy of metadata
  (\<open>meta_copy_ok\<close>). What the API server makes of an answer of the
  webhook is \<open>created_pod\<close> with the law \<open>patch_ok\<close>, and where an admitted pod runs is \<open>placed\<close>. Log lines are left out.

  \<^bold>\<open>How far the laws go.\<close> They claim only what the documentation of the foreign code does. A certificate is
  verified for a name as \<^verbatim>\<open>VerifyHostname\<close> does it (\<open>host_verdict\<close>): an address, with or without square brackets, is
  looked up among the addresses, a well-formed name among the names, and nothing is said of any other text or of
  wildcards. The theorems on validity ask for a host that is \<open>host_supported\<close>, a DNS name or a plain address
  with a four byte form; what happens for the other addresses is \<open>generated_cert_valid\<close>. The laws \<open>rest_ok\<close> of the
  API server speak of requests with default options on plain objects, those which the schema accepts and
  which survive JSON, and of objects without finalizers. The tracker adds a list item by item,
  whatever its Go type.

  \<^bold>\<open>What is shown.\<close>
  \<^item> Recording and pinning: a reconcile records exactly the recordable pods, repeated reconciles
    settle, a record never shrinks in size, admission writes the recorded identity and nothing else, and
    \<open>sticky_identity\<close> below composes both programs. \<open>identity_survives\<close> is the invariant of the whole
    system: over any interleaving of reconciles, admissions, deletions, creations and starts in a calm run, a recorded
    pod keeps its address and node; the hypothesis \<open>calm_for\<close> leaves out the two ways in which the code
    loses a record, which \<open>sts_reconcile_drops_entry\<close> and \<open>name_collisions\<close> show, and pods of the name that are not the
    StatefulSet's. The watches enqueue exactly the opted-in objects (of virtual machines, the running ones), and a request is routed back to the object it was made from.
  \<^item> The atomic writer: whatever calls fail, a reader sees the old version or the new one; a run
    without faults publishes the payload; a left-over temporary link blocks it.
  \<^item> Certificates: both stores refine one contract (\<open>ensure_spec\<close>, through the locale \<open>cert_store\<close> and
    its instances \<open>secret_store\<close> and \<open>cert_dir\<close>), generated certificates are valid except for IPv6 addresses and
    addresses in brackets, and what is written to the directory is read back.
  \<^item> Composition: a successful \<^verbatim>\<open>sync\<close> leaves the directory, the configurations and, where it is used, the secret
    with one certificate, a second one changes nothing, the readiness check then trusts that CA, and a changed CA
    reaches it; no request is served before the switches of the command line are in force. The
    webhook controller does nothing before its caches are filled and an event for one of its objects has arrived.
  \<^item> The generated client code: the fake answers as the typed client does on a server with the same
    plain objects and, made from objects of the right type, never panics, a timeout wraps beyond some 292 years, a lister reads the cache, and over
    every interleaving an informer is shared per type, runs at most once, and is not started once the
    factory is shutting down.
  \<^item> Deep copies are independent of their originals, metadata included.

  \<^bold>\<open>Bounds and loops.\<close> Path resolution follows at most 40 links, as Linux does. \<^verbatim>\<open>RetryOnConflict\<close> is a
  parameter whose runs are the finite sequences of attempts \<open>attempts\<close>. The work loop is taken for any
  number of turns \<open>n\<close>. \<^verbatim>\<open>WaitReady\<close> is a partial function: that it returns is part of its theorem. The
  clock is read once per run of \<^verbatim>\<open>sync\<close>.

  \<^bold>\<open>Not modelled.\<close> Everything behind the parameters above: client-go's informers, request transport and
  tracker, the controller manager and the HTTP server; the parsing of flags and the set-up of the logger in
  \<^verbatim>\<open>main\<close>; \<^verbatim>\<open>dumpJSON\<close>, which only log lines use; the helpers of the end-to-end tests in \<^verbatim>\<open>test/utils\<close>. The
  Windows branch of the atomic writer is defined but excluded in its theorems.
\<close>

section \<open>From the first reconcile to the next pod\<close>

lemma sts_reconcile_keeps_workloads:
  assumes "healthy c v" and "sts_Selector sts = Some l"
    and "StatefulSetAutoGeneratePersistentPodState c sts w = (r, w1)"
  shows "workloads_same v w w1"
  using sts_run_once [OF assms(1,2), where w = w] assms(3) by auto

text \<open>
  C1. The identity of a pod is sticky across the two programs. Let a stored StatefulSet have no
  PersistentPodState yet and a pod with an address and a node. Once the controller has reconciled
  the StatefulSet's request twice, and whatever happens to the workloads after that (the pod may be
  gone), a pod of the same name that is created for the StatefulSet is admitted with exactly that
  address in its Calico annotation and that node as its only required node term.
\<close>

theorem sticky_identity:
  assumes h: "healthy c v" and on: "EnableStatefulSetPersistence cfg"
    and name: "om_Name (sts_Meta sts) \<noteq> []" "CHR ''#'' \<notin> set (om_Name (sts_Meta sts))"
    and sts: "v_STS v w (om_Namespace (sts_Meta sts), om_Name (sts_Meta sts)) = Some sts"
      "sts_Selector sts = Some l"
    and new: "v_PPS v w (om_Namespace (sts_Meta sts), om_Name (sts_Meta sts)) = None"
    and pod: "pod \<in> set (v_Pods v w (om_Namespace (sts_Meta sts)) l)" "recordable pod"
    and w1: "Reconcile cfg c (sts_request sts) w = (r1, w1)"
    and w2: "Reconcile cfg c (sts_request sts) w1 = (r2, w2)"
    and later: "v_PPS v w3 = v_PPS v w2"
    and obj: "om_Name (pod_Meta obj) = om_Name (pod_Meta pod)"
      "om_Namespace (pod_Meta obj) = om_Namespace (sts_Meta sts)"
      "getStatefulSetNameFromPod obj = om_Name (sts_Meta sts)"
  shows "\<exists>obj'. handlePodCreate c obj w3 = ((None, obj'), w3) \<and>
     go_get [] (om_Annotations (pod_Meta obj')) ipAddrs_annotation = quoted_list (pod_PodIP pod) \<and>
     required_terms (pod_Affinity obj') = Some [hostname_term (pod_NodeName pod)]"
proof -
  let ?run = "StatefulSetAutoGeneratePersistentPodState c sts"
  from Reconcile_sts_stored [OF on name(2), of c w sts w] h sts(1) w1
  have run1: "?run w = (r1, w1)" by simp
  have "v_STS v w1 = v_STS v w"
    using sts_reconcile_keeps_workloads [OF h sts(2) run1] by (simp add: workloads_same_def)
  with Reconcile_sts_stored [OF on name(2), of c w1 sts w1] h sts(1) w2
  have run2: "?run w1 = (r2, w2)" by simp
  from sts_two_runs_record [OF h sts(2) new pod run1 run2] obtain p where
    p: "v_PPS v w2 (om_Namespace (sts_Meta sts), om_Name (sts_Meta sts)) = Some p"
    "go_get zero_PodState (PodStates (pps_Status p)) (om_Name (pod_Meta pod)) = pod_podState pod"
    by blast
  have "GetPPS c (om_Namespace (pod_Meta obj)) (om_Name (sts_Meta sts)) w3 = (Inr p, w3)"
    using h p(1) later obj(2) by simp
  from pod_create_recorded [OF obj(3) name(1) this, of "pod_podState pod"] p(2) obj(1) pod(2)
  show ?thesis by (simp add: pod_podState_def recordable_def)
qed

theorem sticky_identity_witness:
  "let run = (\<lambda>w. snd (Reconcile all_on st_client (sts_request web) w));
       w3 = (run (run (cluster two_pods)))\<lparr>st_Pods := []\<rparr>
   in \<exists>obj'. handlePodCreate st_client new_pod w3 = ((None, obj'), w3) \<and>
     go_get [] (om_Annotations (pod_Meta obj')) ipAddrs_annotation = quoted_list ''10.0.0.2'' \<and>
     required_terms (pod_Affinity obj') = Some [hostname_term ''node-2'']"
proof -
  let ?run = "\<lambda>w. Reconcile all_on st_client (sts_request web) w"
  let ?w2 = "snd (?run (snd (?run (cluster two_pods))))"
  let ?pod = "a_pod ''web-1'' ''node-2'' ''10.0.0.2''"
  have "\<exists>obj'. handlePodCreate st_client new_pod (?w2\<lparr>st_Pods := []\<rparr>) = ((None, obj'), ?w2\<lparr>st_Pods := []\<rparr>) \<and>
     go_get [] (om_Annotations (pod_Meta obj')) ipAddrs_annotation = quoted_list (pod_PodIP ?pod) \<and>
     required_terms (pod_Affinity obj') = Some [hostname_term (pod_NodeName ?pod)]"
  proof (rule sticky_identity [OF st_healthy])
    show "?run (cluster two_pods) = (fst (?run (cluster two_pods)), snd (?run (cluster two_pods)))"
      by simp
    show "?run (snd (?run (cluster two_pods))) =
        (fst (?run (snd (?run (cluster two_pods)))), ?w2)" by simp
    show "?pod \<in> set (v_Pods st_view (cluster two_pods) (om_Namespace (sts_Meta web)) None)"
      by (simp add: cluster_pods) (simp add: two_pods_def)
    show "recordable ?pod" by (simp add: recordable_def a_pod_def)
    show "om_Name (pod_Meta new_pod) = om_Name (pod_Meta ?pod)" by (simp add: a_pod_def a_meta_def)
    show "v_PPS st_view (?w2\<lparr>st_Pods := []\<rparr>) = v_PPS st_view ?w2" by (simp add: st_view_def)
  qed (simp_all add: all_on_def st_view_def cluster_def new_pod_sts)
  then show ?thesis by (simp add: Let_def a_pod_def)
qed

end
